(* ===== verification/Prelude.thy ===== *)
theory Prelude
  imports Main "HOL-Library.Word"
begin

unbundle bit_operations_syntax

text \<open>
  Shared vocabulary of the development.

  \<^item> Rust's machine integers are words of their width; the kernel is built for
    \<^verbatim>\<open>x86_64\<close>, so \<^verbatim>\<open>usize\<close> and \<^verbatim>\<open>isize\<close> are 64 bits wide. A signed type is the same
    word read with \<open>sint\<close>.
  \<^item> A computation that may not return is a value of \<open>'a exec\<close>: \<open>Inr v\<close> is a normal
    return, \<open>Inl (Panic r)\<close> a panic (the kernel is built with \<^verbatim>\<open>panic = "abort"\<close>, so a panic
    ends the computation), \<open>Inl Diverge\<close> a loop that spins forever, \<open>Inl Abort\<close> a jump out
    of the function that never comes back. The profile of \<^verbatim>\<open>Cargo.toml\<close> keeps overflow checks
    on in every build, so \<open>add_ck\<close>, \<open>sub_ck\<close>, \<open>mul_ck\<close> and \<open>shl_ck\<close>, \<open>shr_ck\<close> panic
    where Rust's operators do.
  \<^item> \<open>for_each\<close> is the \<^verbatim>\<open>for\<close> loop over a fixed sequence, with the loop's mutable variables
    as its state.
\<close>

section \<open>Machine integers\<close>

type_synonym u8 = "8 word"
type_synonym u16 = "16 word"
type_synonym u32 = "32 word"
type_synonym u64 = "64 word"
type_synonym u128 = "128 word"
type_synonym usize = "64 word"
type_synonym isize = "64 word"
type_synonym i32 = "32 word"

section \<open>Panics, divergence and sequencing\<close>

datatype panic_reason =
    IndexOutOfBounds
  | ArithOverflow
  | ShiftOverflow
  | UnwrapNone
  | ExpectFailed
  | UnreachableCode
  | ExplicitPanic
  | AssertFailed
  | LengthMismatch
  | NotImplemented

datatype stop = Panic panic_reason | Diverge | Abort

type_synonym 'a exec = "stop + 'a"

named_theorems exec_simps

definition rbind :: "'e + 'a \<Rightarrow> ('a \<Rightarrow> 'e + 'b) \<Rightarrow> 'e + 'b" where
  "rbind m f = (case m of Inl e \<Rightarrow> Inl e | Inr x \<Rightarrow> f x)"

fun for_each :: "('i \<Rightarrow> 's \<Rightarrow> 'e + 's) \<Rightarrow> 'i list \<Rightarrow> 's \<Rightarrow> 'e + 's" where
  "for_each body [] s = Inr s"
| "for_each body (i # is) s = rbind (body i s) (for_each body is)"

text \<open>\<^verbatim>\<open>unwrap\<close> on an option, indexing of a slice and of an array of two elements.\<close>

definition unwrap :: "'a option \<Rightarrow> 'a exec" where
  "unwrap x = (case x of None \<Rightarrow> Inl (Panic UnwrapNone) | Some v \<Rightarrow> Inr v)"

definition expect :: "'a option \<Rightarrow> 'a exec" where
  "expect x = (case x of None \<Rightarrow> Inl (Panic ExpectFailed) | Some v \<Rightarrow> Inr v)"

definition slice_get :: "'a list \<Rightarrow> nat \<Rightarrow> 'a exec" where
  "slice_get xs i = (if i < length xs then Inr (xs ! i) else Inl (Panic IndexOutOfBounds))"

definition slice_set :: "'a list \<Rightarrow> nat \<Rightarrow> 'a \<Rightarrow> 'a list exec" where
  "slice_set xs i v =
     (if i < length xs then Inr (xs[i := v]) else Inl (Panic IndexOutOfBounds))"

definition arr2_get :: "'a \<times> 'a \<Rightarrow> nat \<Rightarrow> 'a exec" where
  "arr2_get a i =
     (if i = 0 then Inr (fst a) else if i = 1 then Inr (snd a)
      else Inl (Panic IndexOutOfBounds))"

definition arr2_set :: "'a \<times> 'a \<Rightarrow> nat \<Rightarrow> 'a \<Rightarrow> ('a \<times> 'a) exec" where
  "arr2_set a i v =
     (if i = 0 then Inr (v, snd a) else if i = 1 then Inr (fst a, v)
      else Inl (Panic IndexOutOfBounds))"

section \<open>Rust's integer operations\<close>

definition overflowing_add :: "'a::len word \<Rightarrow> 'a word \<Rightarrow> 'a word \<times> bool" where
  "overflowing_add a b = (a + b, 2 ^ LENGTH('a) \<le> unat a + unat b)"

definition overflowing_sub :: "'a::len word \<Rightarrow> 'a word \<Rightarrow> 'a word \<times> bool" where
  "overflowing_sub a b = (a - b, unat a < unat b)"

definition overflowing_mul :: "'a::len word \<Rightarrow> 'a word \<Rightarrow> 'a word \<times> bool" where
  "overflowing_mul a b = (a * b, 2 ^ LENGTH('a) \<le> unat a * unat b)"

definition add_ck :: "'a::len word \<Rightarrow> 'a word \<Rightarrow> 'a word exec" where
  "add_ck a b =
     (if unat a + unat b < 2 ^ LENGTH('a) then Inr (a + b) else Inl (Panic ArithOverflow))"

definition sub_ck :: "'a::len word \<Rightarrow> 'a word \<Rightarrow> 'a word exec" where
  "sub_ck a b = (if unat b \<le> unat a then Inr (a - b) else Inl (Panic ArithOverflow))"

definition mul_ck :: "'a::len word \<Rightarrow> 'a word \<Rightarrow> 'a word exec" where
  "mul_ck a b =
     (if unat a * unat b < 2 ^ LENGTH('a) then Inr (a * b) else Inl (Panic ArithOverflow))"

definition shl_ck :: "'a::len word \<Rightarrow> nat \<Rightarrow> 'a word exec" where
  "shl_ck a n = (if n < LENGTH('a) then Inr (push_bit n a) else Inl (Panic ShiftOverflow))"

definition shr_ck :: "'a::len word \<Rightarrow> nat \<Rightarrow> 'a word exec" where
  "shr_ck a n = (if n < LENGTH('a) then Inr (drop_bit n a) else Inl (Panic ShiftOverflow))"

text \<open>Subtraction of two sizes kept as natural numbers panics below zero.\<close>

definition nat_sub_ck :: "nat \<Rightarrow> nat \<Rightarrow> nat exec" where
  "nat_sub_ck a b = (if b \<le> a then Inr (a - b) else Inl (Panic ArithOverflow))"

text \<open>Addition and multiplication of sizes kept as natural numbers panic from \<open>2 ^ 64\<close> on.\<close>

definition usize_add_ck :: "nat \<Rightarrow> nat \<Rightarrow> nat exec" where
  "usize_add_ck a b = (if a + b < 2 ^ 64 then Inr (a + b) else Inl (Panic ArithOverflow))"

definition usize_mul_ck :: "nat \<Rightarrow> nat \<Rightarrow> nat exec" where
  "usize_mul_ck a b = (if a * b < 2 ^ 64 then Inr (a * b) else Inl (Panic ArithOverflow))"

section \<open>Byte order\<close>

text \<open>\<open>le_bytes n w\<close> are the \<open>n\<close> low bytes of a word, least significant first
  (\<^verbatim>\<open>to_le_bytes\<close>); \<open>be_bytes\<close> the same bytes most significant first. \<open>le_value\<close> and
  \<open>be_value\<close> are the numbers such byte strings denote.\<close>

definition le_bytes :: "nat \<Rightarrow> 'a::len word \<Rightarrow> u8 list" where
  "le_bytes n w = map (\<lambda>i. ucast (drop_bit (8 * i) w)) [0..<n]"

definition be_bytes :: "nat \<Rightarrow> 'a::len word \<Rightarrow> u8 list" where
  "be_bytes n w = rev (le_bytes n w)"

fun le_value :: "u8 list \<Rightarrow> nat" where
  "le_value [] = 0"
| "le_value (b # bs) = unat b + 256 * le_value bs"

definition be_value :: "u8 list \<Rightarrow> nat" where
  "be_value bs = le_value (rev bs)"

section \<open>Pages\<close>

text \<open>The start of the 4 KiB page or frame an address lies in.\<close>

definition page_down :: "u64 \<Rightarrow> u64" where
  "page_down a = a - a mod 4096"

section \<open>Lemmas on sequencing\<close>

lemma rbind_Inl [simp, exec_simps]: "rbind (Inl e) f = Inl e"
  by (simp add: rbind_def)

lemma rbind_Inr [simp, exec_simps]: "rbind (Inr x) f = f x"
  by (simp add: rbind_def)

lemma rbind_assoc: "rbind (rbind m f) g = rbind m (\<lambda>x. rbind (f x) g)"
  by (simp add: rbind_def split: sum.splits)

lemma rbind_eq_Inr_iff [exec_simps]:
  "rbind m f = Inr y \<longleftrightarrow> (\<exists>x. m = Inr x \<and> f x = Inr y)"
  by (simp add: rbind_def split: sum.splits)

lemma rbind_if: "rbind (if b then m else n) f = (if b then rbind m f else rbind n f)"
  by simp

lemma for_each_append:
  "for_each body (xs @ ys) s = rbind (for_each body xs s) (for_each body ys)"
proof (induction xs arbitrary: s)
  case (Cons x xs)
  then have "for_each body (xs @ ys) = (\<lambda>t. rbind (for_each body xs t) (for_each body ys))" by blast
  then show ?case by (simp add: rbind_assoc)
qed simp

lemma for_each_invariant:
  assumes "for_each body xs s = Inr t" and "P s"
    and "\<And>i s s'. i \<in> set xs \<Longrightarrow> P s \<Longrightarrow> body i s = Inr s' \<Longrightarrow> P s'"
  shows "P t"
  using assms
proof (induction xs arbitrary: s)
  case Nil
  then show ?case by simp
next
  case (Cons x xs)
  from Cons.prems(1) obtain s1 where s1: "body x s = Inr s1" and rest: "for_each body xs s1 = Inr t"
    by (auto simp: rbind_eq_Inr_iff)
  from Cons.prems(3) [of x s s1] s1 Cons.prems(2) have "P s1" by simp
  then show ?case using rest Cons.prems(3) by (intro Cons.IH [of s1]) auto
qed

lemma arr2_simps [simp, exec_simps]:
  "arr2_get a 0 = Inr (fst a)" "arr2_get a (Suc 0) = Inr (snd a)"
  "arr2_get a (Suc (Suc n)) = Inl (Panic IndexOutOfBounds)"
  "arr2_set a 0 v = Inr (v, snd a)" "arr2_set a (Suc 0) v = Inr (fst a, v)"
  "arr2_set a (Suc (Suc n)) v = Inl (Panic IndexOutOfBounds)"
  by (simp_all add: arr2_get_def arr2_set_def)

lemma unwrap_simps [simp, exec_simps]:
  "unwrap (Some v) = Inr v" "unwrap None = Inl (Panic UnwrapNone)"
  by (simp_all add: unwrap_def)

lemma expect_simps [simp, exec_simps]:
  "expect (Some v) = Inr v" "expect None = Inl (Panic ExpectFailed)"
  by (simp_all add: expect_def)

section \<open>Lemmas on searching\<close>

lemma find_upt_None: "find P [a..<b] = None \<longleftrightarrow> (\<forall>j. a \<le> j \<and> j < b \<longrightarrow> \<not> P j)"
  by (auto simp: find_None_iff)

lemma find_upt_Some:
  assumes "find P [a..<b] = Some i"
  shows "a \<le> i \<and> i < b \<and> P i \<and> (\<forall>j. a \<le> j \<and> j < i \<longrightarrow> \<not> P j)"
proof -
  from assms obtain k where k: "k < b - a" "P (a + k)" "i = a + k" "\<forall>j < k. \<not> P (a + j)"
    by (auto simp: find_Some_iff)
  have "\<not> P j" if "a \<le> j" "j < i" for j
    using k(4) [rule_format, of "j - a"] k(3) that by simp
  with k show ?thesis by auto
qed

section \<open>Lemmas on maps\<close>

lemma map_upds_nth:
  assumes "distinct ks" "length vs = length ks" "i < length ks"
  shows "(f(ks [\<mapsto>] vs)) (ks ! i) = Some (vs ! i)"
  using assms
proof (induction ks arbitrary: f vs i)
  case (Cons k ks)
  then obtain v vs' where "vs = v # vs'" by (cases vs) auto
  with Cons show ?case by (cases i) auto
qed simp

section \<open>Lemmas on words\<close>

lemma unat_lt_2p: "unat (a :: 'a::len word) < 2 ^ LENGTH('a)"
  by (rule unsigned_less)

lemma unat_overflowing_add:
  "unat (fst (overflowing_add a b)) = (unat a + unat b) mod 2 ^ LENGTH('a)"
  for a b :: "'a::len word"
  by (simp add: overflowing_add_def unat_word_ariths)

lemma unat_sub_mod:
  "unat (a - b) = (unat a + 2 ^ LENGTH('a) - unat b) mod 2 ^ LENGTH('a)"
  for a b :: "'a::len word"
proof (cases "unat b \<le> unat a")
  case True
  then have "unat a + 2 ^ LENGTH('a) - unat b = (unat a - unat b) + 2 ^ LENGTH('a)" by simp
  moreover have "unat (a - b) = unat a - unat b"
    using True by (simp add: unat_sub word_le_nat_alt)
  moreover have "unat a - unat b < 2 ^ LENGTH('a)"
    using unat_lt_2p [of a] by linarith
  ultimately show ?thesis by (simp only: mod_add_self2 mod_less)
next
  case False
  then have "a < b" by (simp add: word_less_nat_alt)
  then have "unat (a - b) = unat a + 2 ^ LENGTH('a) - unat b"
    using unat_sub_if' [of a b] False by simp
  moreover have "unat a + 2 ^ LENGTH('a) - unat b < 2 ^ LENGTH('a)"
    using False unat_lt_2p [of b] by linarith
  ultimately show ?thesis by (simp only: mod_add_self2 mod_less)
qed

lemma sint_64: "sint w = (if uint w < 2 ^ 63 then uint w else uint w - 2 ^ 64)" for w :: "64 word"
proof -
  have w: "0 \<le> uint w" "uint w < 2 ^ 64" using uint_lt2p [of w] by simp_all
  have "sint w = (uint w + 2 ^ 63) mod 2 ^ 64 - 2 ^ 63"
    by (simp add: sint_uint signed_take_bit_eq_take_bit_shift take_bit_eq_mod)
  then show ?thesis
  proof (cases "uint w < 2 ^ 63")
    case True
    then have "(uint w + 2 ^ 63) mod 2 ^ 64 = uint w + 2 ^ 63" by (intro mod_pos_pos_trivial) auto
    with True \<open>sint w = _\<close> show ?thesis by simp
  next
    case False
    have "(uint w + 2 ^ 63) mod 2 ^ 64 = (uint w + 2 ^ 63 - 2 ^ 64) mod 2 ^ 64"
      by (rule minus_mod_self2 [symmetric])
    also have "\<dots> = uint w + 2 ^ 63 - 2 ^ 64"
      using w False by (intro mod_pos_pos_trivial) auto
    finally show ?thesis using False \<open>sint w = _\<close> by simp
  qed
qed

lemma unat_not: "unat (NOT a) = 2 ^ LENGTH('a) - 1 - unat a" for a :: "'a::len word"
proof -
  have "NOT a = - 1 - a" by (simp add: not_eq_complement)
  moreover have "unat (- 1 - a) = unat (- 1 :: 'a word) - unat a"
    by (rule unat_sub) simp
  moreover have "unat (- 1 :: 'a word) = 2 ^ LENGTH('a) - 1"
    by (simp add: unsigned_minus_1_eq_mask mask_eq_exp_minus_1)
  ultimately show ?thesis by simp
qed

lemma unat_page_down: "unat (page_down a) = unat a - unat a mod 4096"
proof -
  have mod: "unat (a mod 4096) = unat a mod 4096" by (simp add: unat_mod_distrib)
  then have "a mod 4096 \<le> a" by (simp add: word_le_nat_alt)
  with mod show ?thesis by (simp add: page_down_def unat_sub)
qed

lemma page_down_aligned: "4096 dvd unat a \<Longrightarrow> page_down a = a"
  by (simp add: word_unat_eq_iff unat_page_down)

lemma page_down_dvd [simp]: "4096 dvd unat (page_down a)"
  by (simp add: unat_page_down dvd_minus_mod)

lemma page_down_idem [simp]: "page_down (page_down a) = page_down a"
  by (rule page_down_aligned) simp

lemma page_down_shift: "page_down (x + of_nat (4096 * k)) = page_down x + of_nat (4096 * k)"
proof -
  define y where "y = 4096 * k mod 2 ^ 64"
  have dvd: "(4096 :: nat) dvd 2 ^ 64" by simp
  have "y mod 4096 = 0" unfolding y_def by (simp only: mod_mod_cancel [OF dvd] mod_mult_self1_is_0)
  then have "(unat x + y) mod 4096 = unat x mod 4096"
    by (metis add_0_right mod_add_right_eq mod_mod_trivial)
  moreover have "unat (x + of_nat (4096 * k)) = (unat x + y) mod 2 ^ 64"
    by (simp only: unat_word_ariths unat_of_nat y_def) simp
  ultimately have "unat (x + of_nat (4096 * k)) mod 4096 = unat x mod 4096"
    by (simp only: mod_mod_cancel [OF dvd])
  then have "unat ((x + of_nat (4096 * k)) mod 4096) = unat (x mod 4096)"
    by (simp only: unat_mod_distrib) simp
  then have "(x + of_nat (4096 * k)) mod 4096 = x mod 4096" by (simp only: word_unat_eq_iff)
  then show ?thesis by (simp add: page_down_def)
qed

lemma le_bytes_1: "le_bytes (Suc 0) w = [ucast w]"
  by (simp add: le_bytes_def)

lemma ucast_u8_u64: "ucast (ucast b :: u64) = b" for b :: u8
  by (rule bit_eqI) (auto simp: bit_simps dest: bit_imp_le_length)

lemma le_value_append: "le_value (xs @ ys) = le_value xs + 256 ^ length xs * le_value ys"
  by (induction xs) (simp_all add: algebra_simps)

lemma le_value_bound: "le_value bs < 256 ^ length bs"
proof (induction bs)
  case Nil
  then show ?case by simp
next
  case (Cons b bs)
  have "unat b < 256" using unat_lt_2p [of b] by simp
  with Cons show ?case by simp
qed

lemma length_le_bytes [simp]: "length (le_bytes n w) = n"
  by (simp add: le_bytes_def)

lemma length_be_bytes [simp]: "length (be_bytes n w) = n"
  by (simp add: be_bytes_def)

lemma le_bytes_Suc: "le_bytes (Suc n) w = ucast w # le_bytes n (drop_bit 8 w)"
proof -
  have "[0..<Suc n] = 0 # map Suc [0..<n]"
    by (simp add: upt_conv_Cons map_Suc_upt del: upt_Suc)
  then show ?thesis
    by (simp add: le_bytes_def del: upt_Suc) (simp add: ac_simps)
qed

lemma le_value_le_bytes: "le_value (le_bytes n w) = unat w mod 256 ^ n"
proof (induction n arbitrary: w)
  case 0
  then show ?case by (simp add: le_bytes_def)
next
  case (Suc n)
  have "unat (ucast w :: u8) = unat w mod 256"
    by (simp add: unsigned_ucast_eq take_bit_eq_mod)
  moreover have "unat (drop_bit 8 w) = unat w div 256"
    by (subst unat_drop_bit_eq) (simp add: drop_bit_eq_div)
  moreover have "unat w mod (256 * 256 ^ n) = 256 * (unat w div 256 mod 256 ^ n) + unat w mod 256"
    by (simp add: mod_mult2_eq)
  ultimately show ?case
    by (simp add: le_bytes_Suc Suc.IH)
qed

lemma be_value_be_bytes: "be_value (be_bytes n w) = unat w mod 256 ^ n"
  by (simp add: be_value_def be_bytes_def le_value_le_bytes)

lemma dvd_add_le: "d dvd m \<Longrightarrow> d dvd n \<Longrightarrow> m < n \<Longrightarrow> m + d \<le> n" for d m n :: nat
proof -
  assume "d dvd m" "d dvd n" "m < n"
  then obtain k l where "m = d * k" "n = d * l" by (auto elim!: dvdE)
  with \<open>m < n\<close> have "d * (k + 1) \<le> d * l" by (intro mult_le_mono2) (simp add: Suc_leI)
  with \<open>m = d * k\<close> \<open>n = d * l\<close> show ?thesis by simp
qed

lemma dvd_le_round_down: "d dvd m \<Longrightarrow> m \<le> n \<Longrightarrow> m \<le> n - n mod d" for d m n :: nat
proof -
  assume d: "d dvd m" and le: "m \<le> n"
  from le have "m div d \<le> n div d" by (rule div_le_mono)
  then have "d * (m div d) \<le> d * (n div d)" by (rule mult_le_mono2)
  with d show ?thesis by (simp add: minus_mod_eq_mult_div)
qed

text \<open>The value of two limbs: comparing numbers is comparing limbs from the top.\<close>

lemma two_limbs_less_iff:
  fixes l l' h h' m :: nat
  assumes "l < m" and "l' < m"
  shows "l + m * h < l' + m * h' \<longleftrightarrow> h < h' \<or> h = h' \<and> l < l'"
proof (cases "h < h'")
  case True
  then have "m * (h + 1) \<le> m * h'" by (intro mult_le_mono2) simp
  with assms True show ?thesis by simp
next
  case False
  show ?thesis
  proof (cases "h = h'")
    case True
    then show ?thesis by simp
  next
    case neq: False
    with False have "m * (h' + 1) \<le> m * h" by (intro mult_le_mono2) simp
    with assms False neq show ?thesis by simp
  qed
qed

lemma two_limbs_eq_iff:
  fixes l l' h h' m :: nat
  assumes "l < m" and "l' < m"
  shows "l + m * h = l' + m * h' \<longleftrightarrow> h = h' \<and> l = l'"
  using two_limbs_less_iff [OF assms, of h h'] two_limbs_less_iff [OF assms(2,1), of h' h]
  by (cases h h' rule: linorder_cases; cases l l' rule: linorder_cases; simp)

section \<open>Handing out names\<close>

text \<open>The contract of everything that hands out names (frames, interrupt vectors): as long as some are
  available, each step takes exactly one of them. Whatever the order of the steps, the names are
  then distinct. \<open>'i\<close> is what a step is called with.\<close>

locale name_source =
  fixes take_name :: "'i \<Rightarrow> 's \<Rightarrow> 'e + 's"
    and avail :: "'s \<Rightarrow> 'n set"
    and inv :: "'s \<Rightarrow> bool"
  assumes avail_finite: "inv s \<Longrightarrow> finite (avail s)"
    and take_one: "inv s \<Longrightarrow> avail s \<noteq> {}
      \<Longrightarrow> \<exists>n s'. take_name i s = Inr s' \<and> n \<in> avail s \<and> avail s' = avail s - {n} \<and> inv s'"
begin

lemma take_all:
  assumes "inv s" and "length is \<le> card (avail s)"
  shows "\<exists>ns s'. for_each take_name is s = Inr s' \<and> length ns = length is \<and> distinct ns
    \<and> set ns \<subseteq> avail s \<and> avail s' = avail s - set ns \<and> inv s'"
  using assms
proof (induction "is" arbitrary: s)
  case Nil
  then show ?case by (intro exI [of _ "[]"]) simp
next
  case (Cons i "is")
  then have "avail s \<noteq> {}" by auto
  then obtain n s1 where s1: "take_name i s = Inr s1" "n \<in> avail s" "avail s1 = avail s - {n}" "inv s1"
    using take_one [OF Cons.prems(1), of i] by blast
  have "length is \<le> card (avail s1)"
    using s1(2,3) avail_finite [OF Cons.prems(1)] Cons.prems(2) by simp
  then obtain ns s' where "for_each take_name is s1 = Inr s'" "length ns = length is" "distinct ns"
    "set ns \<subseteq> avail s1" "avail s' = avail s1 - set ns" "inv s'"
    using Cons.IH [OF s1(4)] by blast
  then show ?case using s1 by (intro exI [of _ "n # ns"] exI [of _ s']) (auto simp: rbind_def)
qed

end

end
