(* ===== verification/Limbs.thy ===== *)
theory Limbs
  imports Prelude
begin

text \<open>
  The algorithms of \<^verbatim>\<open>src/common/large_numbers.rs\<close> on numbers of two limbs, once for both
  sizes: \<^verbatim>\<open>u256\<close> is two \<^verbatim>\<open>u128\<close> and \<^verbatim>\<open>u512\<close> is two \<^verbatim>\<open>u256\<close>, and the source spells the same
  loops out for each. A loop takes the operations of its limbs as arguments; limb operations
  are of type \<open>exec\<close> because those of \<^verbatim>\<open>u256\<close> index arrays.

  The locale \<open>limb\<close> is the contract a limb type has to meet: a value below \<open>2 ^ k\<close>, wrapping
  addition and subtraction with a carry flag, comparison by value and bitwise operations.
  Its lemmas show that the loops then meet the same contract at twice the width, so that the
  contract of \<^verbatim>\<open>u128\<close> gives that of \<^verbatim>\<open>u256\<close>, and the contract of \<^verbatim>\<open>u256\<close> that of \<^verbatim>\<open>u512\<close>.
\<close>

datatype cmp_ordering = Less | Equal | Greater

section \<open>The loops\<close>

text \<open>One round of the loops of \<^verbatim>\<open>add\<close> and \<^verbatim>\<open>sub\<close>; \<open>op\<close> is \<^verbatim>\<open>overflowing_add\<close> or
  \<^verbatim>\<open>overflowing_sub\<close> of the limbs, the state is \<^verbatim>\<open>(out, carry)\<close>.\<close>

definition chain_step ::
  "('l \<Rightarrow> 'l \<Rightarrow> ('l \<times> bool) exec) \<Rightarrow> 'l \<Rightarrow> 'l \<Rightarrow> 'l \<times> 'l \<Rightarrow> 'l \<times> 'l \<Rightarrow> nat
    \<Rightarrow> ('l \<times> 'l) \<times> 'l \<Rightarrow> (('l \<times> 'l) \<times> 'l) exec" where
  "chain_step op zero one a b i st =
     rbind (arr2_get a i) (\<lambda>x.
     rbind (arr2_get b i) (\<lambda>y.
     rbind (op x y) (\<lambda>(sum, overflow).
     rbind (op sum (snd st)) (\<lambda>(sum, overflow2).
     rbind (arr2_set (fst st) i sum) (\<lambda>out.
       Inr (out, if overflow \<or> overflow2 then one else zero))))))"

definition limb_chain ::
  "('l \<Rightarrow> 'l \<Rightarrow> ('l \<times> bool) exec) \<Rightarrow> 'l \<Rightarrow> 'l \<Rightarrow> 'l \<times> 'l \<Rightarrow> 'l \<times> 'l
    \<Rightarrow> (('l \<times> 'l) \<times> 'l) exec" where
  "limb_chain op zero one a b =
     for_each (chain_step op zero one a b) [0, 1] ((zero, zero), zero)"

text \<open>The double loop of \<^verbatim>\<open>mul\<close>.\<close>

definition mul_step ::
  "('l \<Rightarrow> 'l \<Rightarrow> ('l \<times> bool) exec) \<Rightarrow> ('l \<Rightarrow> 'l \<Rightarrow> ('l \<times> bool) exec) \<Rightarrow> 'l \<Rightarrow> 'l
    \<Rightarrow> 'l \<times> 'l \<Rightarrow> 'l \<times> 'l \<Rightarrow> nat \<Rightarrow> nat \<Rightarrow> ('l \<times> 'l) \<times> 'l \<Rightarrow> (('l \<times> 'l) \<times> 'l) exec" where
  "mul_step omul oadd zero one a b i j st =
     rbind (arr2_get a i) (\<lambda>x.
     rbind (arr2_get b j) (\<lambda>y.
     rbind (omul x y) (\<lambda>(sum, overflow).
     rbind (arr2_get (fst st) (i + j)) (\<lambda>old.
     rbind (oadd sum old) (\<lambda>(sum, overflow2).
     rbind (oadd sum (snd st)) (\<lambda>(sum, overflow3).
     rbind (arr2_set (fst st) (i + j) sum) (\<lambda>out.
       Inr (out, if overflow \<or> overflow2 \<or> overflow3 then one else zero))))))))"

definition limb_mul ::
  "('l \<Rightarrow> 'l \<Rightarrow> ('l \<times> bool) exec) \<Rightarrow> ('l \<Rightarrow> 'l \<Rightarrow> ('l \<times> bool) exec) \<Rightarrow> 'l \<Rightarrow> 'l
    \<Rightarrow> 'l \<times> 'l \<Rightarrow> 'l \<times> 'l \<Rightarrow> ('l \<times> 'l) exec" where
  "limb_mul omul oadd zero one a b =
     for_each (\<lambda>i out.
         rbind (for_each (mul_step omul oadd zero one a b i) [0, 1] (out, zero))
           (\<lambda>(out, carry). Inr out))
       [0, 1] (zero, zero)"

text \<open>The double loop of \<^verbatim>\<open>div\<close>, \<^verbatim>\<open>rem\<close> and \<^verbatim>\<open>overflowing_div\<close>; \<open>lift\<close> is the source's
  \<^verbatim>\<open>From::from(Self::from(carry) << bits)\<close>. The result is \<^verbatim>\<open>(out, remainder)\<close>.\<close>

definition div_step ::
  "('l \<Rightarrow> 'l exec) \<Rightarrow> ('l \<Rightarrow> 'l \<Rightarrow> ('l \<times> bool) exec) \<Rightarrow> ('l \<Rightarrow> 'l \<Rightarrow> ('l \<times> bool) exec)
    \<Rightarrow> 'l \<Rightarrow> 'l \<Rightarrow> 'l \<times> 'l \<Rightarrow> 'l \<times> 'l \<Rightarrow> nat \<Rightarrow> nat \<Rightarrow> ('l \<times> 'l) \<times> 'l
    \<Rightarrow> (('l \<times> 'l) \<times> 'l) exec" where
  "div_step lift omul oadd zero one remainder b i j st =
     rbind (arr2_get remainder j) (\<lambda>r.
     rbind (lift (snd st)) (\<lambda>c.
     rbind (oadd r c) (\<lambda>(sum, overflow).
     rbind (arr2_get b i) (\<lambda>y.
     rbind (omul sum y) (\<lambda>(sum, overflow2).
     rbind (arr2_get (fst st) (i + j)) (\<lambda>old.
     rbind (oadd sum old) (\<lambda>(sum, overflow3).
     rbind (arr2_set (fst st) (i + j) sum) (\<lambda>out.
       Inr (out, if overflow \<or> overflow2 \<or> overflow3 then one else zero)))))))))"

definition limb_div ::
  "('l \<Rightarrow> 'l exec) \<Rightarrow> ('l \<Rightarrow> 'l \<Rightarrow> ('l \<times> bool) exec) \<Rightarrow> ('l \<Rightarrow> 'l \<Rightarrow> ('l \<times> bool) exec)
    \<Rightarrow> 'l \<Rightarrow> 'l \<Rightarrow> 'l \<times> 'l \<Rightarrow> 'l \<times> 'l \<Rightarrow> (('l \<times> 'l) \<times> ('l \<times> 'l)) exec" where
  "limb_div lift omul oadd zero one a b =
     for_each (\<lambda>i (out, remainder).
         rbind (for_each (div_step lift omul oadd zero one remainder b i) [1, 0] (out, zero))
           (\<lambda>(out, carry).
         rbind (arr2_set remainder i carry) (\<lambda>remainder. Inr (out, remainder))))
       [1, 0] ((zero, zero), a)"

text \<open>The loops of the bitwise operators, of the shifts and of \<^verbatim>\<open>not\<close>: limb by limb.\<close>

definition limb_map2 ::
  "('l \<Rightarrow> 'l \<Rightarrow> 'l exec) \<Rightarrow> 'l \<Rightarrow> 'l \<times> 'l \<Rightarrow> 'l \<times> 'l \<Rightarrow> ('l \<times> 'l) exec" where
  "limb_map2 f zero a b =
     for_each (\<lambda>i out.
         rbind (arr2_get a i) (\<lambda>x. rbind (arr2_get b i) (\<lambda>y.
         rbind (f x y) (\<lambda>v. arr2_set out i v))))
       [0, 1] (zero, zero)"

definition limb_map1 :: "('l \<Rightarrow> 'l exec) \<Rightarrow> 'l \<Rightarrow> 'l \<times> 'l \<Rightarrow> ('l \<times> 'l) exec" where
  "limb_map1 f zero a =
     for_each (\<lambda>i out. rbind (arr2_get a i) (\<lambda>x. rbind (f x) (\<lambda>v. arr2_set out i v)))
       [0, 1] (zero, zero)"

text \<open>The comparison chains: the high limbs first.\<close>

definition limb_cmp ::
  "('l \<Rightarrow> 'l \<Rightarrow> bool) \<Rightarrow> ('l \<Rightarrow> 'l \<Rightarrow> bool) \<Rightarrow> 'l \<times> 'l \<Rightarrow> 'l \<times> 'l \<Rightarrow> cmp_ordering" where
  "limb_cmp gt lt a b =
     (if gt (snd a) (snd b) then Greater
      else if lt (snd a) (snd b) then Less
      else if gt (fst a) (fst b) then Greater
      else if lt (fst a) (fst b) then Less
      else Equal)"

text \<open>The number two limbs denote, the first limb being the low one.\<close>

definition pair_val :: "('l \<Rightarrow> nat) \<Rightarrow> nat \<Rightarrow> 'l \<times> 'l \<Rightarrow> nat" where
  "pair_val lval k p = lval (fst p) + 2 ^ k * lval (snd p)"

text \<open>The comparison of two numbers by value, as an ordering.\<close>

definition nat_cmp :: "nat \<Rightarrow> nat \<Rightarrow> cmp_ordering" where
  "nat_cmp m n = (if n < m then Greater else if m < n then Less else Equal)"

section \<open>Arithmetic of two limbs\<close>

lemma mod_two_limbs:
  fixes l h B :: int
  assumes "0 < B"
  shows "(l + B * h) mod (B * B) = l mod B + B * ((l div B + h) mod B)"
proof -
  have "(l + B * h) mod (B * B) = B * ((l + B * h) div B mod B) + (l + B * h) mod B"
    using assms by (intro zmod_zmult2_eq) simp
  with assms show ?thesis by (simp add: ac_simps)
qed

lemma int_pair_val: "int (pair_val lval k p) = int (lval (fst p)) + 2 ^ k * int (lval (snd p))"
  by (simp add: pair_val_def)

lemma pair_val_bound:
  assumes "\<And>x. lval x < 2 ^ k"
  shows "pair_val lval k p < 2 ^ (2 * k)"
proof -
  have "lval (snd p) + 1 \<le> 2 ^ k" using assms [of "snd p"] by simp
  then have "2 ^ k * (lval (snd p) + 1) \<le> 2 ^ k * (2 ^ k :: nat)" by (rule mult_le_mono2)
  then show ?thesis using assms [of "fst p"]
    by (simp add: pair_val_def mult_2 power_add)
qed

lemma div_of_bool_add:
  fixes x y B :: int
  assumes "0 \<le> x" "x < B" "0 \<le> y" "y < B"
  shows "(x + y) div B = of_bool (B \<le> x + y)"
proof (cases "B \<le> x + y")
  case True
  then have "(x + y - B) div B = 0" using assms by (intro div_pos_pos_trivial) auto
  then have "(x + y) div B = 1"
    using assms div_add_self2 [of B "x + y - B"] by simp
  with True show ?thesis by simp
next
  case False
  with assms show ?thesis by (simp add: div_pos_pos_trivial)
qed

lemma div_of_bool_diff:
  fixes x y B :: int
  assumes "0 \<le> x" "x < B" "0 \<le> y" "y < B"
  shows "(x - y) div B = - of_bool (x < y)"
proof (cases "x < y")
  case True
  then have "(x - y + B) div B = 0" using assms by (intro div_pos_pos_trivial) auto
  then have "(x - y) div B = -1"
    using assms div_add_self2 [of B "x - y"] by simp
  with True show ?thesis by simp
next
  case False
  with assms show ?thesis by (simp add: div_pos_pos_trivial)
qed

text \<open>Adding and then adding the carry, as the loops do, is adding three numbers.\<close>

lemma carry_flags:
  fixes x y c B :: int
  assumes "0 \<le> x" "x < B" "0 \<le> y" "y < B" "0 \<le> c" "c \<le> 1"
  shows "(B \<le> x + y \<or> B \<le> (x + y) mod B + c) \<longleftrightarrow> B \<le> x + y + c"
proof (cases "B \<le> x + y")
  case False
  then have "(x + y) mod B = x + y" using assms by (intro mod_pos_pos_trivial) auto
  with False show ?thesis by simp
next
  case True
  with assms show ?thesis by simp
qed

lemma borrow_flags:
  fixes x y c B :: int
  assumes "0 \<le> x" "x < B" "0 \<le> y" "y < B" "0 \<le> c" "c \<le> 1"
  shows "(x < y \<or> (x - y) mod B < c) \<longleftrightarrow> x < y + c"
proof (cases "x < y")
  case False
  then have "(x - y) mod B = x - y" using assms by (intro mod_pos_pos_trivial) auto
  with False show ?thesis by auto
next
  case True
  with assms show ?thesis by simp
qed

lemma le_div_iff_sq: "B \<le> n div B \<longleftrightarrow> B * B \<le> n" if "0 < B" for n B :: int
proof
  assume "B \<le> n div B"
  then have "B * B \<le> B * (n div B)" using that by (intro mult_left_mono) auto
  also have "\<dots> \<le> n" using that by (simp add: minus_mod_eq_mult_div [symmetric])
  finally show "B * B \<le> n" .
next
  assume "B * B \<le> n"
  then have "B * B div B \<le> n div B" using that by (rule zdiv_mono1)
  with that show "B \<le> n div B" by simp
qed

lemma power_le_int_iff: "(2 ^ n :: int) \<le> int m \<longleftrightarrow> 2 ^ n \<le> m"
  by (metis of_nat_le_iff of_nat_numeral of_nat_power)

lemma bit_two_limbs:
  fixes l h k n :: nat
  assumes "l < 2 ^ k"
  shows "bit (l + 2 ^ k * h) n \<longleftrightarrow> (if n < k then bit l n else bit h (n - k))"
proof (cases "n < k")
  case True
  then have "(2 ^ k :: nat) = 2 ^ n * (2 * 2 ^ (k - n - 1))"
    by (simp flip: power_add power_Suc)
  then have "(l + 2 ^ k * h) div 2 ^ n = l div 2 ^ n + 2 * (2 ^ (k - n - 1) * h)"
    by (simp add: mult.assoc)
  with True show ?thesis by (simp add: bit_iff_odd)
next
  case False
  then have "(2 ^ n :: nat) = 2 ^ k * 2 ^ (n - k)" by (simp flip: power_add)
  then have "(l + 2 ^ k * h) div 2 ^ n = h div 2 ^ (n - k)"
    using assms by (simp add: div_mult2_eq)
  with False show ?thesis by (simp add: bit_iff_odd)
qed

section \<open>The contract of a limb\<close>

locale limb =
  fixes lval :: "'l \<Rightarrow> nat" and k :: nat
    and oadd osub :: "'l \<Rightarrow> 'l \<Rightarrow> ('l \<times> bool) exec"
    and zero one :: 'l
    and gt lt :: "'l \<Rightarrow> 'l \<Rightarrow> bool"
    and land lor lxor :: "'l \<Rightarrow> 'l \<Rightarrow> 'l exec"
    and lnot :: "'l \<Rightarrow> 'l exec"
  assumes lval_bound: "lval x < 2 ^ k"
    and lval_inj: "lval x = lval y \<Longrightarrow> x = y"
    and lval_zero: "lval zero = 0"
    and lval_one: "lval one = 1"
    and oadd_law: "\<exists>s. oadd x y = Inr (s, 2 ^ k \<le> lval x + lval y)
                      \<and> lval s = (lval x + lval y) mod 2 ^ k"
    and osub_law: "\<exists>s. osub x y = Inr (s, lval x < lval y)
                      \<and> int (lval s) = (int (lval x) - int (lval y)) mod 2 ^ k"
    and gt_law: "gt x y \<longleftrightarrow> lval y < lval x"
    and lt_law: "lt x y \<longleftrightarrow> lval x < lval y"
    and land_law: "\<exists>z. land x y = Inr z \<and> lval z = lval x AND lval y"
    and lor_law: "\<exists>z. lor x y = Inr z \<and> lval z = lval x OR lval y"
    and lxor_law: "\<exists>z. lxor x y = Inr z \<and> lval z = lval x XOR lval y"
    and lnot_law: "\<exists>z. lnot x = Inr z \<and> lval z = 2 ^ k - 1 - lval x"
begin

lemma pair_bound: "pair_val lval k p < 2 ^ (2 * k)"
  by (rule pair_val_bound) (rule lval_bound)

lemma pair_inj: "pair_val lval k p = pair_val lval k q \<Longrightarrow> p = q"
  using two_limbs_eq_iff [OF lval_bound [of "fst p"] lval_bound [of "fst q"]]
  by (auto simp: pair_val_def intro: prod_eqI lval_inj)

lemma oadd_zero: "oadd x zero = Inr (x, False)"
proof -
  obtain s where s: "oadd x zero = Inr (s, 2 ^ k \<le> lval x + lval zero)"
      "lval s = (lval x + lval zero) mod 2 ^ k"
    using oadd_law by blast
  moreover have "s = x" using s lval_bound [of x] by (intro lval_inj) (simp add: lval_zero)
  ultimately show ?thesis using lval_bound [of x] by (simp add: lval_zero)
qed

lemma osub_zero: "osub x zero = Inr (x, False)"
proof -
  obtain s where s: "osub x zero = Inr (s, lval x < lval zero)"
      "int (lval s) = (int (lval x) - int (lval zero)) mod 2 ^ k"
    using osub_law by blast
  have "int (lval x) < 2 ^ k" using lval_bound [of x] by (simp add: less_imp_of_nat_less)
  with s have "s = x" by (intro lval_inj) (simp add: lval_zero)
  with s show ?thesis by (simp add: lval_zero)
qed

lemma int_lval_bound: "0 \<le> int (lval x)" "int (lval x) < 2 ^ k"
  using lval_bound [of x] by (simp_all add: less_imp_of_nat_less)

lemma oadd_int:
  obtains s where "oadd x y = Inr (s, 2 ^ k \<le> int (lval x) + int (lval y))"
    and "int (lval s) = (int (lval x) + int (lval y)) mod 2 ^ k"
proof -
  obtain s where s: "oadd x y = Inr (s, 2 ^ k \<le> lval x + lval y)"
      "lval s = (lval x + lval y) mod 2 ^ k" using oadd_law by blast
  have "2 ^ k \<le> lval x + lval y \<longleftrightarrow> (2 ^ k :: int) \<le> int (lval x) + int (lval y)"
    by (simp only: flip: power_le_int_iff of_nat_add)
  with s show thesis by (intro that [of s]) (simp_all add: of_nat_mod)
qed

lemma chain_add:
  "\<exists>s. limb_chain oadd zero one a b
         = Inr (s, if 2 ^ (2 * k) \<le> pair_val lval k a + pair_val lval k b then one else zero)
      \<and> pair_val lval k s = (pair_val lval k a + pair_val lval k b) mod 2 ^ (2 * k)"
proof -
  let ?B = "2 ^ k :: int"
  let ?x0 = "int (lval (fst a))" and ?x1 = "int (lval (snd a))"
  let ?y0 = "int (lval (fst b))" and ?y1 = "int (lval (snd b))"
  obtain s0 where s0: "oadd (fst a) (fst b) = Inr (s0, ?B \<le> ?x0 + ?y0)"
      "int (lval s0) = (?x0 + ?y0) mod ?B" by (rule oadd_int)
  define c where "c = (if ?B \<le> ?x0 + ?y0 then one else zero)"
  have c: "int (lval c) = (?x0 + ?y0) div ?B"
    using div_of_bool_add [OF int_lval_bound [of "fst a"] int_lval_bound [of "fst b"]]
    by (simp add: c_def lval_one lval_zero)
  have c01: "0 \<le> int (lval c)" "int (lval c) \<le> 1"
    by (simp_all add: c_def lval_one lval_zero)
  obtain s1 where s1: "oadd (snd a) (snd b) = Inr (s1, ?B \<le> ?x1 + ?y1)"
      "int (lval s1) = (?x1 + ?y1) mod ?B" by (rule oadd_int)
  obtain t1 where t1: "oadd s1 c = Inr (t1, ?B \<le> int (lval s1) + int (lval c))"
      "int (lval t1) = (int (lval s1) + int (lval c)) mod ?B" by (rule oadd_int)
  let ?sum = "(?x0 + ?y0) + ?B * (?x1 + ?y1)"
  have sum: "?sum = int (pair_val lval k a + pair_val lval k b)"
    by (simp add: pair_val_def algebra_simps)
  have B2: "?B * ?B = 2 ^ (2 * k)" by (simp add: mult_2 power_add)
  have run: "limb_chain oadd zero one a b = Inr ((s0, t1),
      if ?B \<le> ?x1 + ?y1 \<or> ?B \<le> int (lval s1) + int (lval c) then one else zero)"
    by (simp add: limb_chain_def chain_step_def s0 s1 t1 oadd_zero flip: c_def)
  have "(?B \<le> ?x1 + ?y1 \<or> ?B \<le> int (lval s1) + int (lval c)) \<longleftrightarrow> ?B \<le> ?x1 + ?y1 + int (lval c)"
    unfolding s1(2) by (rule carry_flags [OF int_lval_bound int_lval_bound c01])
  also have "\<dots> \<longleftrightarrow> ?B \<le> ?sum div ?B" by (simp add: c)
  also have "\<dots> \<longleftrightarrow> 2 ^ (2 * k) \<le> pair_val lval k a + pair_val lval k b"
  proof -
    have "?B \<le> ?sum div ?B \<longleftrightarrow> 2 ^ (2 * k) \<le> ?sum"
      by (simp only: le_div_iff_sq B2 zero_less_power zero_less_numeral)
    then show ?thesis by (simp only: sum power_le_int_iff)
  qed
  finally have flag: "(?B \<le> ?x1 + ?y1 \<or> ?B \<le> int (lval s1) + int (lval c))
      \<longleftrightarrow> 2 ^ (2 * k) \<le> pair_val lval k a + pair_val lval k b" .
  have "int (pair_val lval k (s0, t1)) = ?sum mod (?B * ?B)"
    unfolding mod_two_limbs [of ?B, simplified] int_pair_val
    by (simp add: s0 t1 s1 c mod_simps ac_simps)
  also have "\<dots> = int ((pair_val lval k a + pair_val lval k b) mod 2 ^ (2 * k))"
    by (simp only: B2 sum of_nat_mod of_nat_power of_nat_numeral)
  finally have "pair_val lval k (s0, t1)
      = (pair_val lval k a + pair_val lval k b) mod 2 ^ (2 * k)" by simp
  with run show ?thesis unfolding flag by blast
qed

lemma chain_sub:
  "\<exists>s. limb_chain osub zero one a b
         = Inr (s, if pair_val lval k a < pair_val lval k b then one else zero)
      \<and> int (pair_val lval k s)
         = (int (pair_val lval k a) - int (pair_val lval k b)) mod 2 ^ (2 * k)"
proof -
  let ?B = "2 ^ k :: int"
  let ?x0 = "int (lval (fst a))" and ?x1 = "int (lval (snd a))"
  let ?y0 = "int (lval (fst b))" and ?y1 = "int (lval (snd b))"
  obtain s0 where s0: "osub (fst a) (fst b) = Inr (s0, lval (fst a) < lval (fst b))"
      "int (lval s0) = (?x0 - ?y0) mod ?B" using osub_law by blast
  define c where "c = (if lval (fst a) < lval (fst b) then one else zero)"
  have c: "int (lval c) = - ((?x0 - ?y0) div ?B)"
    using div_of_bool_diff [OF int_lval_bound [of "fst a"] int_lval_bound [of "fst b"]]
    by (simp add: c_def lval_one lval_zero)
  have c01: "0 \<le> int (lval c)" "int (lval c) \<le> 1"
    by (simp_all add: c_def lval_one lval_zero)
  obtain s1 where s1: "osub (snd a) (snd b) = Inr (s1, lval (snd a) < lval (snd b))"
      "int (lval s1) = (?x1 - ?y1) mod ?B" using osub_law by blast
  obtain t1 where t1: "osub s1 c = Inr (t1, lval s1 < lval c)"
      "int (lval t1) = (int (lval s1) - int (lval c)) mod ?B" using osub_law by blast
  let ?dif = "(?x0 - ?y0) + ?B * (?x1 - ?y1)"
  have dif: "?dif = int (pair_val lval k a) - int (pair_val lval k b)"
    by (simp add: pair_val_def algebra_simps)
  have B2: "?B * ?B = 2 ^ (2 * k)" by (simp add: mult_2 power_add)
  have run: "limb_chain osub zero one a b = Inr ((s0, t1),
      if lval (snd a) < lval (snd b) \<or> lval s1 < lval c then one else zero)"
    by (simp add: limb_chain_def chain_step_def s0 s1 t1 osub_zero flip: c_def)
  have "(?x1 < ?y1 \<or> int (lval s1) < int (lval c)) \<longleftrightarrow> ?x1 < ?y1 + int (lval c)"
    unfolding s1(2) by (rule borrow_flags [OF int_lval_bound int_lval_bound c01])
  then have "(lval (snd a) < lval (snd b) \<or> lval s1 < lval c)
      \<longleftrightarrow> lval (snd a) < lval (snd b) + lval c" by linarith
  also have "\<dots> \<longleftrightarrow> pair_val lval k a < pair_val lval k b"
    unfolding pair_val_def two_limbs_less_iff [OF lval_bound lval_bound]
    by (auto simp: c_def lval_one lval_zero)
  finally have flag: "(lval (snd a) < lval (snd b) \<or> lval s1 < lval c)
      \<longleftrightarrow> pair_val lval k a < pair_val lval k b" .
  have "int (pair_val lval k (s0, t1)) = ?dif mod (?B * ?B)"
    unfolding mod_two_limbs [of ?B, simplified] int_pair_val
    by (simp add: s0 t1 s1 c mod_simps ac_simps)
  also have "\<dots> = (int (pair_val lval k a) - int (pair_val lval k b)) mod 2 ^ (2 * k)"
    by (simp only: B2 dif)
  finally show ?thesis using run unfolding flag by blast
qed

lemma cmp_pair: "limb_cmp gt lt a b = nat_cmp (pair_val lval k a) (pair_val lval k b)"
proof -
  note less_iff = two_limbs_less_iff [OF lval_bound lval_bound]
  show ?thesis
    unfolding limb_cmp_def nat_cmp_def pair_val_def less_iff gt_law lt_law by auto
qed

lemma map2_bitwise:
  assumes f: "\<And>x y. \<exists>z. f x y = Inr z \<and> lval z = g (lval x) (lval y)"
    and g: "\<And>m n i. bit (g m n) i = B (bit m i) (bit n i)"
  shows "\<exists>z. limb_map2 f zero a b = Inr z
           \<and> pair_val lval k z = g (pair_val lval k a) (pair_val lval k b)"
proof -
  obtain z0 where z0: "f (fst a) (fst b) = Inr z0" "lval z0 = g (lval (fst a)) (lval (fst b))"
    using f by blast
  obtain z1 where z1: "f (snd a) (snd b) = Inr z1" "lval z1 = g (lval (snd a)) (lval (snd b))"
    using f by blast
  have "limb_map2 f zero a b = Inr (z0, z1)" by (simp add: limb_map2_def z0 z1)
  moreover have "pair_val lval k (z0, z1) = g (pair_val lval k a) (pair_val lval k b)"
  proof (rule bit_eqI)
    fix n
    have bits: "bit (pair_val lval k p) n
        \<longleftrightarrow> (if n < k then bit (lval (fst p)) n else bit (lval (snd p)) (n - k))" for p
      by (simp add: pair_val_def bit_two_limbs lval_bound)
    show "bit (pair_val lval k (z0, z1)) n
        \<longleftrightarrow> bit (g (pair_val lval k a) (pair_val lval k b)) n"
      by (simp add: bits g z0 z1)
  qed
  ultimately show ?thesis by blast
qed

lemmas map2_and = map2_bitwise [of land "(AND)" "(\<and>)", OF land_law bit_and_iff]
  and map2_or = map2_bitwise [of lor "(OR)" "(\<or>)", OF lor_law bit_or_iff]
  and map2_xor = map2_bitwise [of lxor "(XOR)" "\<lambda>p q. p \<noteq> q", OF lxor_law bit_xor_iff]

lemma map1_not:
  "\<exists>z. limb_map1 lnot zero a = Inr z
      \<and> pair_val lval k z = 2 ^ (2 * k) - 1 - pair_val lval k a"
proof -
  obtain z0 where z0: "lnot (fst a) = Inr z0" "lval z0 = 2 ^ k - 1 - lval (fst a)"
    using lnot_law by blast
  obtain z1 where z1: "lnot (snd a) = Inr z1" "lval z1 = 2 ^ k - 1 - lval (snd a)"
    using lnot_law by blast
  have "limb_map1 lnot zero a = Inr (z0, z1)" by (simp add: limb_map1_def z0 z1)
  moreover have "pair_val lval k (z0, z1) + pair_val lval k a + 1 = 2 ^ (2 * k)"
  proof -
    have "lval z0 + lval (fst a) + 1 = 2 ^ k" "lval z1 + lval (snd a) + 1 = 2 ^ k"
      using z0 z1 lval_bound [of "fst a"] lval_bound [of "snd a"] by simp_all
    then have "pair_val lval k (z0, z1) + pair_val lval k a + 1
        = 2 ^ k + 2 ^ k * (lval z1 + lval (snd a))"
      by (simp add: pair_val_def algebra_simps)
    also have "\<dots> = 2 ^ k * (lval z1 + lval (snd a) + 1)" by (simp add: algebra_simps)
    also have "\<dots> = 2 ^ (2 * k)"
      using \<open>lval z1 + lval (snd a) + 1 = 2 ^ k\<close> by (simp add: mult_2 power_add)
    finally show ?thesis .
  qed
  ultimately show ?thesis by (intro exI [of _ "(z0, z1)"]) simp
qed

end

section \<open>What the product and quotient loops do\<close>

text \<open>The product loop indexes \<^verbatim>\<open>out[i + j]\<close> with \<^verbatim>\<open>i = j = 1\<close>, one past the end of its two
  limbs: with limb operations that return, it panics there for every pair of operands. A limb
  product that stops, or a shift of the carry that stops, ends the loops at once.\<close>

lemma limb_mul_panics:
  "limb_mul (\<lambda>x y. Inr (m x y)) (\<lambda>x y. Inr (p x y)) zero one a b
     = Inl (Panic IndexOutOfBounds)"
  by (simp add: limb_mul_def mul_step_def case_prod_beta)

lemma limb_mul_stops:
  "(\<And>x y. omul x y = Inl e) \<Longrightarrow> limb_mul omul oadd zero one a b = Inl e"
  by (simp add: limb_mul_def mul_step_def)

lemma limb_div_stops:
  "(\<And>c. lift c = Inl e) \<Longrightarrow> limb_div lift omul oadd zero one a b = Inl e"
  by (simp add: limb_div_def div_step_def)

end
