(* ===== verification/U256.thy ===== *)
theory U256
  imports Limbs
begin

text \<open>
  The 256-bit integer of \<^verbatim>\<open>src/common/large_numbers.rs\<close>, \<^verbatim>\<open>struct u256([u128; 2])\<close>, with every
  operator, comparison and conversion of the file except those with floats. The value of a
  \<open>u256\<close> is \<open>u256_val\<close>; the contract \<open>limb\<close> holds for \<^verbatim>\<open>u128\<close> (interpretation \<open>l128\<close>), and the
  lemmas of this theory carry it over to \<open>u256\<close> for \<^verbatim>\<open>u512\<close> to use.

  Addition, subtraction, negation, comparison and the bitwise operators are correct modulo
  \<open>2 ^ 256\<close>; multiplication, division and remainder panic on every input; the shifts move each
  limb on its own; the comparison with a primitive integer never answers \<^verbatim>\<open>Equal\<close>.
\<close>

datatype u256 = U256 (limbs256: "u128 \<times> u128")

definition u256_new :: "u128 \<Rightarrow> u128 \<Rightarrow> u256" where
  "u256_new a b = U256 (a, b)"

definition u256_to_le_bytes :: "u256 \<Rightarrow> u8 list" where
  "u256_to_le_bytes v = le_bytes 16 (fst (limbs256 v)) @ le_bytes 16 (snd (limbs256 v))"

section \<open>The overflowing operations\<close>

definition u128_oadd :: "u128 \<Rightarrow> u128 \<Rightarrow> (u128 \<times> bool) exec" where
  "u128_oadd a b = Inr (overflowing_add a b)"

definition u128_osub :: "u128 \<Rightarrow> u128 \<Rightarrow> (u128 \<times> bool) exec" where
  "u128_osub a b = Inr (overflowing_sub a b)"

definition u128_omul :: "u128 \<Rightarrow> u128 \<Rightarrow> (u128 \<times> bool) exec" where
  "u128_omul a b = Inr (overflowing_mul a b)"

definition u256_overflowing_add :: "u256 \<Rightarrow> u256 \<Rightarrow> (u256 \<times> bool) exec" where
  "u256_overflowing_add a b =
     rbind (limb_chain u128_oadd 0 1 (limbs256 a) (limbs256 b)) (\<lambda>(out, carry).
       Inr (U256 out, carry \<noteq> 0))"

definition u256_overflowing_sub :: "u256 \<Rightarrow> u256 \<Rightarrow> (u256 \<times> bool) exec" where
  "u256_overflowing_sub a b =
     rbind (limb_chain u128_osub 0 1 (limbs256 a) (limbs256 b)) (\<lambda>(out, carry).
       Inr (U256 out, carry \<noteq> 0))"

definition u256_overflowing_mul :: "u256 \<Rightarrow> u256 \<Rightarrow> (u256 \<times> bool) exec" where
  "u256_overflowing_mul a b =
     rbind (limb_mul u128_omul u128_oadd 0 1 (limbs256 a) (limbs256 b)) (\<lambda>out.
       Inr (U256 out, False))"

section \<open>Conversions\<close>

text \<open>Widening an unsigned integer zero-extends, widening a signed one sign-extends to 128 bits
  (\<^verbatim>\<open>value as u128\<close>); in both cases the high limb is zero. Narrowing truncates the low limb.\<close>

definition u256_from_u128 :: "u128 \<Rightarrow> u256" where
  "u256_from_u128 v = U256 (v, 0)"

definition u128_from_u256 :: "u256 \<Rightarrow> u128" where
  "u128_from_u256 v = fst (limbs256 v)"

definition uint_from_u256 :: "u256 \<Rightarrow> 'a::len word" where
  "uint_from_u256 v = ucast (fst (limbs256 v))"

definition bool_from_u256 :: "u256 \<Rightarrow> bool" where
  "bool_from_u256 v = (fst (limbs256 v) \<noteq> 0)"

definition char_from_u256 :: "u256 \<Rightarrow> char" where
  "char_from_u256 v = char_of (unat (ucast (fst (limbs256 v)) :: u8))"

definition u256_from_uint :: "'a::len word \<Rightarrow> u256" where
  "u256_from_uint v = U256 (ucast v, 0)"

definition u256_from_sint :: "'a::len word \<Rightarrow> u256" where
  "u256_from_sint v = U256 (scast v, 0)"

definition u256_from_bool :: "bool \<Rightarrow> u256" where
  "u256_from_bool v = U256 (if v then 1 else 0, 0)"

text \<open>A Rust \<^verbatim>\<open>char\<close> is its Unicode scalar value, a number of 32 bits.\<close>

definition u256_from_char :: "u32 \<Rightarrow> u256" where
  "u256_from_char v = U256 (ucast v, 0)"

definition bytes_from_u256 :: "u256 \<Rightarrow> u8 list" where
  "bytes_from_u256 v = le_bytes 16 (fst (limbs256 v)) @ le_bytes 16 (snd (limbs256 v))"

section \<open>Operators\<close>

text \<open>An operator and its assigning form are one function here: \<^verbatim>\<open>op_assign\<close> is
  \<^verbatim>\<open>*self = *self op rhs\<close> throughout the file, and \<^verbatim>\<open>u256\<close> is \<^verbatim>\<open>Copy\<close>.\<close>

definition u256_index :: "u256 \<Rightarrow> u256 \<Rightarrow> u128 exec" where
  "u256_index v i = arr2_get (limbs256 v) (unat (ucast (fst (limbs256 i)) :: usize))"

definition u256_index_mut :: "u256 \<Rightarrow> u256 \<Rightarrow> u128 \<Rightarrow> u256 exec" where
  "u256_index_mut v i x =
     rbind (arr2_set (limbs256 v) (unat (ucast (fst (limbs256 i)) :: usize)) x) (\<lambda>l. Inr (U256 l))"

definition u256_add :: "u256 \<Rightarrow> u256 \<Rightarrow> u256 exec" where
  "u256_add a b =
     rbind (limb_chain u128_oadd 0 1 (limbs256 a) (limbs256 b)) (\<lambda>(out, carry). Inr (U256 out))"

definition u256_sub :: "u256 \<Rightarrow> u256 \<Rightarrow> u256 exec" where
  "u256_sub a b =
     rbind (limb_chain u128_osub 0 1 (limbs256 a) (limbs256 b)) (\<lambda>(out, carry). Inr (U256 out))"

definition u256_mul :: "u256 \<Rightarrow> u256 \<Rightarrow> u256 exec" where
  "u256_mul a b =
     rbind (limb_mul u128_omul u128_oadd 0 1 (limbs256 a) (limbs256 b)) (\<lambda>out. Inr (U256 out))"

definition u256_bitand :: "u256 \<Rightarrow> u256 \<Rightarrow> u256 exec" where
  "u256_bitand a b =
     rbind (limb_map2 (\<lambda>x y. Inr (x AND y)) 0 (limbs256 a) (limbs256 b)) (\<lambda>out. Inr (U256 out))"

definition u256_bitor :: "u256 \<Rightarrow> u256 \<Rightarrow> u256 exec" where
  "u256_bitor a b =
     rbind (limb_map2 (\<lambda>x y. Inr (x OR y)) 0 (limbs256 a) (limbs256 b)) (\<lambda>out. Inr (U256 out))"

definition u256_bitxor :: "u256 \<Rightarrow> u256 \<Rightarrow> u256 exec" where
  "u256_bitxor a b =
     rbind (limb_map2 (\<lambda>x y. Inr (x XOR y)) 0 (limbs256 a) (limbs256 b)) (\<lambda>out. Inr (U256 out))"

definition u256_shl :: "u256 \<Rightarrow> u256 \<Rightarrow> u256 exec" where
  "u256_shl a b =
     rbind (limb_map2 (\<lambda>x y. shl_ck x (unat y)) 0 (limbs256 a) (limbs256 b))
       (\<lambda>out. Inr (U256 out))"

definition u256_shr :: "u256 \<Rightarrow> u256 \<Rightarrow> u256 exec" where
  "u256_shr a b =
     rbind (limb_map2 (\<lambda>x y. shr_ck x (unat y)) 0 (limbs256 a) (limbs256 b))
       (\<lambda>out. Inr (U256 out))"

definition u256_not :: "u256 \<Rightarrow> u256 exec" where
  "u256_not a = rbind (limb_map1 (\<lambda>x. Inr (NOT x)) 0 (limbs256 a)) (\<lambda>out. Inr (U256 out))"

definition u256_neg :: "u256 \<Rightarrow> u256 exec" where
  "u256_neg a =
     rbind (limb_map1 (\<lambda>x. Inr (NOT x)) 0 (limbs256 a)) (\<lambda>out.
       u256_add (U256 out) (u256_from_sint (1 :: i32)))"

text \<open>\<^verbatim>\<open>u128::from(Self::from(carry) << 128)\<close> of the quotient loops.\<close>

definition u256_lift_carry :: "u128 \<Rightarrow> u128 exec" where
  "u256_lift_carry carry =
     rbind (u256_shl (u256_from_u128 carry) (u256_from_u128 128)) (\<lambda>v. Inr (u128_from_u256 v))"

definition u256_overflowing_div :: "u256 \<Rightarrow> u256 \<Rightarrow> (u256 \<times> bool) exec" where
  "u256_overflowing_div a b =
     rbind (limb_div u256_lift_carry u128_omul u128_oadd 0 1 (limbs256 a) (limbs256 b))
       (\<lambda>(out, remainder). Inr (U256 remainder, False))"

definition u256_div :: "u256 \<Rightarrow> u256 \<Rightarrow> u256 exec" where
  "u256_div a b =
     rbind (limb_div u256_lift_carry u128_omul u128_oadd 0 1 (limbs256 a) (limbs256 b))
       (\<lambda>(out, remainder). Inr (U256 out))"

definition u256_rem :: "u256 \<Rightarrow> u256 \<Rightarrow> u256 exec" where
  "u256_rem a b =
     rbind (limb_div u256_lift_carry u128_omul u128_oadd 0 1 (limbs256 a) (limbs256 b))
       (\<lambda>(out, remainder). Inr (U256 remainder))"

text \<open>The operators by name; those with a \<^verbatim>\<open>u128\<close> on the right widen it first, and each
  assigning operator stores the result of the operator in the left operand.\<close>

datatype binop = BAdd | BSub | BMul | BDiv | BRem | BAnd | BOr | BXor | BShl | BShr

fun u256_binop :: "binop \<Rightarrow> u256 \<Rightarrow> u256 \<Rightarrow> u256 exec" where
  "u256_binop BAdd a b = u256_add a b"
| "u256_binop BSub a b = u256_sub a b"
| "u256_binop BMul a b = u256_mul a b"
| "u256_binop BDiv a b = u256_div a b"
| "u256_binop BRem a b = u256_rem a b"
| "u256_binop BAnd a b = u256_bitand a b"
| "u256_binop BOr a b = u256_bitor a b"
| "u256_binop BXor a b = u256_bitxor a b"
| "u256_binop BShl a b = u256_shl a b"
| "u256_binop BShr a b = u256_shr a b"

definition u256_op_u128 :: "binop \<Rightarrow> u256 \<Rightarrow> u128 \<Rightarrow> u256 exec" where
  "u256_op_u128 bop a b = u256_binop bop a (u256_from_u128 b)"

section \<open>Equality and order\<close>

definition u256_eq :: "u256 \<Rightarrow> u256 \<Rightarrow> bool" where
  "u256_eq a b \<longleftrightarrow>
     fst (limbs256 a) = fst (limbs256 b) \<and> snd (limbs256 a) = snd (limbs256 b)"

definition u256_eq_uint :: "u256 \<Rightarrow> 'a::len word \<Rightarrow> bool" where
  "u256_eq_uint a other \<longleftrightarrow> fst (limbs256 a) = ucast other \<and> snd (limbs256 a) = 0"

definition u256_eq_sint :: "u256 \<Rightarrow> 'a::len word \<Rightarrow> bool" where
  "u256_eq_sint a other \<longleftrightarrow> fst (limbs256 a) = scast other \<and> snd (limbs256 a) = 0"

definition u128_gt :: "u128 \<Rightarrow> u128 \<Rightarrow> bool" where
  "u128_gt x y \<longleftrightarrow> y < x"

definition u128_lt :: "u128 \<Rightarrow> u128 \<Rightarrow> bool" where
  "u128_lt x y \<longleftrightarrow> x < y"

definition u256_partial_cmp :: "u256 \<Rightarrow> u256 \<Rightarrow> cmp_ordering option" where
  "u256_partial_cmp a b = Some (limb_cmp u128_gt u128_lt (limbs256 a) (limbs256 b))"

definition u256_partial_cmp_uint :: "u256 \<Rightarrow> 'a::len word \<Rightarrow> cmp_ordering option" where
  "u256_partial_cmp_uint a other =
     (if snd (limbs256 a) > 0 then Some Greater
      else if snd (limbs256 a) = 0 then Some Less
      else if fst (limbs256 a) > ucast other then Some Greater
      else if fst (limbs256 a) < ucast other then Some Less
      else Some Equal)"

definition u256_cmp :: "u256 \<Rightarrow> u256 \<Rightarrow> cmp_ordering" where
  "u256_cmp a b = limb_cmp u128_gt u128_lt (limbs256 a) (limbs256 b)"

text \<open>The operators \<^verbatim>\<open>>\<close> and \<^verbatim>\<open><\<close> are the default methods of \<^verbatim>\<open>PartialOrd\<close>.\<close>

definition u256_gt :: "u256 \<Rightarrow> u256 \<Rightarrow> bool" where
  "u256_gt a b \<longleftrightarrow> u256_partial_cmp a b = Some Greater"

definition u256_lt :: "u256 \<Rightarrow> u256 \<Rightarrow> bool" where
  "u256_lt a b \<longleftrightarrow> u256_partial_cmp a b = Some Less"

section \<open>Formatting\<close>

text \<open>The digits of a number in a radix, most significant first, without leading zeros: what
  Rust's formatting of a primitive integer prints without a width.\<close>

function radix_digits :: "nat \<Rightarrow> nat \<Rightarrow> nat list" where
  "radix_digits r n =
     (if r < 2 \<or> n < r then [n] else radix_digits r (n div r) @ [n mod r])"
  by pat_completeness auto
termination by (relation "measure snd") auto

definition fmt_radix :: "string \<Rightarrow> nat \<Rightarrow> 'a::len word \<Rightarrow> string" where
  "fmt_radix digits r w = map (\<lambda>d. digits ! d) (radix_digits r (unat w))"

datatype fmt_kind = Display | LowerHex | UpperHex | Binary | Octal | Debug

fun fmt_prim :: "fmt_kind \<Rightarrow> 'a::len word \<Rightarrow> string" where
  "fmt_prim Display w = fmt_radix ''0123456789'' 10 w"
| "fmt_prim LowerHex w = fmt_radix ''0123456789abcdef'' 16 w"
| "fmt_prim UpperHex w = fmt_radix ''0123456789ABCDEF'' 16 w"
| "fmt_prim Binary w = fmt_radix ''01'' 2 w"
| "fmt_prim Octal w = fmt_radix ''01234567'' 8 w"
| "fmt_prim Debug w = fmt_radix ''0123456789'' 10 w"

text \<open>\<^verbatim>\<open>Debug\<close> prints the debug form of the string of the two limbs: the digits, quoted.\<close>

definition u256_fmt :: "fmt_kind \<Rightarrow> u256 \<Rightarrow> string" where
  "u256_fmt kind v =
     (let out = fmt_prim kind (snd (limbs256 v)) @ fmt_prim kind (fst (limbs256 v))
      in if kind = Debug then [CHR 0x22] @ out @ [CHR 0x22] else out)"

section \<open>Values\<close>

definition u256_val :: "u256 \<Rightarrow> nat" where
  "u256_val v = pair_val unat 128 (limbs256 v)"

interpretation l128: limb unat 128 u128_oadd u128_osub 0 1 u128_gt u128_lt
  "\<lambda>x y. Inr (x AND y)" "\<lambda>x y. Inr (x OR y)" "\<lambda>x y. Inr (x XOR y)" "\<lambda>x. Inr (NOT x)"
proof unfold_locales
  fix x y :: u128
  show "unat x < 2 ^ 128" using unat_lt_2p [of x] by simp
  show "x = y" if "unat x = unat y" using that by (rule word_unat_eq_iff [THEN iffD2])
  show "\<exists>s. u128_oadd x y = Inr (s, 2 ^ 128 \<le> unat x + unat y)
      \<and> unat s = (unat x + unat y) mod 2 ^ 128"
    by (simp add: u128_oadd_def overflowing_add_def unat_word_ariths)
  show "\<exists>s. u128_osub x y = Inr (s, unat x < unat y)
      \<and> int (unat s) = (int (unat x) - int (unat y)) mod 2 ^ 128"
    by (simp add: u128_osub_def overflowing_sub_def uint_word_ariths)
  show "u128_gt x y \<longleftrightarrow> unat y < unat x" by (simp add: u128_gt_def word_less_nat_alt)
  show "u128_lt x y \<longleftrightarrow> unat x < unat y" by (simp add: u128_lt_def word_less_nat_alt)
  show "\<exists>z. Inr (x AND y) = Inr z \<and> unat z = unat x AND unat y"
    by (simp add: unsigned_and_eq)
  show "\<exists>z. Inr (x OR y) = Inr z \<and> unat z = unat x OR unat y"
    by (simp add: unsigned_or_eq)
  show "\<exists>z. Inr (x XOR y) = Inr z \<and> unat z = unat x XOR unat y"
    by (simp add: unsigned_xor_eq)
  show "\<exists>z. Inr (NOT x) = Inr z \<and> unat z = 2 ^ 128 - 1 - unat x"
    by (simp add: unat_not)
qed simp_all

lemma u256_val_bound: "u256_val a < 2 ^ 256"
  using l128.pair_bound [of "limbs256 a"] by (simp add: u256_val_def)

lemma u256_val_inj: "u256_val a = u256_val b \<Longrightarrow> a = b"
  using l128.pair_inj [of "limbs256 a" "limbs256 b"] by (simp add: u256_val_def u256.expand)

lemma u256_val_eq_iff: "u256_val a = u256_val b \<longleftrightarrow> a = b"
  using u256_val_inj by blast

lemma u256_val_U256 [simp]: "u256_val (U256 l) = pair_val unat 128 l"
  by (simp add: u256_val_def)

lemma u256_oadd_spec:
  "\<exists>s. u256_overflowing_add a b = Inr (s, 2 ^ 256 \<le> u256_val a + u256_val b)
     \<and> u256_val s = (u256_val a + u256_val b) mod 2 ^ 256"
  using l128.chain_add [of "limbs256 a" "limbs256 b"]
  by (auto simp: u256_overflowing_add_def u256_val_def simp del: power_numeral)

lemma u256_osub_spec:
  "\<exists>s. u256_overflowing_sub a b = Inr (s, u256_val a < u256_val b)
     \<and> int (u256_val s) = (int (u256_val a) - int (u256_val b)) mod 2 ^ 256"
  using l128.chain_sub [of "limbs256 a" "limbs256 b"]
  by (auto simp: u256_overflowing_sub_def u256_val_def)

lemma u256_add_spec:
  "\<exists>s. u256_add a b = Inr s \<and> u256_val s = (u256_val a + u256_val b) mod 2 ^ 256"
  using l128.chain_add [of "limbs256 a" "limbs256 b"]
  by (auto simp: u256_add_def u256_val_def)

lemma u256_sub_spec:
  "\<exists>s. u256_sub a b = Inr s
     \<and> int (u256_val s) = (int (u256_val a) - int (u256_val b)) mod 2 ^ 256"
  using l128.chain_sub [of "limbs256 a" "limbs256 b"]
  by (auto simp: u256_sub_def u256_val_def)

lemma u256_not_spec: "\<exists>z. u256_not a = Inr z \<and> u256_val z = 2 ^ 256 - 1 - u256_val a"
  using l128.map1_not [of "limbs256 a"] by (auto simp: u256_not_def u256_val_def)

lemma u256_and_spec: "\<exists>z. u256_bitand a b = Inr z \<and> u256_val z = u256_val a AND u256_val b"
  using l128.map2_and [of "limbs256 a" "limbs256 b"]
  by (auto simp: u256_bitand_def u256_val_def)

lemma u256_or_spec: "\<exists>z. u256_bitor a b = Inr z \<and> u256_val z = u256_val a OR u256_val b"
  using l128.map2_or [of "limbs256 a" "limbs256 b"]
  by (auto simp: u256_bitor_def u256_val_def)

lemma u256_xor_spec: "\<exists>z. u256_bitxor a b = Inr z \<and> u256_val z = u256_val a XOR u256_val b"
  using l128.map2_xor [of "limbs256 a" "limbs256 b"]
  by (auto simp: u256_bitxor_def u256_val_def)

lemma u256_cmp_spec: "u256_cmp a b = nat_cmp (u256_val a) (u256_val b)"
  by (simp add: u256_cmp_def u256_val_def l128.cmp_pair)

lemma u256_partial_cmp_spec: "u256_partial_cmp a b = Some (nat_cmp (u256_val a) (u256_val b))"
  by (simp add: u256_partial_cmp_def u256_val_def l128.cmp_pair)

lemma u256_gt_lt_spec:
  "u256_gt a b \<longleftrightarrow> u256_val b < u256_val a" "u256_lt a b \<longleftrightarrow> u256_val a < u256_val b"
  by (auto simp: u256_gt_def u256_lt_def u256_partial_cmp_spec nat_cmp_def)

lemma u256_one: "u256_val (u256_from_sint (1 :: i32)) = 1"
  by (simp add: u256_from_sint_def pair_val_def)

lemma u256_zero: "u256_val (u256_from_sint (0 :: i32)) = 0"
  by (simp add: u256_from_sint_def pair_val_def)

section \<open>The order\<close>

instantiation u256 :: linorder
begin

definition less_eq_u256 :: "u256 \<Rightarrow> u256 \<Rightarrow> bool" where
  "less_eq_u256 a b \<longleftrightarrow> u256_cmp a b \<noteq> Greater"

definition less_u256 :: "u256 \<Rightarrow> u256 \<Rightarrow> bool" where
  "less_u256 a b \<longleftrightarrow> u256_cmp a b = Less"

instance
  by standard
    (auto simp: less_eq_u256_def less_u256_def u256_cmp_spec nat_cmp_def
      simp flip: u256_val_eq_iff split: if_splits)

end

lemma less_eq_u256_val: "a \<le> b \<longleftrightarrow> u256_val a \<le> u256_val b"
  by (auto simp: less_eq_u256_def u256_cmp_spec nat_cmp_def)

section \<open>Operations that panic\<close>

lemma u256_lift_carry_panics: "u256_lift_carry c = Inl (Panic ShiftOverflow)"
  by (simp add: u256_lift_carry_def u256_shl_def u256_from_u128_def limb_map2_def shl_ck_def)

lemma u256_div_panics:
  "u256_div a b = Inl (Panic ShiftOverflow)" "u256_rem a b = Inl (Panic ShiftOverflow)"
  "u256_overflowing_div a b = Inl (Panic ShiftOverflow)"
  by (simp_all add: u256_div_def u256_rem_def u256_overflowing_div_def
      limb_div_stops [OF u256_lift_carry_panics])

lemma u256_mul_panics:
  "u256_mul a b = Inl (Panic IndexOutOfBounds)"
  "u256_overflowing_mul a b = Inl (Panic IndexOutOfBounds)"
proof -
  have ops: "u128_omul = (\<lambda>x y. Inr (overflowing_mul x y))"
    "u128_oadd = (\<lambda>x y. Inr (overflowing_add x y))"
    by (auto simp: u128_omul_def u128_oadd_def fun_eq_iff)
  show "u256_mul a b = Inl (Panic IndexOutOfBounds)"
    "u256_overflowing_mul a b = Inl (Panic IndexOutOfBounds)"
    by (simp_all add: u256_mul_def u256_overflowing_mul_def ops limb_mul_panics)
qed

section \<open>Properties\<close>

text \<open>C1. \<^verbatim>\<open>overflowing_add\<close> and \<^verbatim>\<open>overflowing_sub\<close> of \<^verbatim>\<open>u256\<close> never panic; they return the sum
  and the difference modulo \<open>2 ^ 256\<close> with the carry and the borrow as their flag, and the
  operators \<^verbatim>\<open>+\<close> and \<^verbatim>\<open>-\<close> return the same numbers.\<close>

theorem u256_overflowing_correct:
  "\<exists>s d. u256_overflowing_add a b = Inr (s, 2 ^ 256 \<le> u256_val a + u256_val b)
       \<and> u256_add a b = Inr s \<and> u256_val s = (u256_val a + u256_val b) mod 2 ^ 256
       \<and> u256_overflowing_sub a b = Inr (d, u256_val a < u256_val b)
       \<and> u256_sub a b = Inr d
       \<and> int (u256_val d) = (int (u256_val a) - int (u256_val b)) mod 2 ^ 256"
proof -
  obtain s where s: "u256_overflowing_add a b = Inr (s, 2 ^ 256 \<le> u256_val a + u256_val b)"
    "u256_val s = (u256_val a + u256_val b) mod 2 ^ 256" using u256_oadd_spec by blast
  obtain d where d: "u256_overflowing_sub a b = Inr (d, u256_val a < u256_val b)"
    "int (u256_val d) = (int (u256_val a) - int (u256_val b)) mod 2 ^ 256"
    using u256_osub_spec by blast
  have "u256_add a b = Inr s"
    using u256_add_spec [of a b] s(2) u256_val_inj by metis
  moreover have "u256_sub a b = Inr d"
    using u256_sub_spec [of a b] d(2) u256_val_inj of_nat_eq_iff by metis
  ultimately show ?thesis using s d by blast
qed

text \<open>Subtracting what was added gives the number back, whatever the carry.\<close>

theorem u256_add_sub_cancel: "rbind (u256_add a b) (\<lambda>s. u256_sub s b) = Inr a"
proof -
  obtain s where s: "u256_add a b = Inr s" "u256_val s = (u256_val a + u256_val b) mod 2 ^ 256"
    using u256_add_spec by blast
  obtain d where d: "u256_sub s b = Inr d"
    "int (u256_val d) = (int (u256_val s) - int (u256_val b)) mod 2 ^ 256"
    using u256_sub_spec by blast
  have "int (u256_val d) = int (u256_val a) mod 2 ^ 256"
    by (simp add: d s of_nat_mod mod_simps)
  also have "\<dots> = int (u256_val a)"
    using u256_val_bound [of a] by (metis mod_less of_nat_mod of_nat_numeral of_nat_power)
  finally have "d = a" by (intro u256_val_inj) simp
  with s d show ?thesis by simp
qed

text \<open>Negation is the two's complement: it returns \<open>2 ^ 256 - a\<close> modulo \<open>2 ^ 256\<close>, and adding
  it to \<open>a\<close> gives zero.\<close>

theorem u256_neg_correct:
  "\<exists>n. u256_neg a = Inr n \<and> u256_val n = (2 ^ 256 - u256_val a) mod 2 ^ 256
     \<and> u256_add a n = Inr (u256_new 0 0)"
proof -
  obtain z where z: "limb_map1 (\<lambda>x. Inr (NOT x)) 0 (limbs256 a) = Inr z"
    "pair_val unat 128 z = 2 ^ 256 - 1 - u256_val a"
    using l128.map1_not [of "limbs256 a"] by (auto simp: u256_val_def)
  obtain n where n: "u256_add (U256 z) (u256_from_sint (1 :: i32)) = Inr n"
    "u256_val n = (u256_val (U256 z) + u256_val (u256_from_sint (1 :: i32))) mod 2 ^ 256"
    using u256_add_spec by blast
  have "pair_val unat 128 z + 1 = 2 ^ 256 - u256_val a"
    using u256_val_bound [of a] unfolding z(2) by linarith
  then have val_n: "u256_val n = (2 ^ 256 - u256_val a) mod 2 ^ 256"
    by (simp only: n(2) u256_one u256_val_U256)
  obtain s where s: "u256_add a n = Inr s" "u256_val s = (u256_val a + u256_val n) mod 2 ^ 256"
    using u256_add_spec by blast
  have "u256_val s = 0" using u256_val_bound [of a] by (simp add: s val_n mod_simps)
  then have "s = u256_new 0 0"
    by (intro u256_val_inj) (simp add: u256_new_def pair_val_def)
  with n(1) z(1) s(1) val_n show ?thesis by (simp add: u256_neg_def)
qed

text \<open>\<^verbatim>\<open>Ord\<close> and \<^verbatim>\<open>PartialOrd\<close> of \<^verbatim>\<open>u256\<close> order by value and agree with each other and with
  \<^verbatim>\<open>PartialEq\<close>: the ordering is total, transitive and antisymmetric, with \<^verbatim>\<open>cmp\<close> equal exactly
  where \<^verbatim>\<open>==\<close> holds.\<close>

theorem u256_order_correct:
  "u256_cmp a b = nat_cmp (u256_val a) (u256_val b)
   \<and> u256_partial_cmp a b = Some (u256_cmp a b)
   \<and> (u256_cmp a b = Equal \<longleftrightarrow> u256_eq a b) \<and> (u256_eq a b \<longleftrightarrow> a = b)
   \<and> (u256_cmp a b = Greater \<longleftrightarrow> u256_cmp b a = Less)"
proof -
  have eq: "u256_eq a b \<longleftrightarrow> a = b"
    by (auto simp: u256_eq_def prod_eq_iff intro: u256.expand)
  show ?thesis
    by (auto simp: u256_cmp_spec u256_partial_cmp_spec eq nat_cmp_def u256_val_eq_iff
        split: if_splits)
qed

text \<open>\<^verbatim>\<open>to_le_bytes\<close> writes 32 bytes that denote the value, least significant byte first, and
  the conversion into \<^verbatim>\<open>[u8; 32]\<close> gives the same bytes.\<close>

theorem u256_le_bytes_correct:
  "le_value (u256_to_le_bytes a) = u256_val a \<and> length (u256_to_le_bytes a) = 32
   \<and> bytes_from_u256 a = u256_to_le_bytes a"
proof -
  have low: "le_value (le_bytes 16 w) = unat w" for w :: u128
    using unat_lt_2p [of w] by (simp add: le_value_le_bytes)
  show ?thesis
    by (simp add: u256_to_le_bytes_def bytes_from_u256_def le_value_append low
        u256_val_def pair_val_def)
qed

text \<open>Multiplying, dividing or taking the remainder of two \<^verbatim>\<open>u256\<close> panics for every pair of
  operands, as does the overflowing form: the product loop indexes one limb past the end, the
  quotient loop shifts a \<^verbatim>\<open>u128\<close> by 128.\<close>

theorem u256_mul_div_always_panic:
  "u256_binop BMul a b = Inl (Panic IndexOutOfBounds)
   \<and> u256_overflowing_mul a b = Inl (Panic IndexOutOfBounds)
   \<and> u256_binop BDiv a b = Inl (Panic ShiftOverflow)
   \<and> u256_binop BRem a b = Inl (Panic ShiftOverflow)
   \<and> u256_overflowing_div a b = Inl (Panic ShiftOverflow)
   \<and> u256_op_u128 BMul a c = Inl (Panic IndexOutOfBounds)
   \<and> u256_op_u128 BDiv a c = Inl (Panic ShiftOverflow)
   \<and> u256_op_u128 BRem a c = Inl (Panic ShiftOverflow)"
  by (simp add: u256_mul_panics u256_div_panics u256_op_u128_def)

text \<open>Comparing a \<^verbatim>\<open>u256\<close> with a primitive integer answers only from the high limb: it is
  \<^verbatim>\<open>Less\<close> for every number below \<open>2 ^ 128\<close>, also where the number is equal or greater, and it
  is right exactly for numbers of at least \<open>2 ^ 128\<close> and numbers less than the other one.\<close>

theorem u256_partial_cmp_uint_behaviour:
  fixes other :: "'a::len word"
  assumes "LENGTH('a) \<le> 128"
  shows "u256_partial_cmp_uint a other
           = Some (if 2 ^ 128 \<le> u256_val a then Greater else Less)
         \<and> (u256_partial_cmp_uint a other = Some (nat_cmp (u256_val a) (unat other))
           \<longleftrightarrow> 2 ^ 128 \<le> u256_val a \<or> u256_val a < unat other)"
proof -
  have hi: "snd (limbs256 a) > 0 \<longleftrightarrow> 2 ^ 128 \<le> u256_val a"
  proof (cases "snd (limbs256 a) = 0")
    case True
    then show ?thesis using l128.lval_bound [of "fst (limbs256 a)"]
      by (simp add: u256_val_def pair_val_def)
  next
    case False
    then have "1 \<le> unat (snd (limbs256 a))" using unat_gt_0 [of "snd (limbs256 a)"] by linarith
    with False show ?thesis by (simp add: u256_val_def pair_val_def word_neq_0_conv)
  qed
  have cmp: "u256_partial_cmp_uint a other
      = Some (if 2 ^ 128 \<le> u256_val a then Greater else Less)"
    using hi by (auto simp: u256_partial_cmp_uint_def word_neq_0_conv)
  have "(2 :: nat) ^ LENGTH('a) \<le> 2 ^ 128" using assms by (intro power_increasing) auto
  then have "unat other < 2 ^ 128" using unat_lt_2p [of other] by linarith
  then show ?thesis unfolding cmp nat_cmp_def by auto
qed

theorem u256_partial_cmp_uint_behaviour_witness:
  "u256_partial_cmp_uint (u256_from_u128 7) (7 :: u64) = Some Less
   \<and> u256_partial_cmp_uint (u256_from_u128 7) (7 :: u64)
       \<noteq> Some (nat_cmp (u256_val (u256_from_u128 7)) (unat (7 :: u64)))"
  using u256_partial_cmp_uint_behaviour [where 'a = 64, of "u256_from_u128 7" 7]
  by (simp add: u256_from_u128_def pair_val_def nat_cmp_def)

text \<open>A shift by a \<^verbatim>\<open>u128\<close> moves the low limb only: the high limb keeps its bits, the bits
  leaving the low limb are lost, and an amount of 128 or more panics. So shifting \<open>2 ^ 127\<close>
  left by one gives zero.\<close>

theorem u256_shift_moves_low_limb_only:
  "u256_op_u128 BShl a n =
     (if unat n < 128 then Inr (u256_new (push_bit (unat n) (fst (limbs256 a))) (snd (limbs256 a)))
      else Inl (Panic ShiftOverflow))
   \<and> u256_op_u128 BShr a n =
     (if unat n < 128 then Inr (u256_new (drop_bit (unat n) (fst (limbs256 a))) (snd (limbs256 a)))
      else Inl (Panic ShiftOverflow))
   \<and> u256_op_u128 BShl (u256_new (2 ^ 127) 0) 1 = Inr (u256_new 0 0)"
  by (simp add: u256_op_u128_def u256_shl_def u256_shr_def u256_from_u128_def u256_new_def
      limb_map2_def shl_ck_def shr_ck_def)

text \<open>The formatting traits print the two limbs without padding the low one: a number below
  \<open>2 ^ 128\<close> gets a leading zero, and different numbers print alike, in every radix.\<close>

theorem u256_fmt_unpadded:
  "u256_fmt Display (u256_from_u128 w) = ''0'' @ fmt_prim Display w
   \<and> u256_fmt LowerHex (u256_from_u128 w) = ''0'' @ fmt_prim LowerHex w
   \<and> u256_new 23 1 \<noteq> u256_new 3 12
   \<and> u256_fmt Display (u256_new 23 1) = u256_fmt Display (u256_new 3 12)
   \<and> u256_fmt LowerHex (u256_new 23 1) = u256_fmt LowerHex (u256_new 7 17)"
  by (simp add: u256_fmt_def fmt_radix_def u256_from_u128_def u256_new_def)

end
