(* ===== verification/U512.thy ===== *)
theory U512
  imports U256
begin

text \<open>
  The 512-bit integer of \<^verbatim>\<open>src/common/large_numbers.rs\<close>, \<^verbatim>\<open>struct u512([u256; 2])\<close>: the loops of
  \<open>Limbs\<close> over \<^verbatim>\<open>u256\<close> limbs. The interpretation \<open>l256\<close> shows that \<^verbatim>\<open>u256\<close> meets the contract of
  a limb; the correctness of addition, subtraction, negation, comparison and the bitwise
  operators at 512 bits follows from the lemmas of the locale. The mixed comparisons with
  \<^verbatim>\<open>u256\<close> and the primitive integers are right here, unlike those of \<^verbatim>\<open>u256\<close>. Conversions with
  floats are left out.
\<close>

datatype u512 = U512 (limbs512: "u256 \<times> u256")

abbreviation u256_0 :: u256 where
  "u256_0 \<equiv> u256_from_sint (0 :: i32)"

abbreviation u256_1 :: u256 where
  "u256_1 \<equiv> u256_from_sint (1 :: i32)"

definition u512_new :: "u256 \<Rightarrow> u256 \<Rightarrow> u512" where
  "u512_new a b = U512 (a, b)"

section \<open>Conversions\<close>

definition u512_from_u256 :: "u256 \<Rightarrow> u512" where
  "u512_from_u256 v = U512 (v, u256_0)"

definition u256_from_u512 :: "u512 \<Rightarrow> u256" where
  "u256_from_u512 v = fst (limbs512 v)"

definition uint_from_u512 :: "u512 \<Rightarrow> 'a::len word" where
  "uint_from_u512 v = uint_from_u256 (fst (limbs512 v))"

definition bool_from_u512 :: "u512 \<Rightarrow> bool" where
  "bool_from_u512 v = bool_from_u256 (fst (limbs512 v))"

definition char_from_u512 :: "u512 \<Rightarrow> char" where
  "char_from_u512 v = char_from_u256 (fst (limbs512 v))"

definition u512_from_uint :: "'a::len word \<Rightarrow> u512" where
  "u512_from_uint v = U512 (u256_from_uint v, u256_0)"

definition u512_from_u128 :: "u128 \<Rightarrow> u512" where
  "u512_from_u128 v = U512 (u256_from_u128 v, u256_0)"

definition u512_from_sint :: "'a::len word \<Rightarrow> u512" where
  "u512_from_sint v = U512 (u256_from_sint v, u256_0)"

definition u512_from_bool :: "bool \<Rightarrow> u512" where
  "u512_from_bool v = U512 (u256_from_bool v, u256_0)"

definition u512_from_char :: "u32 \<Rightarrow> u512" where
  "u512_from_char v = U512 (u256_from_char v, u256_0)"

definition bytes_from_u512 :: "u512 \<Rightarrow> u8 list" where
  "bytes_from_u512 v =
     u256_to_le_bytes (fst (limbs512 v)) @ u256_to_le_bytes (snd (limbs512 v))"

section \<open>Operators\<close>

definition u512_add :: "u512 \<Rightarrow> u512 \<Rightarrow> u512 exec" where
  "u512_add a b =
     rbind (limb_chain u256_overflowing_add u256_0 u256_1 (limbs512 a) (limbs512 b))
       (\<lambda>(out, carry). Inr (U512 out))"

definition u512_sub :: "u512 \<Rightarrow> u512 \<Rightarrow> u512 exec" where
  "u512_sub a b =
     rbind (limb_chain u256_overflowing_sub u256_0 u256_1 (limbs512 a) (limbs512 b))
       (\<lambda>(out, carry). Inr (U512 out))"

definition u512_mul :: "u512 \<Rightarrow> u512 \<Rightarrow> u512 exec" where
  "u512_mul a b =
     rbind (limb_mul u256_overflowing_mul u256_overflowing_add u256_0 u256_1
       (limbs512 a) (limbs512 b)) (\<lambda>out. Inr (U512 out))"

definition u512_bitand :: "u512 \<Rightarrow> u512 \<Rightarrow> u512 exec" where
  "u512_bitand a b =
     rbind (limb_map2 u256_bitand u256_0 (limbs512 a) (limbs512 b)) (\<lambda>out. Inr (U512 out))"

definition u512_bitor :: "u512 \<Rightarrow> u512 \<Rightarrow> u512 exec" where
  "u512_bitor a b =
     rbind (limb_map2 u256_bitor u256_0 (limbs512 a) (limbs512 b)) (\<lambda>out. Inr (U512 out))"

definition u512_bitxor :: "u512 \<Rightarrow> u512 \<Rightarrow> u512 exec" where
  "u512_bitxor a b =
     rbind (limb_map2 u256_bitxor u256_0 (limbs512 a) (limbs512 b)) (\<lambda>out. Inr (U512 out))"

definition u512_shl :: "u512 \<Rightarrow> u512 \<Rightarrow> u512 exec" where
  "u512_shl a b =
     rbind (limb_map2 u256_shl u256_0 (limbs512 a) (limbs512 b)) (\<lambda>out. Inr (U512 out))"

definition u512_shr :: "u512 \<Rightarrow> u512 \<Rightarrow> u512 exec" where
  "u512_shr a b =
     rbind (limb_map2 u256_shr u256_0 (limbs512 a) (limbs512 b)) (\<lambda>out. Inr (U512 out))"

definition u512_not :: "u512 \<Rightarrow> u512 exec" where
  "u512_not a = rbind (limb_map1 u256_not u256_0 (limbs512 a)) (\<lambda>out. Inr (U512 out))"

definition u512_neg :: "u512 \<Rightarrow> u512 exec" where
  "u512_neg a =
     rbind (limb_map1 u256_not u256_0 (limbs512 a)) (\<lambda>out.
       u512_add (U512 out) (u512_from_sint (1 :: i32)))"

text \<open>\<^verbatim>\<open>u256::from(Self::from(carry) << 256)\<close> of the quotient loops; the literal is a \<^verbatim>\<open>u128\<close>.\<close>

definition u512_lift_carry :: "u256 \<Rightarrow> u256 exec" where
  "u512_lift_carry carry =
     rbind (u512_shl (u512_from_u256 carry) (u512_from_u128 256)) (\<lambda>v. Inr (u256_from_u512 v))"

definition u512_div :: "u512 \<Rightarrow> u512 \<Rightarrow> u512 exec" where
  "u512_div a b =
     rbind (limb_div u512_lift_carry u256_overflowing_mul u256_overflowing_add u256_0 u256_1
       (limbs512 a) (limbs512 b)) (\<lambda>(out, remainder). Inr (U512 out))"

definition u512_rem :: "u512 \<Rightarrow> u512 \<Rightarrow> u512 exec" where
  "u512_rem a b =
     rbind (limb_div u512_lift_carry u256_overflowing_mul u256_overflowing_add u256_0 u256_1
       (limbs512 a) (limbs512 b)) (\<lambda>(out, remainder). Inr (U512 remainder))"

fun u512_binop :: "binop \<Rightarrow> u512 \<Rightarrow> u512 \<Rightarrow> u512 exec" where
  "u512_binop BAdd a b = u512_add a b"
| "u512_binop BSub a b = u512_sub a b"
| "u512_binop BMul a b = u512_mul a b"
| "u512_binop BDiv a b = u512_div a b"
| "u512_binop BRem a b = u512_rem a b"
| "u512_binop BAnd a b = u512_bitand a b"
| "u512_binop BOr a b = u512_bitor a b"
| "u512_binop BXor a b = u512_bitxor a b"
| "u512_binop BShl a b = u512_shl a b"
| "u512_binop BShr a b = u512_shr a b"

definition u512_op_u256 :: "binop \<Rightarrow> u512 \<Rightarrow> u256 \<Rightarrow> u512 exec" where
  "u512_op_u256 bop a b = u512_binop bop a (u512_from_u256 b)"

definition u512_op_u128 :: "binop \<Rightarrow> u512 \<Rightarrow> u128 \<Rightarrow> u512 exec" where
  "u512_op_u128 bop a b = u512_binop bop a (u512_from_u128 b)"

section \<open>Equality and order\<close>

definition u512_eq :: "u512 \<Rightarrow> u512 \<Rightarrow> bool" where
  "u512_eq a b \<longleftrightarrow> u256_eq (fst (limbs512 a)) (fst (limbs512 b))
     \<and> u256_eq (snd (limbs512 a)) (snd (limbs512 b))"

definition u512_eq_u256 :: "u512 \<Rightarrow> u256 \<Rightarrow> bool" where
  "u512_eq_u256 a other \<longleftrightarrow> u256_eq (fst (limbs512 a)) other \<and> u256_eq (snd (limbs512 a)) u256_0"

definition u512_eq_uint :: "u512 \<Rightarrow> 'a::len word \<Rightarrow> bool" where
  "u512_eq_uint a other \<longleftrightarrow>
     u256_eq (fst (limbs512 a)) (u256_from_uint other) \<and> u256_eq (snd (limbs512 a)) u256_0"

definition u512_eq_sint :: "u512 \<Rightarrow> 'a::len word \<Rightarrow> bool" where
  "u512_eq_sint a other \<longleftrightarrow>
     u256_eq (fst (limbs512 a)) (u256_from_sint other) \<and> u256_eq (snd (limbs512 a)) u256_0"

definition u512_partial_cmp :: "u512 \<Rightarrow> u512 \<Rightarrow> cmp_ordering option" where
  "u512_partial_cmp a b = Some (limb_cmp u256_gt u256_lt (limbs512 a) (limbs512 b))"

definition u512_partial_cmp_u256 :: "u512 \<Rightarrow> u256 \<Rightarrow> cmp_ordering option" where
  "u512_partial_cmp_u256 a other =
     Some (limb_cmp u256_gt u256_lt (limbs512 a) (other, u256_0))"

definition u512_partial_cmp_uint :: "u512 \<Rightarrow> 'a::len word \<Rightarrow> cmp_ordering option" where
  "u512_partial_cmp_uint a other =
     Some (limb_cmp u256_gt u256_lt (limbs512 a) (u256_from_uint other, u256_0))"

definition u512_cmp :: "u512 \<Rightarrow> u512 \<Rightarrow> cmp_ordering" where
  "u512_cmp a b = limb_cmp u256_gt u256_lt (limbs512 a) (limbs512 b)"

section \<open>Values\<close>

definition u512_val :: "u512 \<Rightarrow> nat" where
  "u512_val v = pair_val u256_val 256 (limbs512 v)"

interpretation l256: limb u256_val 256 u256_overflowing_add u256_overflowing_sub u256_0 u256_1
  u256_gt u256_lt u256_bitand u256_bitor u256_bitxor u256_not
  by unfold_locales
    (rule u256_val_bound u256_val_inj u256_zero u256_one u256_oadd_spec u256_osub_spec
      u256_gt_lt_spec u256_and_spec u256_or_spec u256_xor_spec u256_not_spec | assumption)+

lemma u512_val_bound: "u512_val a < 2 ^ 512"
  using l256.pair_bound [of "limbs512 a"] by (simp add: u512_val_def)

lemma u512_val_inj: "u512_val a = u512_val b \<Longrightarrow> a = b"
  using l256.pair_inj [of "limbs512 a" "limbs512 b"] by (simp add: u512_val_def u512.expand)

lemma u512_val_eq_iff: "u512_val a = u512_val b \<longleftrightarrow> a = b"
  using u512_val_inj by blast

lemma u512_val_U512 [simp]: "u512_val (U512 l) = pair_val u256_val 256 l"
  by (simp add: u512_val_def)

lemma u512_add_spec:
  "\<exists>s. u512_add a b = Inr s \<and> u512_val s = (u512_val a + u512_val b) mod 2 ^ 512"
  using l256.chain_add [of "limbs512 a" "limbs512 b"] by (auto simp: u512_add_def u512_val_def)

lemma u512_sub_spec:
  "\<exists>s. u512_sub a b = Inr s
     \<and> int (u512_val s) = (int (u512_val a) - int (u512_val b)) mod 2 ^ 512"
  using l256.chain_sub [of "limbs512 a" "limbs512 b"] by (auto simp: u512_sub_def u512_val_def)

lemma u512_cmp_spec: "u512_cmp a b = nat_cmp (u512_val a) (u512_val b)"
  by (simp add: u512_cmp_def u512_val_def l256.cmp_pair)

lemma u512_val_from_u256: "u512_val (u512_from_u256 v) = u256_val v"
  by (simp add: u512_from_u256_def pair_val_def u256_zero)

lemma u256_val_from_uint:
  fixes v :: "'a::len word"
  assumes "LENGTH('a) \<le> 128"
  shows "u256_val (u256_from_uint v) = unat v"
proof -
  have "(2 :: nat) ^ LENGTH('a) \<le> 2 ^ 128" using assms by (intro power_increasing) auto
  then have "unat v < 2 ^ 128" using unat_lt_2p [of v] by linarith
  then show ?thesis
    by (simp add: u256_from_uint_def pair_val_def unsigned_ucast_eq take_bit_nat_eq_self)
qed

lemma u512_lift_carry_panics: "u512_lift_carry c = Inl (Panic ShiftOverflow)"
  by (simp add: u512_lift_carry_def u512_shl_def u512_from_u256_def u512_from_u128_def
      u256_from_u128_def u256_shl_def limb_map2_def shl_ck_def)

instantiation u512 :: linorder
begin

definition less_eq_u512 :: "u512 \<Rightarrow> u512 \<Rightarrow> bool" where
  "less_eq_u512 a b \<longleftrightarrow> u512_cmp a b \<noteq> Greater"

definition less_u512 :: "u512 \<Rightarrow> u512 \<Rightarrow> bool" where
  "less_u512 a b \<longleftrightarrow> u512_cmp a b = Less"

instance
  by standard
    (auto simp: less_eq_u512_def less_u512_def u512_cmp_spec nat_cmp_def
      simp flip: u512_val_eq_iff split: if_splits)

end

section \<open>Properties\<close>

text \<open>C2. Addition, subtraction and negation of \<^verbatim>\<open>u512\<close> never panic and are arithmetic modulo
  \<open>2 ^ 512\<close>, the carry travelling through all four \<^verbatim>\<open>u128\<close> limbs.\<close>

theorem u512_arith_correct:
  "\<exists>s d n. u512_add a b = Inr s \<and> u512_val s = (u512_val a + u512_val b) mod 2 ^ 512
     \<and> u512_sub a b = Inr d
     \<and> int (u512_val d) = (int (u512_val a) - int (u512_val b)) mod 2 ^ 512
     \<and> u512_neg a = Inr n \<and> u512_val n = (2 ^ 512 - u512_val a) mod 2 ^ 512"
proof -
  obtain z where z: "limb_map1 u256_not u256_0 (limbs512 a) = Inr z"
    "pair_val u256_val 256 z = 2 ^ 512 - 1 - u512_val a"
    using l256.map1_not [of "limbs512 a"] by (auto simp: u512_val_def)
  have one: "u512_val (u512_from_sint (1 :: i32)) = 1"
    by (simp add: u512_from_sint_def pair_val_def u256_one u256_zero)
  obtain n where n: "u512_add (U512 z) (u512_from_sint (1 :: i32)) = Inr n"
    "u512_val n = (u512_val (U512 z) + u512_val (u512_from_sint (1 :: i32))) mod 2 ^ 512"
    using u512_add_spec by blast
  have "pair_val u256_val 256 z + 1 = 2 ^ 512 - u512_val a"
    using u512_val_bound [of a] unfolding z(2) by linarith
  then have "u512_val n = (2 ^ 512 - u512_val a) mod 2 ^ 512"
    by (simp only: n(2) one u512_val_U512)
  moreover have "u512_neg a = Inr n" using z(1) n(1) by (simp add: u512_neg_def)
  ultimately show ?thesis using u512_add_spec [of a b] u512_sub_spec [of a b] by blast
qed

text \<open>The bitwise operators of \<^verbatim>\<open>u512\<close> are those of its value, and complementing is
  subtracting from \<open>2 ^ 512 - 1\<close>.\<close>

theorem u512_bitwise_correct:
  "\<exists>x y z w. u512_bitand a b = Inr x \<and> u512_val x = u512_val a AND u512_val b
     \<and> u512_bitor a b = Inr y \<and> u512_val y = u512_val a OR u512_val b
     \<and> u512_bitxor a b = Inr z \<and> u512_val z = u512_val a XOR u512_val b
     \<and> u512_not a = Inr w \<and> u512_val w = 2 ^ 512 - 1 - u512_val a"
proof -
  have "\<exists>x. u512_bitand a b = Inr x \<and> u512_val x = u512_val a AND u512_val b"
    using l256.map2_and [of "limbs512 a" "limbs512 b"] by (auto simp: u512_bitand_def u512_val_def)
  moreover have "\<exists>x. u512_bitor a b = Inr x \<and> u512_val x = u512_val a OR u512_val b"
    using l256.map2_or [of "limbs512 a" "limbs512 b"] by (auto simp: u512_bitor_def u512_val_def)
  moreover have "\<exists>x. u512_bitxor a b = Inr x \<and> u512_val x = u512_val a XOR u512_val b"
    using l256.map2_xor [of "limbs512 a" "limbs512 b"] by (auto simp: u512_bitxor_def u512_val_def)
  moreover have "\<exists>x. u512_not a = Inr x \<and> u512_val x = 2 ^ 512 - 1 - u512_val a"
    using l256.map1_not [of "limbs512 a"] by (auto simp: u512_not_def u512_val_def)
  ultimately show ?thesis by blast
qed

text \<open>Every comparison of a \<^verbatim>\<open>u512\<close>, with another \<^verbatim>\<open>u512\<close>, with a \<^verbatim>\<open>u256\<close> and with a primitive
  integer, compares the values.\<close>

theorem u512_order_correct:
  fixes v :: "'a::len word"
  assumes "LENGTH('a) \<le> 128"
  shows "u512_cmp a b = nat_cmp (u512_val a) (u512_val b)
     \<and> u512_partial_cmp a b = Some (u512_cmp a b)
     \<and> u512_partial_cmp_u256 a c = Some (nat_cmp (u512_val a) (u256_val c))
     \<and> u512_partial_cmp_uint a v = Some (nat_cmp (u512_val a) (unat v))
     \<and> (u512_eq a b \<longleftrightarrow> u512_val a = u512_val b)
     \<and> (u512_eq_u256 a c \<longleftrightarrow> u512_val a = u256_val c)
     \<and> (u512_eq_uint a v \<longleftrightarrow> u512_val a = unat v)"
proof -
  have eq: "u256_eq x y \<longleftrightarrow> x = y" for x y
    by (auto simp: u256_eq_def prod_eq_iff intro: u256.expand)
  have widen: "u256_val x = u512_val (U512 (x, u256_0))" for x
    by (simp add: pair_val_def u256_zero)
  have eqs: "u512_eq a b \<longleftrightarrow> a = b" "u512_eq_u256 a c \<longleftrightarrow> a = U512 (c, u256_0)"
    "u512_eq_uint a v \<longleftrightarrow> a = U512 (u256_from_uint v, u256_0)"
    by (cases a; cases b; auto simp: u512_eq_def u512_eq_u256_def u512_eq_uint_def eq prod_eq_iff)+
  show ?thesis
    unfolding u256_val_from_uint [OF assms, symmetric] widen u512_val_eq_iff eqs
    by (simp add: u512_cmp_def u512_partial_cmp_def u512_partial_cmp_u256_def
        u512_partial_cmp_uint_def l256.cmp_pair u512_val_def)
qed

theorem u512_order_correct_witness:
  "u512_partial_cmp_uint (u512_from_u128 7) (7 :: u64) = Some Equal
   \<and> u512_eq_uint (u512_from_u128 7) (7 :: u64)"
  using u512_order_correct [where 'a = 64, of "u512_from_u128 7" "u512_from_u128 7" u256_0 7]
  by (simp add: u512_from_u128_def u256_from_u128_def pair_val_def nat_cmp_def u256_zero)

text \<open>Multiplying, dividing or taking the remainder of two \<^verbatim>\<open>u512\<close> panics for every pair of
  operands, also with a \<^verbatim>\<open>u256\<close> or \<^verbatim>\<open>u128\<close> on the right.\<close>

theorem u512_mul_div_always_panic:
  "u512_binop BMul a b = Inl (Panic IndexOutOfBounds)
   \<and> u512_binop BDiv a b = Inl (Panic ShiftOverflow)
   \<and> u512_binop BRem a b = Inl (Panic ShiftOverflow)
   \<and> u512_op_u256 BMul a c = Inl (Panic IndexOutOfBounds)
   \<and> u512_op_u256 BDiv a c = Inl (Panic ShiftOverflow)
   \<and> u512_op_u128 BRem a d = Inl (Panic ShiftOverflow)"
  by (simp add: u512_op_u256_def u512_op_u128_def u512_mul_def u512_div_def u512_rem_def
      limb_mul_stops [OF u256_mul_panics(2)] limb_div_stops [OF u512_lift_carry_panics])

end
