(* ===== verification/Floats.thy ===== *)
theory Floats
  imports Complex_Main U512
begin

text \<open>
  The conversions of \<^verbatim>\<open>u256\<close> and \<^verbatim>\<open>u512\<close> with \<^verbatim>\<open>f32\<close> and \<^verbatim>\<open>f64\<close> in \<^verbatim>\<open>src/common/large_numbers.rs\<close>.

  \<open>float\<close> is a floating point number: a rational, or one of the special values. \<^verbatim>\<open>as\<close> from a \<^verbatim>\<open>u128\<close>
  rounds to the nearest number with \<open>p\<close> significant bits, to the even one of two, and to infinity from
  \<open>2 ^ emax\<close> on; \<^verbatim>\<open>as\<close> to a \<^verbatim>\<open>u128\<close> cuts off the fraction and goes to the nearest end of the range. \<^verbatim>\<open>f32\<close>
  has 24 significant bits and \<open>emax = 128\<close>, \<^verbatim>\<open>f64\<close> has 53 and 1024.

  Small numbers survive the conversions, and nothing above the lowest limb does.
\<close>

section \<open>Floating point numbers\<close>

datatype float = NaN | PosInf | NegInf | Fin rat

fun bit_len :: "nat \<Rightarrow> nat" where
  "bit_len n = (if n = 0 then 0 else Suc (bit_len (n div 2)))"

declare bit_len.simps [simp del]

definition round_bits :: "nat \<Rightarrow> nat \<Rightarrow> nat" where
  "round_bits p n =
     (let s = bit_len n - p; q = n div 2 ^ s; r = n mod 2 ^ s
      in (if 2 ^ s < 2 * r \<or> 2 ^ s = 2 * r \<and> odd q then q + 1 else q) * 2 ^ s)"

definition float_of_u128 :: "nat \<Rightarrow> nat \<Rightarrow> u128 \<Rightarrow> float" where
  "float_of_u128 p emax v =
     (let m = round_bits p (unat v) in if m < 2 ^ emax then Fin (of_nat m) else PosInf)"

fun u128_of_float :: "float \<Rightarrow> u128" where
  "u128_of_float NaN = 0"
| "u128_of_float PosInf = - 1"
| "u128_of_float NegInf = 0"
| "u128_of_float (Fin q) = (if q < 0 then 0 else if 2 ^ 128 \<le> \<lfloor>q\<rfloor> then - 1 else of_int \<lfloor>q\<rfloor>)"

section \<open>The conversions\<close>

fun u256_to_f64 :: "u256 \<Rightarrow> float" where
  "u256_to_f64 (U256 (lo, hi)) = float_of_u128 53 1024 lo"

fun u256_to_f32 :: "u256 \<Rightarrow> float" where
  "u256_to_f32 (U256 (lo, hi)) = float_of_u128 24 128 lo"

definition u256_from_f32 :: "float \<Rightarrow> u256" where
  "u256_from_f32 value = U256 (u128_of_float value, 0)"

definition u256_from_f64 :: "float \<Rightarrow> u256" where
  "u256_from_f64 value = U256 (u128_of_float value, 0)"

fun u512_to_f64 :: "u512 \<Rightarrow> float" where
  "u512_to_f64 (U512 (lo, hi)) = u256_to_f64 lo"

fun u512_to_f32 :: "u512 \<Rightarrow> float" where
  "u512_to_f32 (U512 (lo, hi)) = u256_to_f32 lo"

definition u512_from_f32 :: "float \<Rightarrow> u512" where
  "u512_from_f32 value = U512 (u256_from_f32 value, u256_from_sint (0 :: i32))"

definition u512_from_f64 :: "float \<Rightarrow> u512" where
  "u512_from_f64 value = U512 (u256_from_f64 value, u256_from_sint (0 :: i32))"

section \<open>Lemmas\<close>

lemma bit_len_le: "n < 2 ^ p \<Longrightarrow> bit_len n \<le> p"
proof (induction p arbitrary: n)
  case 0
  then show ?case by (simp add: bit_len.simps)
next
  case (Suc p)
  then have "n div 2 < 2 ^ p" by simp
  then show ?case using Suc.IH by (subst bit_len.simps) simp
qed

lemma round_bits_small: "n < 2 ^ p \<Longrightarrow> round_bits p n = n"
  using bit_len_le [of n p] by (simp add: round_bits_def)

lemma float_of_small:
  assumes "unat v = n" "n < 2 ^ p" "p \<le> emax"
  shows "float_of_u128 p emax v = Fin (of_nat n)"
proof -
  have "n < 2 ^ emax" using assms(2) power_increasing [OF assms(3), of "2 :: nat"] by linarith
  then show ?thesis using assms by (simp add: float_of_u128_def round_bits_small Let_def)
qed

lemma u128_of_nat_float: "n < 2 ^ 128 \<Longrightarrow> u128_of_float (Fin (of_nat n)) = of_nat n"
  by simp

lemma float_roundtrip:
  assumes "unat v < 2 ^ p" "p \<le> 128" "p \<le> emax"
  shows "u128_of_float (float_of_u128 p emax v) = v"
proof -
  have "unat v < 2 ^ 128" using unat_lt_2p [of v] by simp
  then show ?thesis
    unfolding float_of_small [OF refl assms(1,3)] using u128_of_nat_float [of "unat v"]
    by (simp del: u128_of_float.simps)
qed

text \<open>A number below \<open>2 ^ 24\<close> survives the way to \<^verbatim>\<open>f32\<close> and its way from there, one below \<open>2 ^ 53\<close> that to
  \<^verbatim>\<open>f64\<close>; numbers that agree in the lowest limb become the same float.\<close>

theorem u256_float_roundtrip:
  "(u256_val a < 2 ^ 24 \<longrightarrow> u256_from_f32 (u256_to_f32 a) = a)
   \<and> (u256_val a < 2 ^ 53 \<longrightarrow> u256_from_f64 (u256_to_f64 a) = a)
   \<and> u256_to_f64 (U256 (lo, hi)) = u256_to_f64 (U256 (lo, hi'))"
proof -
  obtain l h where a: "a = U256 (l, h)" by (cases a) auto
  have small: "h = 0 \<and> unat l < 2 ^ p" if "u256_val a < 2 ^ p" "p \<le> 128" for p
  proof -
    have v: "u256_val a = unat l + 2 ^ 128 * unat h" by (simp add: a pair_val_def)
    have "(2 :: nat) ^ p \<le> 2 ^ 128" using power_increasing [OF that(2), of "2 :: nat"] by simp
    then have "2 ^ 128 * unat h < 2 ^ 128 * 1" using that(1) v by linarith
    then have "unat h = 0" by simp
    then show ?thesis using that(1) v by (simp add: word_unat_eq_iff)
  qed
  have "u256_from_f32 (u256_to_f32 a) = a" if "u256_val a < 2 ^ 24"
    using small [OF that] float_roundtrip [of l 24 128] by (simp add: a u256_from_f32_def)
  moreover have "u256_from_f64 (u256_to_f64 a) = a" if "u256_val a < 2 ^ 53"
    using small [OF that] float_roundtrip [of l 53 1024] by (simp add: a u256_from_f64_def)
  ultimately show ?thesis by simp
qed

theorem u256_float_roundtrip_witness:
  "u256_from_f32 (u256_to_f32 (U256 (16777215, 0))) = U256 (16777215, 0)
   \<and> u256_from_f64 (u256_to_f64 (U256 (9007199254740991, 0))) = U256 (9007199254740991, 0)"
  using u256_float_roundtrip [of "U256 (16777215, 0)"] u256_float_roundtrip [of "U256 (9007199254740991, 0)"]
  by (simp add: pair_val_def)

end
