(* ===== verification/Acpi_Scheme.thy ===== *)
theory Acpi_Scheme
  imports Prelude
begin

text \<open>
  The ACPI scheme, \<^verbatim>\<open>src/scheme/acpi.rs\<close>: a file-like interface with the entries \<^verbatim>\<open>""\<close>, \<^verbatim>\<open>rxsdt\<close>
  and \<^verbatim>\<open>kstop\<close>. The statics of the module are the record \<open>scheme_state\<close>; each method of
  \<^verbatim>\<open>impl Scheme\<close> is a function from the state to a system call result (\<open>Inl errno\<close> or \<open>Inr\<close>) and
  the new state. The numbers of \<^verbatim>\<open>redox_syscall\<close> (error numbers, open flags, file modes, seek
  modes) and the size of \<^verbatim>\<open>UserAcpi\<close> are the parameter \<open>sysenv\<close>; the bytes a method copies out of
  \<^verbatim>\<open>addr_of!(tables)\<close> are its argument \<open>raw\<close>.

  The step relation \<open>scheme_step\<close> has one rule per method that changes the state; handles stay
  below the counter, so descriptors are never reused, and the flag the shutdown pipe waits for
  is never set.
\<close>

section \<open>Definitions\<close>

record sysenv =
  EACCES :: i32
  EBADF :: i32
  EBADFD :: i32
  EINVAL :: i32
  EISDIR :: i32
  ENOENT :: i32
  EROFS :: i32
  O_ACCMODE :: usize
  O_CREAT :: usize
  O_DIRECTORY :: usize
  O_EXCL :: usize
  O_RDONLY :: usize
  O_STAT :: usize
  O_SYMLINK :: usize
  MODE_CHR :: u16
  MODE_DIR :: u16
  MODE_FILE :: u16
  SEEK_SET :: usize
  SEEK_CUR :: usize
  SEEK_END :: usize
  user_acpi_size :: nat

datatype handle_kind = TopLevel | RootTable | ShutdownPipe

record handle =
  h_offset :: u64
  h_kind :: handle_kind
  h_stat :: bool

record 't scheme_state =
  handles :: "u64 \<rightharpoonup> handle"
  next_fd :: u64
  acpi_data :: "'t option"
  wait_flag :: bool
  schid :: u64

record stat =
  st_mode :: u16
  st_size :: u64

type_synonym 'a sysres = "i32 + 'a"

definition SIGNATURE :: "u8 list" where
  "SIGNATURE = map (\<lambda>c. of_nat (of_char c))
     [CHR ''r'', CHR ''x'', CHR ''s'', CHR ''d'', CHR ''t'', CHR 0x0A,
      CHR ''k'', CHR ''s'', CHR ''t'', CHR ''o'', CHR ''p'', CHR 0x0A]"

definition scheme_init :: "'t scheme_state" where
  "scheme_init = \<lparr>handles = Map.empty, next_fd = 0, acpi_data = None, wait_flag = False, schid = 0\<rparr>"

definition has_flag :: "usize \<Rightarrow> usize \<Rightarrow> bool" where
  "has_flag flags f \<longleftrightarrow> flags AND f = f"

definition acpi_len :: "sysenv \<Rightarrow> 't scheme_state \<Rightarrow> u64 exec" where
  "acpi_len env st =
     (case acpi_data st of
        Some t \<Rightarrow> Inr (of_nat (user_acpi_size env))
      | None \<Rightarrow> Inl (Panic ExplicitPanic))"

text \<open>\<^verbatim>\<open>AcpiScheme::new\<close>; the second component says whether the error is logged.\<close>

definition acpi_scheme_new :: "'t option \<Rightarrow> u64 \<Rightarrow> 't scheme_state \<Rightarrow> 't scheme_state \<times> bool" where
  "acpi_scheme_new user_acpi ident st =
     (case (user_acpi, acpi_data st) of
        (Some t, None) \<Rightarrow> (st\<lparr>acpi_data := Some t, schid := ident\<rparr>, False)
      | _ \<Rightarrow> (st, True))"

text \<open>Each of the three entries has the same guard.\<close>

definition open_kind :: "sysenv \<Rightarrow> usize \<Rightarrow> string \<Rightarrow> handle_kind sysres" where
  "open_kind env flags path =
     (let not_dir = \<not> has_flag flags (O_DIRECTORY env) \<and> \<not> has_flag flags (O_STAT env)
      in if path = '''' then (if not_dir then Inl (EISDIR env) else Inr TopLevel)
         else if path = ''rxsdt'' then (if not_dir then Inl (EISDIR env) else Inr RootTable)
         else if path = ''kstop'' then (if not_dir then Inl (EISDIR env) else Inr ShutdownPipe)
         else Inl (ENOENT env))"

definition scheme_open ::
  "sysenv \<Rightarrow> string \<Rightarrow> usize \<Rightarrow> u32 \<Rightarrow> 't scheme_state \<Rightarrow> usize sysres \<times> 't scheme_state" where
  "scheme_open env path flags uid st =
     (let path = dropWhile (\<lambda>c. c = CHR ''/'') path
      in if uid \<noteq> 0 then (Inl (EACCES env), st)
         else if has_flag flags (O_CREAT env) then (Inl (EROFS env), st)
         else if has_flag flags (O_EXCL env) \<or> has_flag flags (O_SYMLINK env)
           then (Inl (EINVAL env), st)
         else if flags AND O_ACCMODE env \<noteq> O_RDONLY env \<and> \<not> has_flag flags (O_STAT env)
           then (Inl (EROFS env), st)
         else case open_kind env flags path of
             Inl e \<Rightarrow> (Inl e, st)
           | Inr kind \<Rightarrow>
               (let fd = next_fd st;
                    h = \<lparr>h_offset = 0, h_kind = kind, h_stat = has_flag flags (O_STAT env)\<rparr>
                in (Inr fd, st\<lparr>next_fd := fd + 1, handles := (handles st)(fd \<mapsto> h)\<rparr>)))"

definition scheme_fstat ::
  "sysenv \<Rightarrow> 't scheme_state \<Rightarrow> usize \<Rightarrow> stat \<Rightarrow> usize sysres \<times> stat" where
  "scheme_fstat env st ident s =
     (case handles st ident of
        None \<Rightarrow> (Inl (EBADF env), s)
      | Some h \<Rightarrow>
          (case h_kind h of
             RootTable \<Rightarrow>
               (if acpi_data st = None then (Inl (EBADFD env), s)
                else (Inr 0, s\<lparr>st_mode := MODE_FILE env, st_size := of_nat (user_acpi_size env)\<rparr>))
           | TopLevel \<Rightarrow> (Inr 0, s\<lparr>st_mode := MODE_DIR env, st_size := of_nat (length SIGNATURE)\<rparr>)
           | ShutdownPipe \<Rightarrow> (Inr 0, s\<lparr>st_mode := MODE_CHR env, st_size := 1\<rparr>)))"

definition scheme_close :: "sysenv \<Rightarrow> usize \<Rightarrow> 't scheme_state \<Rightarrow> usize sysres \<times> 't scheme_state" where
  "scheme_close env ident st =
     (let st' = st\<lparr>handles := (handles st)(ident := None)\<rparr>
      in if handles st ident = None then (Inl (EBADF env), st') else (Inr 0, st'))"

definition scheme_write :: "sysenv \<Rightarrow> usize \<Rightarrow> u8 list \<Rightarrow> usize sysres" where
  "scheme_write env ident buf = Inl (EBADF env)"

text \<open>\<^verbatim>\<open>(-pos) as u64\<close>: negating the least \<^verbatim>\<open>isize\<close> overflows.\<close>

definition isize_neg_ck :: "isize \<Rightarrow> u64 exec" where
  "isize_neg_ck pos = (if pos = 2 ^ 63 then Inl (Panic ArithOverflow) else Inr (- pos))"

definition checked_sub :: "u64 \<Rightarrow> u64 \<Rightarrow> u64 option" where
  "checked_sub a b = (if b \<le> a then Some (a - b) else None)"

definition saturating_add :: "u64 \<Rightarrow> u64 \<Rightarrow> u64" where
  "saturating_add a b = (if unat a + unat b < 2 ^ 64 then a + b else - 1)"

definition seek_offset ::
  "sysenv \<Rightarrow> u64 \<Rightarrow> u64 \<Rightarrow> isize \<Rightarrow> usize \<Rightarrow> u64 sysres exec" where
  "seek_offset env cur flen pos whence =
     (if whence = SEEK_SET env then Inr (Inr pos)
      else if whence = SEEK_CUR env then
        (if sint pos < 0 then
           rbind (isize_neg_ck pos) (\<lambda>d.
             case checked_sub cur d of None \<Rightarrow> Inr (Inl (EINVAL env)) | Some v \<Rightarrow> Inr (Inr v))
         else Inr (Inr (saturating_add cur pos)))
      else if whence = SEEK_END env then
        (if sint pos < 0 then
           rbind (isize_neg_ck pos) (\<lambda>d.
             case checked_sub flen d of None \<Rightarrow> Inr (Inl (EINVAL env)) | Some v \<Rightarrow> Inr (Inr v))
         else Inr (Inr flen))
      else Inr (Inl (EINVAL env)))"

definition handle_len :: "sysenv \<Rightarrow> 't scheme_state \<Rightarrow> handle_kind \<Rightarrow> u64 exec" where
  "handle_len env st kind =
     (case kind of
        TopLevel \<Rightarrow> Inr (of_nat (length SIGNATURE))
      | RootTable \<Rightarrow> acpi_len env st
      | ShutdownPipe \<Rightarrow> Inr 1)"

definition scheme_seek ::
  "sysenv \<Rightarrow> usize \<Rightarrow> isize \<Rightarrow> usize \<Rightarrow> 't scheme_state \<Rightarrow> (isize sysres \<times> 't scheme_state) exec" where
  "scheme_seek env ident pos whence st =
     (case handles st ident of
        None \<Rightarrow> Inr (Inl (EBADF env), st)
      | Some h \<Rightarrow>
          if h_stat h then Inr (Inl (EBADF env), st)
          else rbind (handle_len env st (h_kind h)) (\<lambda>flen.
               rbind (seek_offset env (h_offset h) flen pos whence) (\<lambda>r.
                 case r of
                   Inl e \<Rightarrow> Inr (Inl e, st)
                 | Inr off \<Rightarrow>
                     Inr (Inr off, st\<lparr>handles := (handles st)(ident \<mapsto> h\<lparr>h_offset := off\<rparr>)\<rparr>))))"

text \<open>\<^verbatim>\<open>fevent\<close> returns the empty set of events.\<close>

definition scheme_fevent :: "sysenv \<Rightarrow> 't scheme_state \<Rightarrow> usize \<Rightarrow> usize sysres" where
  "scheme_fevent env st ident =
     (case handles st ident of
        None \<Rightarrow> Inl (EBADF env)
      | Some h \<Rightarrow> if h_stat h then Inl (EBADF env) else Inr 0)"

text \<open>The copy at the end of \<^verbatim>\<open>read\<close>: \<open>min\<close> of the buffer and of what is left after the offset.\<close>

definition read_copy :: "u8 list \<Rightarrow> u64 \<Rightarrow> u8 list \<Rightarrow> nat \<times> u8 list" where
  "read_copy data offset buf =
     (let src = drop (min (unat offset) (length data)) data;
          to_cp = min (length buf) (length src)
      in (to_cp, take to_cp src @ drop to_cp buf))"

definition scheme_read ::
  "sysenv \<Rightarrow> u8 list \<Rightarrow> usize \<Rightarrow> u8 list \<Rightarrow> 't scheme_state
    \<Rightarrow> (usize sysres \<times> u8 list \<times> 't scheme_state) exec" where
  "scheme_read env raw ident buf st =
     (case handles st ident of
        None \<Rightarrow> Inr (Inl (EBADF env), buf, st)
      | Some h \<Rightarrow>
          let set_off = (\<lambda>off. st\<lparr>handles := (handles st)(ident \<mapsto> h\<lparr>h_offset := off\<rparr>)\<rparr>);
              copy = (\<lambda>data. let (n, buf') = read_copy data (h_offset h) buf
                             in rbind (add_ck (h_offset h) (of_nat n)) (\<lambda>off.
                                  Inr (Inr (of_nat n), buf', set_off off)))
          in case h_kind h of
               TopLevel \<Rightarrow> copy SIGNATURE
             | RootTable \<Rightarrow>
                 (if acpi_data st = None then Inr (Inl (EBADFD env), buf, st)
                  else copy (take (user_acpi_size env) raw))
             | ShutdownPipe \<Rightarrow>
                 (if buf = [] then Inr (Inr 0, buf, st)
                  else if h_offset h \<ge> 1 then Inr (Inr 0, buf, st)
                  else if \<not> wait_flag st then Inl Diverge
                  else Inr (Inr 1, buf[0 := 0x42], set_off 1)))"

section \<open>Sequences of calls\<close>

inductive scheme_step :: "sysenv \<Rightarrow> 't scheme_state \<Rightarrow> 't scheme_state \<Rightarrow> bool" for env where
  step_new: "acpi_scheme_new user_acpi ident st = (st', logged) \<Longrightarrow> scheme_step env st st'"
| step_open: "scheme_open env path flags uid st = (r, st') \<Longrightarrow> scheme_step env st st'"
| step_close: "scheme_close env ident st = (r, st') \<Longrightarrow> scheme_step env st st'"
| step_seek: "scheme_seek env ident pos whence st = Inr (rs, st') \<Longrightarrow> scheme_step env st st'"
| step_read: "scheme_read env raw ident buf st = Inr (r, buf', st') \<Longrightarrow> scheme_step env st st'"

inductive_cases scheme_stepE: "scheme_step env st st'"

text \<open>A client that reads with one buffer after the other and keeps the bytes it was given.\<close>

fun read_seq ::
  "sysenv \<Rightarrow> u8 list \<Rightarrow> usize \<Rightarrow> nat list \<Rightarrow> 't scheme_state \<Rightarrow> (u8 list \<times> 't scheme_state) exec" where
  "read_seq env raw ident [] st = Inr ([], st)"
| "read_seq env raw ident (n # ns) st =
     rbind (scheme_read env raw ident (replicate n 0) st) (\<lambda>(r, buf, st).
       case r of
         Inl e \<Rightarrow> Inr ([], st)
       | Inr k \<Rightarrow> rbind (read_seq env raw ident ns st) (\<lambda>(bs, st). Inr (take (unat k) buf @ bs, st)))"

text \<open>The contents of the readable entries.\<close>

definition entry_data :: "sysenv \<Rightarrow> u8 list \<Rightarrow> 't scheme_state \<Rightarrow> handle_kind \<Rightarrow> u8 list option" where
  "entry_data env raw st kind =
     (case kind of
        TopLevel \<Rightarrow> Some SIGNATURE
      | RootTable \<Rightarrow> if acpi_data st = None then None else Some (take (user_acpi_size env) raw)
      | ShutdownPipe \<Rightarrow> None)"

section \<open>Lemmas\<close>

lemma length_SIGNATURE [simp]: "length SIGNATURE = 12"
  by (simp add: SIGNATURE_def)

lemma scheme_open_cases:
  "scheme_open env path flags uid st = (r, st') \<Longrightarrow>
     (\<exists>e. r = Inl e \<and> st' = st)
     \<or> (\<exists>kind. r = Inr (next_fd st)
          \<and> st' = st\<lparr>next_fd := next_fd st + 1, handles := (handles st)(next_fd st \<mapsto>
               \<lparr>h_offset = 0, h_kind = kind, h_stat = has_flag flags (O_STAT env)\<rparr>)\<rparr>)"
  by (auto simp: scheme_open_def Let_def split: if_splits sum.splits)

lemma scheme_seek_cases:
  "scheme_seek env ident pos whence st = Inr (rs, st') \<Longrightarrow>
     st' = st \<or> (\<exists>h off. handles st ident = Some h
       \<and> st' = st\<lparr>handles := (handles st)(ident \<mapsto> h\<lparr>h_offset := off\<rparr>)\<rparr>)"
  by (auto simp: scheme_seek_def rbind_def split: option.splits if_splits sum.splits)

lemma scheme_read_cases:
  "scheme_read env raw ident buf st = Inr (r, buf', st') \<Longrightarrow>
     st' = st \<or> (\<exists>h off. handles st ident = Some h
       \<and> st' = st\<lparr>handles := (handles st)(ident \<mapsto> h\<lparr>h_offset := off\<rparr>)\<rparr>)"
  by (auto simp: scheme_read_def Let_def rbind_eq_Inr_iff
      split: option.splits if_splits handle_kind.splits prod.splits)

lemma acpi_scheme_new_cases:
  "acpi_scheme_new user_acpi ident st = (st', logged) \<Longrightarrow>
     handles st' = handles st \<and> next_fd st' = next_fd st \<and> wait_flag st' = wait_flag st"
  by (auto simp: acpi_scheme_new_def split: option.splits)

lemma scheme_close_cases:
  "scheme_close env ident st = (r, st') \<Longrightarrow> st' = st\<lparr>handles := (handles st)(ident := None)\<rparr>"
  by (auto simp: scheme_close_def Let_def split: if_splits)

lemma wait_flag_step: "scheme_step env st st' \<Longrightarrow> wait_flag st' = wait_flag st"
  by (erule scheme_stepE)
    (auto dest!: scheme_open_cases scheme_seek_cases scheme_read_cases acpi_scheme_new_cases
      scheme_close_cases)

text \<open>Open descriptors lie below the counter.\<close>

definition handles_below :: "'t scheme_state \<Rightarrow> bool" where
  "handles_below st \<longleftrightarrow> (\<forall>fd h. handles st fd = Some h \<longrightarrow> unat fd < unat (next_fd st))"

lemma handles_below_step:
  assumes "scheme_step env st st'" and "handles_below st" and "unat (next_fd st) < 2 ^ 64 - 1"
  shows "handles_below st' \<and> unat (next_fd st') \<le> unat (next_fd st) + 1"
  using assms(1)
proof (cases rule: scheme_step.cases)
  case (step_open path flags uid r)
  have succ: "unat (next_fd st + 1) = unat (next_fd st) + 1"
    using assms(3) by (simp add: unat_word_ariths)
  from scheme_open_cases [OF step_open] assms(2) succ show ?thesis
    by (auto simp: handles_below_def less_Suc_eq split: if_splits)
qed (use assms(2) in \<open>auto dest!: scheme_seek_cases scheme_read_cases acpi_scheme_new_cases
      scheme_close_cases simp: handles_below_def split: if_splits\<close>)

lemma handles_below_steps:
  assumes "(scheme_step env ^^ n) scheme_init st" and "n < 2 ^ 64"
  shows "handles_below st \<and> unat (next_fd st) \<le> n"
  using assms
proof (induction n arbitrary: st)
  case 0
  then have "st = scheme_init" by simp
  then show ?case by (simp add: handles_below_def scheme_init_def)
next
  case (Suc n)
  then obtain st1 where "(scheme_step env ^^ n) scheme_init st1" "scheme_step env st1 st" by auto
  moreover from this Suc have "handles_below st1" "unat (next_fd st1) \<le> n" by auto
  ultimately show ?case using handles_below_step [of env st1 st] Suc.prems(2) by auto
qed

lemma wait_flag_steps: "(scheme_step env ^^ n) scheme_init st \<Longrightarrow> \<not> wait_flag st"
proof (induction n arbitrary: st)
  case 0
  then have "st = scheme_init" by simp
  then show ?case by (simp add: scheme_init_def)
next
  case (Suc n)
  then obtain st1 where "(scheme_step env ^^ n) scheme_init st1" "scheme_step env st1 st" by auto
  with Suc.IH wait_flag_step show ?case by metis
qed

lemma uint_saturating_add: "uint (saturating_add a b) = min (uint a + uint b) (2 ^ 64 - 1)"
proof -
  have "int (unat a + unat b) = uint a + uint b" by simp
  moreover have "int (unat a + unat b) < int (2 ^ 64) \<longleftrightarrow> unat a + unat b < 2 ^ 64"
    by (rule of_nat_less_iff)
  ultimately have cond: "unat a + unat b < 2 ^ 64 \<longleftrightarrow> uint a + uint b < 2 ^ 64" by simp
  show ?thesis
  proof (cases "uint a + uint b < 2 ^ 64")
    case True
    then have "uint (a + b) = uint a + uint b" using uint_add_lem [of a b] by simp
    with True cond show ?thesis by (simp add: saturating_add_def)
  next
    case False
    moreover have "uint (- 1 :: u64) = 2 ^ 64 - 1"
      by (simp add: unsigned_minus_1_eq_mask mask_eq_exp_minus_1)
    ultimately show ?thesis using cond by (simp add: saturating_add_def)
  qed
qed

definition set_offset :: "usize \<Rightarrow> handle \<Rightarrow> u64 \<Rightarrow> 't scheme_state \<Rightarrow> 't scheme_state" where
  "set_offset ident h off st = st\<lparr>handles := (handles st)(ident \<mapsto> h\<lparr>h_offset := off\<rparr>)\<rparr>"

lemma scheme_read_data:
  assumes "handles st ident = Some h" and "entry_data env raw st (h_kind h) = Some data"
    and "unat (h_offset h) \<le> length data" and "length data < 2 ^ 63"
  shows "scheme_read env raw ident buf st =
    (let k = min (length buf) (length data - unat (h_offset h))
     in Inr (Inr (of_nat k), take k (drop (unat (h_offset h)) data) @ drop k buf,
             set_offset ident h (h_offset h + of_nat k) st))"
proof -
  define k where "k = min (length buf) (length data - unat (h_offset h))"
  have "unat (of_nat k :: u64) = k"
    using assms(4) by (simp add: unat_of_nat k_def)
  moreover have "unat (h_offset h) + k < 2 ^ 64" using assms(3,4) by (simp add: k_def)
  ultimately have add: "add_ck (h_offset h) (of_nat k) = Inr (h_offset h + of_nat k)"
    by (simp add: add_ck_def)
  have copy: "read_copy data (h_offset h) buf
      = (k, take k (drop (unat (h_offset h)) data) @ drop k buf)"
    using assms(3) by (simp add: read_copy_def k_def Let_def)
  show ?thesis
    unfolding Let_def k_def [symmetric]
    using assms(1,2) copy add
    by (cases "h_kind h")
      (auto simp: scheme_read_def entry_data_def Let_def set_offset_def split: if_splits)
qed

lemma read_seq_data:
  assumes "handles st ident = Some h" and "entry_data env raw st (h_kind h) = Some data"
    and "unat (h_offset h) \<le> length data" and "length data < 2 ^ 63"
  shows "\<exists>st'. read_seq env raw ident ns st
           = Inr (take (sum_list ns) (drop (unat (h_offset h)) data), st')"
  using assms
proof (induction ns arbitrary: st h)
  case Nil
  then show ?case by simp
next
  case (Cons n ns)
  let ?o = "unat (h_offset h)" and ?k = "min n (length data - unat (h_offset h))"
  let ?h = "h\<lparr>h_offset := h_offset h + of_nat ?k\<rparr>"
  let ?st = "set_offset ident h (h_offset h + of_nat ?k) st"
  have k: "unat (of_nat ?k :: u64) = ?k" using Cons.prems(4) by (simp add: unat_of_nat)
  then have off: "unat (h_offset h + of_nat ?k) = ?o + ?k"
    using Cons.prems(3,4) by (simp add: unat_word_ariths)
  have "handles ?st ident = Some ?h" by (simp add: set_offset_def)
  moreover have "entry_data env raw ?st (h_kind ?h) = Some data"
    using Cons.prems(2) by (simp add: entry_data_def set_offset_def split: handle_kind.splits if_splits)
  moreover have "unat (h_offset ?h) \<le> length data" using off Cons.prems(3) by simp
  ultimately obtain st' where "read_seq env raw ident ns ?st
      = Inr (take (sum_list ns) (drop (unat (h_offset ?h)) data), st')"
    using Cons.IH Cons.prems(4) by blast
  moreover have "take ?k (take ?k (drop ?o data) @ drop ?k (replicate n 0)) = take n (drop ?o data)"
    by (simp add: min_def)
  moreover have "drop (?o + ?k) data = drop n (drop ?o data)"
    using Cons.prems(3) by (simp add: min_def add.commute)
  ultimately show ?case
    using scheme_read_data [OF Cons.prems, of "replicate n 0"] k off
    by (simp add: Let_def take_add)
qed

lemma isize_neg_negative:
  fixes pos :: isize
  assumes "sint pos \<noteq> - (2 ^ 63)" and "sint pos < 0"
  shows "isize_neg_ck pos = Inr (- pos)" and "uint (- pos) = - sint pos"
proof -
  have pos: "2 ^ 63 < uint pos" "uint pos < 2 ^ 64" "sint pos = uint pos - 2 ^ 64"
    using assms uint_lt2p [of pos] by (simp_all add: sint_64 split: if_splits)
  then have "pos \<noteq> 2 ^ 63" by (auto simp: word_uint_eq_iff)
  then show "isize_neg_ck pos = Inr (- pos)" by (simp add: isize_neg_ck_def)
  have "uint (- pos) = (- uint pos) mod 2 ^ 64" by (simp add: uint_word_ariths)
  moreover have "(- uint pos) mod 2 ^ 64 = 2 ^ 64 - uint pos"
    using pos mod_pos_pos_trivial [of "2 ^ 64 - uint pos" "2 ^ 64"] by simp
  ultimately show "uint (- pos) = - sint pos" using pos(3) by simp
qed

lemma sint_nonneg:
  fixes pos :: isize
  assumes "\<not> sint pos < 0"
  shows "sint pos = uint pos"
  using assms uint_lt2p [of pos] by (simp add: sint_64 split: if_splits)

lemma sint_least:
  fixes pos :: isize
  assumes "sint pos = - (2 ^ 63)"
  shows "pos = 2 ^ 63 \<and> sint pos < 0"
proof -
  have "\<not> uint pos < 2 ^ 63"
  proof
    assume "uint pos < 2 ^ 63"
    then have "uint pos = - 9223372036854775808" using assms by (simp add: sint_64)
    moreover have "0 \<le> uint pos" by (rule uint_nonnegative)
    ultimately show False by linarith
  qed
  with assms show ?thesis by (simp add: sint_64 word_uint_eq_iff)
qed

lemma checked_sub_neg:
  fixes pos :: isize
  assumes "sint pos \<noteq> - (2 ^ 63)" and "sint pos < 0"
  shows "checked_sub a (- pos) = (if uint a + sint pos < 0 then None else Some (a + pos))
      \<and> (\<not> uint a + sint pos < 0 \<longrightarrow> uint (a + pos) = uint a + sint pos)"
proof -
  note n = isize_neg_negative(2) [OF assms]
  have "- pos \<le> a \<longleftrightarrow> \<not> uint a + sint pos < 0" by (auto simp: word_le_def n)
  moreover have "uint (a - (- pos)) = uint a - uint (- pos)" if "- pos \<le> a"
    using that uint_sub_lem [of "- pos" a] by (simp add: word_le_def)
  ultimately show ?thesis using n by (simp add: checked_sub_def)
qed

lemma seek_backward:
  fixes pos :: isize and env
  assumes "sint pos \<noteq> - (2 ^ 63)" and "sint pos < 0"
  defines "moved \<equiv> \<lambda>base. rbind (isize_neg_ck pos) (\<lambda>d. case checked_sub base d of
    None \<Rightarrow> Inr (Inl (EINVAL env)) | Some v \<Rightarrow> Inr (Inr v))"
  shows "if uint base + sint pos < 0 then moved base = Inr (Inl (EINVAL env))
      else \<exists>v. moved base = Inr (Inr v) \<and> uint v = uint base + sint pos"
  using isize_neg_negative [OF assms(1,2)] checked_sub_neg [OF assms(1,2), of base]
  by (simp add: moved_def)

section \<open>Properties\<close>

text \<open>Opening succeeds exactly for root, without the creating, exclusive and symlink flags, read
  only or with \<^verbatim>\<open>O_STAT\<close>, with \<^verbatim>\<open>O_DIRECTORY\<close> or \<^verbatim>\<open>O_STAT\<close>, on one of the three entries; it then
  returns the counter as a new descriptor at offset zero. A failed open changes nothing.\<close>

theorem scheme_open_correct:
  "(case scheme_open env path flags uid st of
      (Inr fd, st') \<Rightarrow> fd = next_fd st \<and> next_fd st' = fd + 1
        \<and> (\<exists>kind. handles st' = (handles st)(fd \<mapsto>
             \<lparr>h_offset = 0, h_kind = kind, h_stat = has_flag flags (O_STAT env)\<rparr>))
    | (Inl e, st') \<Rightarrow> st' = st)
   \<and> ((\<exists>fd. fst (scheme_open env path flags uid st) = Inr fd) \<longleftrightarrow>
        uid = 0 \<and> \<not> has_flag flags (O_CREAT env) \<and> \<not> has_flag flags (O_EXCL env)
        \<and> \<not> has_flag flags (O_SYMLINK env)
        \<and> (flags AND O_ACCMODE env = O_RDONLY env \<or> has_flag flags (O_STAT env))
        \<and> (has_flag flags (O_DIRECTORY env) \<or> has_flag flags (O_STAT env))
        \<and> dropWhile (\<lambda>c. c = CHR ''/'') path \<in> {'''', ''rxsdt'', ''kstop''})"
proof -
  have "(\<exists>fd. fst (scheme_open env path flags uid st) = Inr fd) \<longleftrightarrow>
      uid = 0 \<and> \<not> has_flag flags (O_CREAT env) \<and> \<not> has_flag flags (O_EXCL env)
      \<and> \<not> has_flag flags (O_SYMLINK env)
      \<and> (flags AND O_ACCMODE env = O_RDONLY env \<or> has_flag flags (O_STAT env))
      \<and> (has_flag flags (O_DIRECTORY env) \<or> has_flag flags (O_STAT env))
      \<and> dropWhile (\<lambda>c. c = CHR ''/'') path \<in> {'''', ''rxsdt'', ''kstop''}"
    by (auto simp: scheme_open_def open_kind_def Let_def)
  moreover obtain r st' where eq: "scheme_open env path flags uid st = (r, st')" by fastforce
  moreover from scheme_open_cases [OF eq]
  have "case r of Inr fd \<Rightarrow> fd = next_fd st \<and> next_fd st' = fd + 1
        \<and> (\<exists>kind. handles st' = (handles st)(fd \<mapsto>
             \<lparr>h_offset = 0, h_kind = kind, h_stat = has_flag flags (O_STAT env)\<rparr>))
    | Inl e \<Rightarrow> st' = st" by auto
  ultimately show ?thesis by (cases r) simp_all
qed

text \<open>C8. Fewer than \<open>2 ^ 64\<close> calls after start, opening a file never hands out a descriptor that is
  still open: the descriptor returned names no handle before the call.\<close>

theorem scheme_descriptors_fresh:
  assumes "(scheme_step env ^^ n) scheme_init st" and "n < 2 ^ 64"
    and "scheme_open env path flags uid st = (Inr fd, st')"
  shows "handles st fd = None"
proof -
  have "fd = next_fd st" using scheme_open_cases [OF assms(3)] by auto
  then show ?thesis
    using handles_below_steps [OF assms(1,2)] by (cases "handles st fd") (auto simp: handles_below_def)
qed

definition example_env :: sysenv where
  "example_env = \<lparr>EACCES = 13, EBADF = 9, EBADFD = 77, EINVAL = 22, EISDIR = 21, ENOENT = 2,
     EROFS = 30, O_ACCMODE = 0x30000, O_CREAT = 0x2000000, O_DIRECTORY = 0x10000000,
     O_EXCL = 0x8000000, O_RDONLY = 0x10000, O_STAT = 0x20000000, O_SYMLINK = 0x40000000,
     MODE_CHR = 0x2000, MODE_DIR = 0x4000, MODE_FILE = 0x8000,
     SEEK_SET = 0, SEEK_CUR = 1, SEEK_END = 2, user_acpi_size = 40\<rparr>"

definition opened_state :: "unit scheme_state" where
  "opened_state = snd (scheme_open example_env ''/'' 0x10010000 0 scheme_init)"

lemma opened_state_eq:
  "scheme_open example_env ''/'' 0x10010000 0 scheme_init = (Inr 0, opened_state)"
  "opened_state = \<lparr>handles = [0 \<mapsto> \<lparr>h_offset = 0, h_kind = TopLevel, h_stat = False\<rparr>], next_fd = 1,
     acpi_data = None, wait_flag = False, schid = 0\<rparr>"
  by (simp_all add: opened_state_def scheme_open_def open_kind_def has_flag_def example_env_def
      scheme_init_def)

theorem scheme_descriptors_fresh_witness: "handles opened_state 1 = None"
proof -
  have "(scheme_step example_env ^^ 1) scheme_init opened_state"
    using step_open [OF opened_state_eq(1)] by (simp add: eq_OO)
  moreover have "\<exists>st'. scheme_open example_env ''/'' 0x10010000 0 opened_state = (Inr 1, st')"
    by (simp add: opened_state_eq(2) scheme_open_def open_kind_def has_flag_def example_env_def)
  ultimately show ?thesis using scheme_descriptors_fresh [of 1 example_env opened_state] by auto
qed



text \<open>C16. What \<^verbatim>\<open>seek\<close> computes, over the integers: an absolute position is taken as it is; a relative
  one is added to the offset, saturating above and failing with \<^verbatim>\<open>EINVAL\<close> below zero; relative to
  the end only negative positions move, every other one lands on the end. The most negative
  relative position panics.\<close>

theorem seek_offset_correct:
  assumes "SEEK_SET env \<noteq> SEEK_CUR env" "SEEK_SET env \<noteq> SEEK_END env" "SEEK_CUR env \<noteq> SEEK_END env"
  shows "seek_offset env cur flen pos (SEEK_SET env) = Inr (Inr pos)
    \<and> (sint pos = - (2 ^ 63) \<longrightarrow>
         seek_offset env cur flen pos (SEEK_CUR env) = Inl (Panic ArithOverflow)
         \<and> seek_offset env cur flen pos (SEEK_END env) = Inl (Panic ArithOverflow))
    \<and> (sint pos \<noteq> - (2 ^ 63) \<longrightarrow>
         (if uint cur + sint pos < 0
          then seek_offset env cur flen pos (SEEK_CUR env) = Inr (Inl (EINVAL env))
          else \<exists>v. seek_offset env cur flen pos (SEEK_CUR env) = Inr (Inr v)
                 \<and> uint v = min (uint cur + sint pos) (2 ^ 64 - 1))
         \<and> (if uint flen + sint pos < 0
            then seek_offset env cur flen pos (SEEK_END env) = Inr (Inl (EINVAL env))
            else \<exists>v. seek_offset env cur flen pos (SEEK_END env) = Inr (Inr v)
                   \<and> uint v = uint flen + min (sint pos) 0))"
proof -
  show ?thesis
  proof (intro conjI impI)
    assume "sint pos = - (2 ^ 63)"
    note l = sint_least [OF this]
    show "seek_offset env cur flen pos (SEEK_CUR env) = Inl (Panic ArithOverflow)"
      "seek_offset env cur flen pos (SEEK_END env) = Inl (Panic ArithOverflow)"
      using l assms by (simp_all add: seek_offset_def isize_neg_ck_def)
  next
    assume ne: "sint pos \<noteq> - (2 ^ 63)"
    show "if uint cur + sint pos < 0
        then seek_offset env cur flen pos (SEEK_CUR env) = Inr (Inl (EINVAL env))
        else \<exists>v. seek_offset env cur flen pos (SEEK_CUR env) = Inr (Inr v)
               \<and> uint v = min (uint cur + sint pos) (2 ^ 64 - 1)"
    proof (cases "sint pos < 0")
      case True
      have "uint cur + sint pos \<le> 2 ^ 64 - 1" using True uint_lt2p [of cur] by simp
      with seek_backward [OF ne True, of cur env] True assms
      show ?thesis by (simp add: seek_offset_def min_def split: if_splits)
    next
      case False
      moreover have "\<not> uint cur + uint pos < 0"
        using uint_nonnegative [of cur] uint_nonnegative [of pos] by linarith
      ultimately show ?thesis using uint_saturating_add [of cur pos] sint_nonneg [of pos] assms
        by (simp add: seek_offset_def)
    qed
    show "if uint flen + sint pos < 0
        then seek_offset env cur flen pos (SEEK_END env) = Inr (Inl (EINVAL env))
        else \<exists>v. seek_offset env cur flen pos (SEEK_END env) = Inr (Inr v)
               \<and> uint v = uint flen + min (sint pos) 0"
    proof (cases "sint pos < 0")
      case True
      with seek_backward [OF ne True, of flen env] assms
      show ?thesis by (simp add: seek_offset_def min_def split: if_splits)
    next
      case False
      moreover from this have "\<not> uint flen + sint pos < 0"
        using uint_nonnegative [of flen] by linarith
      ultimately show ?thesis using assms by (simp add: seek_offset_def)
    qed
  qed (simp add: seek_offset_def)
qed

theorem seek_offset_correct_witness:
  "seek_offset example_env 5 12 (- 7) (SEEK_CUR example_env) = Inr (Inl (EINVAL example_env))
   \<and> (\<exists>v. seek_offset example_env 5 12 (- 7) (SEEK_END example_env) = Inr (Inr v) \<and> uint v = 5)"
  using seek_offset_correct [of example_env 5 12 "- 7"] by (simp add: example_env_def)

text \<open>After a descriptor is closed, reading, seeking, \<^verbatim>\<open>fstat\<close>, \<^verbatim>\<open>fevent\<close> and closing it again all
  fail with \<^verbatim>\<open>EBADF\<close>, and the other descriptors are untouched.\<close>

theorem scheme_close_correct:
  "let st' = snd (scheme_close env ident st) in
     scheme_read env raw ident buf st' = Inr (Inl (EBADF env), buf, st')
     \<and> scheme_seek env ident pos whence st' = Inr (Inl (EBADF env), st')
     \<and> scheme_fstat env st' ident s = (Inl (EBADF env), s)
     \<and> scheme_fevent env st' ident = Inl (EBADF env)
     \<and> fst (scheme_close env ident st') = Inl (EBADF env)
     \<and> (\<forall>fd. fd \<noteq> ident \<longrightarrow> handles st' fd = handles st fd)"
  by (simp add: Let_def scheme_close_def scheme_read_def scheme_seek_def scheme_fstat_def
      scheme_fevent_def)

theorem scheme_close_correct_witness:
  "handles (snd (scheme_close example_env 7 opened_state)) 0
     = Some \<lparr>h_offset = 0, h_kind = TopLevel, h_stat = False\<rparr>"
  using scheme_close_correct [of example_env 7 opened_state "[]" "[]" 0 0 undefined]
  by (simp add: Let_def opened_state_eq(2))

text \<open>The shutdown pipe never delivers: no call sets the flag its \<^verbatim>\<open>read\<close> waits for, so in every
  reachable state reading a fresh descriptor of \<^verbatim>\<open>kstop\<close> into a non-empty buffer spins forever,
  holding the lock on the handles.\<close>

theorem shutdown_pipe_never_returns:
  assumes "(scheme_step env ^^ n) scheme_init st" and "handles st ident = Some h"
    and "h_kind h = ShutdownPipe" and "h_offset h = 0" and "buf \<noteq> []"
  shows "scheme_read env raw ident buf st = Inl Diverge"
  using wait_flag_steps [OF assms(1)] assms(2-) by (simp add: scheme_read_def)

theorem shutdown_pipe_never_returns_witness:
  "scheme_read example_env [] 0 [0]
     (snd (scheme_open example_env ''kstop'' 0x10010000 0 (scheme_init :: unit scheme_state))) = Inl Diverge"
proof -
  let ?st = "snd (scheme_open example_env ''kstop'' 0x10010000 0 (scheme_init :: unit scheme_state))"
  have "(scheme_step example_env ^^ 1) scheme_init ?st"
    using step_open [OF prod.collapse [symmetric]] by (simp add: eq_OO)
  moreover have "handles ?st 0 = Some \<lparr>h_offset = 0, h_kind = ShutdownPipe, h_stat = False\<rparr>"
    by (simp add: scheme_open_def open_kind_def has_flag_def example_env_def scheme_init_def)
  ultimately show ?thesis using shutdown_pipe_never_returns [of 1 example_env ?st 0] by simp
qed

end
