(* ===== verification/Frames.thy ===== *)
theory Frames
  imports Prelude
begin

text \<open>
  The physical frame allocator, \<^verbatim>\<open>src/cralloc/frames.rs\<close>: the list of usable frames computed
  from the boot loader's memory map, and a counter into it. The \<^verbatim>\<open>x86_64\<close> crate's address
  arithmetic is a parameter (\<open>phys_ops\<close>), with its documented behaviour in \<open>phys_ops_ok\<close>:
  a physical address has 52 bits, a frame contains the addresses of its 4096 bytes, and
  subtracting below zero panics.

  On a well-formed memory map a fresh allocator hands out distinct, aligned, usable frames; but
  \<^verbatim>\<open>deallocate_frame\<close> only decrements the counter, so that freeing any frame makes the last
  frame handed out available again while it is in use.
\<close>

section \<open>Definitions\<close>

record mem_region =
  region_start :: u64
  region_end :: u64
  region_usable :: bool

record phys_ops =
  phys_frame :: "u64 \<Rightarrow> u64 exec"
  phys_sub :: "u64 \<Rightarrow> u64 \<Rightarrow> u64 exec"
  range_frames :: "u64 \<Rightarrow> u64 \<Rightarrow> u64 list"

record falloc =
  fmap :: "mem_region list"
  fnext :: nat

definition falloc_new :: "mem_region list \<Rightarrow> falloc" where
  "falloc_new regions = \<lparr>fmap = regions, fnext = 0\<rparr>"

text \<open>\<^verbatim>\<open>(r.start..r.end).step_by(4096)\<close>.\<close>

definition step_count :: "mem_region \<Rightarrow> nat" where
  "step_count r = (unat (region_end r) - unat (region_start r) + 4095) div 4096"

definition step_addrs :: "mem_region \<Rightarrow> u64 list" where
  "step_addrs r = map (\<lambda>i. region_start r + of_nat (4096 * i)) [0..<step_count r]"

definition usable_addrs :: "mem_region list \<Rightarrow> u64 list" where
  "usable_addrs regions = concat (map step_addrs (filter region_usable regions))"

text \<open>\<^verbatim>\<open>usable().nth(n)\<close>: the iterator is lazy, and builds the frames before the \<open>n\<close>-th one too.\<close>

fun nth_frame :: "phys_ops \<Rightarrow> u64 list \<Rightarrow> nat \<Rightarrow> u64 option exec" where
  "nth_frame ops [] n = Inr None"
| "nth_frame ops (a # as) 0 = rbind (phys_frame ops a) (\<lambda>f. Inr (Some f))"
| "nth_frame ops (a # as) (Suc n) = rbind (phys_frame ops a) (\<lambda>f. nth_frame ops as n)"

definition usable_nth :: "phys_ops \<Rightarrow> falloc \<Rightarrow> nat \<Rightarrow> u64 option exec" where
  "usable_nth ops fa n = nth_frame ops (usable_addrs (fmap fa)) n"

definition allocate_frame :: "phys_ops \<Rightarrow> falloc \<Rightarrow> (u64 option \<times> falloc) exec" where
  "allocate_frame ops fa =
     rbind (usable_nth ops fa (fnext fa)) (\<lambda>f.
     rbind (usize_add_ck (fnext fa) 1) (\<lambda>n.
       Inr (f, fa\<lparr>fnext := n\<rparr>)))"

definition allocate_multiple ::
  "phys_ops \<Rightarrow> falloc \<Rightarrow> nat \<Rightarrow> (((u64 \<times> u64) \<times> nat) option \<times> falloc) exec" where
  "allocate_multiple ops fa sz =
     rbind (usable_nth ops fa (fnext fa)) (\<lambda>b.
       case b of None \<Rightarrow> Inr (None, fa)
       | Some fst_frame \<Rightarrow>
           rbind (usize_add_ck (fnext fa) sz) (\<lambda>i.
           rbind (usable_nth ops fa i) (\<lambda>e.
             case e of None \<Rightarrow> Inr (None, fa)
             | Some lst_frame \<Rightarrow>
                 rbind (usize_add_ck sz 1) (\<lambda>k.
                 rbind (usize_add_ck (fnext fa) k) (\<lambda>n.
                   Inr (Some ((fst_frame, lst_frame), n), fa\<lparr>fnext := n\<rparr>))))))"

definition deallocate_frame :: "phys_ops \<Rightarrow> falloc \<Rightarrow> u64 \<Rightarrow> falloc exec" where
  "deallocate_frame ops fa frame =
     rbind (phys_sub ops frame 4096) (\<lambda>a.
     rbind (phys_frame ops a) (\<lambda>new_addr.
     rbind (nat_sub_ck (fnext fa) 1) (\<lambda>n.
     rbind (phys_frame ops new_addr) (\<lambda>_.
       Inr (fa\<lparr>fnext := n\<rparr>)))))"

definition deallocate_multiple :: "phys_ops \<Rightarrow> falloc \<Rightarrow> u64 \<times> u64 \<Rightarrow> (nat \<times> falloc) exec" where
  "deallocate_multiple ops fa frames =
     rbind (for_each (\<lambda>f fa. deallocate_frame ops fa f) (range_frames ops (fst frames) (snd frames)) fa)
       (\<lambda>fa. Inr (length (range_frames ops (fst frames) (snd frames)), fa))"

text \<open>A client that allocates \<open>n\<close> frames in a row and keeps what it was given.\<close>

fun alloc_seq :: "('s \<Rightarrow> (u64 option \<times> 's) exec) \<Rightarrow> nat \<Rightarrow> 's \<Rightarrow> (u64 option list \<times> 's) exec" where
  "alloc_seq alloc 0 s = Inr ([], s)"
| "alloc_seq alloc (Suc n) s =
     rbind (alloc s) (\<lambda>(f, s).
     rbind (alloc_seq alloc n s) (\<lambda>(fs, s). Inr (f # fs, s)))"

section \<open>Assumptions on the address arithmetic and on the memory map\<close>

definition phys_ops_ok :: "phys_ops \<Rightarrow> bool" where
  "phys_ops_ok ops \<longleftrightarrow>
     (\<forall>a. unat a < 2 ^ 52 \<longrightarrow> phys_frame ops a = Inr (page_down a))
     \<and> (\<forall>a. 2 ^ 52 \<le> unat a \<longrightarrow> phys_frame ops a = Inl (Panic ExplicitPanic))
     \<and> (\<forall>a b. phys_sub ops a b
          = (if unat b \<le> unat a then Inr (a - b) else Inl (Panic UnwrapNone)))"

definition region_ok :: "mem_region \<Rightarrow> bool" where
  "region_ok r \<longleftrightarrow> 4096 dvd unat (region_start r)
     \<and> unat (region_start r) \<le> unat (region_end r) \<and> unat (region_end r) \<le> 2 ^ 52"

definition regions_disjoint :: "mem_region \<Rightarrow> mem_region \<Rightarrow> bool" where
  "regions_disjoint r q \<longleftrightarrow>
     unat (region_end r) \<le> unat (region_start q) \<or> unat (region_end q) \<le> unat (region_start r)"

fun regions_ok :: "mem_region list \<Rightarrow> bool" where
  "regions_ok [] = True"
| "regions_ok (r # rs) \<longleftrightarrow> region_ok r \<and> list_all (regions_disjoint r) rs \<and> regions_ok rs"

definition memory_map_ok :: "mem_region list \<Rightarrow> bool" where
  "memory_map_ok regions \<longleftrightarrow> regions_ok (filter region_usable regions)
     \<and> length (usable_addrs regions) < 2 ^ 64"

definition in_usable :: "mem_region list \<Rightarrow> u64 \<Rightarrow> bool" where
  "in_usable regions a \<longleftrightarrow>
     (\<exists>r \<in> set regions. region_usable r \<and> region_start r \<le> a \<and> a < region_end r)"

section \<open>The usable frames\<close>

lemma unat_step_addr:
  assumes "region_ok r" and "i < step_count r"
  shows "unat (region_start r + of_nat (4096 * i)) = unat (region_start r) + 4096 * i"
    and "unat (region_start r) + 4096 * i < unat (region_end r)"
proof -
  show less: "unat (region_start r) + 4096 * i < unat (region_end r)"
    using assms(2) unfolding step_count_def by linarith
  with assms(1) have "unat (region_start r) + 4096 * i < 2 ^ 64"
    by (simp add: region_ok_def)
  then show "unat (region_start r + of_nat (4096 * i)) = unat (region_start r) + 4096 * i"
    by (simp add: unat_word_ariths unat_of_nat del: of_nat_mult)
qed

lemma step_addrs_props:
  assumes "region_ok r" and "a \<in> set (step_addrs r)"
  shows "4096 dvd unat a" "unat (region_start r) \<le> unat a" "unat a < unat (region_end r)"
    "unat a < 2 ^ 52"
proof -
  from assms obtain i
    where i: "i < step_count r" and a: "a = region_start r + of_nat (4096 * i)"
    by (auto simp: step_addrs_def simp del: of_nat_mult)
  note u = unat_step_addr [OF assms(1) i]
  show "4096 dvd unat a" using assms(1) unfolding a u(1) by (simp add: region_ok_def)
  show "unat (region_start r) \<le> unat a" unfolding a u(1) by simp
  show lt: "unat a < unat (region_end r)" unfolding a u(1) by (rule u(2))
  show "unat a < 2 ^ 52" using lt assms(1) by (simp add: region_ok_def)
qed

lemma distinct_step_addrs:
  assumes "region_ok r"
  shows "distinct (step_addrs r)"
proof -
  have "i = j" if "i < step_count r" "j < step_count r"
    "region_start r + of_nat (4096 * i) = region_start r + of_nat (4096 * j)" for i j
    using arg_cong [OF that(3), of unat]
    unfolding unat_step_addr(1) [OF assms that(1)] unat_step_addr(1) [OF assms that(2)] by simp
  then show ?thesis
    by (auto simp: step_addrs_def distinct_map inj_on_def simp del: of_nat_mult)
qed

lemma usable_addrs_ok:
  assumes "regions_ok rs"
  shows "distinct (concat (map step_addrs rs))
    \<and> (\<forall>a \<in> set (concat (map step_addrs rs)).
         4096 dvd unat a \<and> unat a < 2 ^ 52
         \<and> (\<exists>r \<in> set rs. unat (region_start r) \<le> unat a \<and> unat a < unat (region_end r)))"
  using assms
proof (induction rs)
  case Nil
  then show ?case by simp
next
  case (Cons r rs)
  then have r: "region_ok r" and disj: "list_all (regions_disjoint r) rs" by simp_all
  have "set (step_addrs r) \<inter> set (concat (map step_addrs rs)) = {}"
  proof (rule ccontr)
    assume "\<not> ?thesis"
    then obtain a where a: "a \<in> set (step_addrs r)" "a \<in> set (concat (map step_addrs rs))" by blast
    with Cons obtain q where "q \<in> set rs" "unat (region_start q) \<le> unat a"
      "unat a < unat (region_end q)" by auto
    moreover note step_addrs_props [OF r a(1)]
    ultimately show False using disj by (auto simp: list_all_iff regions_disjoint_def)
  qed
  then show ?case using Cons r distinct_step_addrs [OF r] step_addrs_props [OF r]
    by auto
qed

section \<open>The allocator as a source of frames\<close>

text \<open>What a client relies on: the frames still to come are fixed, distinct, and handed out one
  by one.\<close>

locale frame_source =
  fixes alloc :: "'s \<Rightarrow> (u64 option \<times> 's) exec"
    and remaining :: "'s \<Rightarrow> u64 list"
    and inv :: "'s \<Rightarrow> bool"
  assumes alloc_Some: "inv s \<Longrightarrow> remaining s = f # fs
      \<Longrightarrow> \<exists>s'. alloc s = Inr (Some f, s') \<and> inv s' \<and> remaining s' = fs"
    and remaining_distinct: "inv s \<Longrightarrow> distinct (remaining s)"
begin

lemma alloc_seq_run:
  assumes "inv s" and "n \<le> length (remaining s)"
  shows "\<exists>s'. alloc_seq alloc n s = Inr (map Some (take n (remaining s)), s')
           \<and> inv s' \<and> remaining s' = drop n (remaining s)"
  using assms
proof (induction n arbitrary: s)
  case 0
  then show ?case by simp
next
  case (Suc n)
  then obtain f fs where rem: "remaining s = f # fs" by (cases "remaining s") auto
  with Suc.prems alloc_Some obtain s1
    where s1: "alloc s = Inr (Some f, s1)" "inv s1" "remaining s1 = fs" by blast
  with Suc rem obtain s2 where "alloc_seq alloc n s1 = Inr (map Some (take n fs), s2)"
    "inv s2" "remaining s2 = drop n fs" by (metis Suc_le_mono length_Cons)
  with s1 rem show ?case by simp
qed

lemma alloc_seq_distinct:
  assumes "inv s" and "n \<le> length (remaining s)"
  obtains fs s' where "alloc_seq alloc n s = Inr (map Some fs, s')" "length fs = n"
    "distinct fs" "set fs \<subseteq> set (remaining s)" "inv s'" "remaining s' = drop n (remaining s)"
  using alloc_seq_run [OF assms] remaining_distinct [OF assms(1)] assms(2)
  by (metis distinct_take length_take min.absorb2 set_take_subset)

end

text \<open>A source of frames is a source of names: the frames still to come.\<close>

sublocale frame_source \<subseteq> names: name_source "\<lambda>_ s. rbind (alloc s) (\<lambda>(_, s). Inr s)"
  "\<lambda>s. set (remaining s)" inv
proof unfold_locales
  fix s i
  assume "inv s" "set (remaining s) \<noteq> {}"
  then obtain f fs where rem: "remaining s = f # fs" by (cases "remaining s") auto
  with alloc_Some [OF \<open>inv s\<close>] obtain s' where "alloc s = Inr (Some f, s')" "inv s'" "remaining s' = fs"
    by blast
  moreover have "f \<notin> set fs" using remaining_distinct [OF \<open>inv s\<close>] rem by simp
  ultimately show "\<exists>n s'. rbind (alloc s) (\<lambda>(_, s). Inr s) = Inr s' \<and> n \<in> set (remaining s)
      \<and> set (remaining s') = set (remaining s) - {n} \<and> inv s'"
    using rem by (intro exI [of _ f] exI [of _ s']) (simp add: rbind_def)
qed simp

definition falloc_inv :: "phys_ops \<Rightarrow> falloc \<Rightarrow> bool" where
  "falloc_inv ops fa \<longleftrightarrow> phys_ops_ok ops \<and> memory_map_ok (fmap fa)"

definition falloc_remaining :: "falloc \<Rightarrow> u64 list" where
  "falloc_remaining fa = drop (fnext fa) (usable_addrs (fmap fa))"

lemma memory_map_addrs:
  assumes "memory_map_ok regions"
  shows "distinct (usable_addrs regions)"
    and "a \<in> set (usable_addrs regions) \<Longrightarrow> 4096 dvd unat a \<and> unat a < 2 ^ 52 \<and> in_usable regions a"
  using usable_addrs_ok [of "filter region_usable regions"] assms
  by (auto simp: memory_map_ok_def usable_addrs_def in_usable_def word_le_nat_alt word_less_nat_alt)

lemma nth_frame_aligned:
  assumes "phys_ops_ok ops" and "\<forall>a \<in> set as. 4096 dvd unat a \<and> unat a < 2 ^ 52"
  shows "nth_frame ops as n = Inr (if n < length as then Some (as ! n) else None)"
  using assms(2)
proof (induction as arbitrary: n)
  case (Cons a as)
  then have "phys_frame ops a = Inr a"
    using assms(1) by (simp add: phys_ops_ok_def page_down_aligned)
  with Cons show ?case by (cases n) auto
qed simp

lemma usable_nth_eq:
  assumes "falloc_inv ops fa"
  shows "usable_nth ops fa n = Inr (if n < length (usable_addrs (fmap fa))
           then Some (usable_addrs (fmap fa) ! n) else None)"
  unfolding usable_nth_def
  by (rule nth_frame_aligned) (use assms memory_map_addrs(2) in \<open>auto simp: falloc_inv_def\<close>)

lemma allocate_frame_eq:
  assumes "falloc_inv ops fa" and "fnext fa < length (usable_addrs (fmap fa))"
  shows "allocate_frame ops fa
    = Inr (Some (usable_addrs (fmap fa) ! fnext fa), fa\<lparr>fnext := fnext fa + 1\<rparr>)"
  using assms
  by (simp add: allocate_frame_def usable_nth_eq usize_add_ck_def falloc_inv_def memory_map_ok_def)

interpretation frames: frame_source "allocate_frame ops" falloc_remaining "falloc_inv ops" for ops
proof unfold_locales
  fix s f fs
  assume inv: "falloc_inv ops s" and rem: "falloc_remaining s = f # fs"
  then have lt: "fnext s < length (usable_addrs (fmap s))"
    by (metis drop_all falloc_remaining_def list.distinct(1) not_less)
  with rem have "f = usable_addrs (fmap s) ! fnext s" "fs = drop (fnext s + 1) (usable_addrs (fmap s))"
    by (auto simp: falloc_remaining_def Cons_nth_drop_Suc [symmetric])
  then show "\<exists>s'. allocate_frame ops s = Inr (Some f, s') \<and> falloc_inv ops s'
      \<and> falloc_remaining s' = fs"
    using inv lt by (simp add: allocate_frame_eq falloc_inv_def falloc_remaining_def)
next
  fix s
  assume "falloc_inv ops s"
  then show "distinct (falloc_remaining s)"
    by (simp add: falloc_inv_def falloc_remaining_def memory_map_addrs(1) distinct_drop)
qed

lemma alloc_seq_state:
  assumes "falloc_inv ops fa" and "fnext fa + n \<le> length (usable_addrs (fmap fa))"
  shows "alloc_seq (allocate_frame ops) n fa
    = Inr (map Some (take n (falloc_remaining fa)), fa\<lparr>fnext := fnext fa + n\<rparr>)"
  using assms
proof (induction n arbitrary: fa)
  case 0
  then show ?case by simp
next
  case (Suc n)
  let ?fa = "fa\<lparr>fnext := fnext fa + 1\<rparr>"
  have "falloc_inv ops ?fa" using Suc.prems(1) by (simp add: falloc_inv_def)
  with Suc have "alloc_seq (allocate_frame ops) n ?fa
      = Inr (map Some (take n (falloc_remaining ?fa)), fa\<lparr>fnext := fnext fa + Suc n\<rparr>)"
    by simp
  moreover have "falloc_remaining fa = usable_addrs (fmap fa) ! fnext fa # falloc_remaining ?fa"
    using Suc.prems(2) by (simp add: falloc_remaining_def Cons_nth_drop_Suc)
  ultimately show ?case using Suc.prems by (simp add: allocate_frame_eq)
qed

definition ref_phys_ops :: phys_ops where
  "ref_phys_ops = \<lparr>phys_frame = (\<lambda>a. if unat a < 2 ^ 52 then Inr (page_down a)
                                   else Inl (Panic ExplicitPanic)),
     phys_sub = (\<lambda>a b. if unat b \<le> unat a then Inr (a - b) else Inl (Panic UnwrapNone)),
     range_frames = (\<lambda>b e. if e < b then []
       else map (\<lambda>i. b + of_nat (4096 * i)) [0..<(unat e - unat b) div 4096 + 1])\<rparr>"

lemma ref_phys_ops_ok: "phys_ops_ok ref_phys_ops"
  by (simp add: phys_ops_ok_def ref_phys_ops_def)

definition example_map :: "mem_region list" where
  "example_map = [\<lparr>region_start = 0x1000, region_end = 0x4000, region_usable = True\<rparr>,
     \<lparr>region_start = 0x4000, region_end = 0x9000, region_usable = False\<rparr>,
     \<lparr>region_start = 0x9000, region_end = 0xB000, region_usable = True\<rparr>]"

lemma example_map_addrs: "usable_addrs example_map = [0x1000, 0x2000, 0x3000, 0x9000, 0xA000]"
  by (simp add: usable_addrs_def example_map_def step_addrs_def step_count_def upt_rec)

lemma example_map_ok: "memory_map_ok example_map"
  unfolding memory_map_ok_def example_map_addrs
  by (simp add: example_map_def region_ok_def regions_disjoint_def)

section \<open>Properties\<close>

text \<open>C6. On a well-formed memory map, a fresh allocator asked for as many frames as there are
  never panics and hands out distinct frames, each aligned and inside a usable region.\<close>

theorem frames_distinct_and_usable:
  assumes "phys_ops_ok ops" and "memory_map_ok regions" and "n \<le> length (usable_addrs regions)"
  shows "\<exists>fs fa. alloc_seq (allocate_frame ops) n (falloc_new regions) = Inr (map Some fs, fa)
           \<and> length fs = n \<and> distinct fs
           \<and> (\<forall>f \<in> set fs. 4096 dvd unat f \<and> in_usable regions f)"
proof -
  have inv: "falloc_inv ops (falloc_new regions)"
    using assms by (simp add: falloc_inv_def falloc_new_def)
  have rem: "falloc_remaining (falloc_new regions) = usable_addrs regions"
    by (simp add: falloc_remaining_def falloc_new_def)
  from inv assms(3) rem obtain fs fa
    where "alloc_seq (allocate_frame ops) n (falloc_new regions) = Inr (map Some fs, fa)"
      "length fs = n" "distinct fs" "set fs \<subseteq> set (usable_addrs regions)"
    by (metis frames.alloc_seq_distinct)
  then show ?thesis using memory_map_addrs(2) [OF assms(2)] by blast
qed

theorem frames_distinct_and_usable_witness:
  "\<exists>fs fa. alloc_seq (allocate_frame ref_phys_ops) 4 (falloc_new example_map) = Inr (map Some fs, fa)
     \<and> length fs = 4 \<and> distinct fs
     \<and> (\<forall>f \<in> set fs. 4096 dvd unat f \<and> in_usable example_map f)"
  by (rule frames_distinct_and_usable [OF ref_phys_ops_ok example_map_ok])
    (simp add: example_map_addrs)

text \<open>\<^verbatim>\<open>deallocate_frame\<close> ignores which frame it is given: after \<open>n > 0\<close> allocations, freeing
  any frame above the first makes the next allocation return the most recently allocated
  frame. If that is not the freed one, it now has two owners.\<close>

theorem frame_double_allocation:
  assumes "phys_ops_ok ops" and "memory_map_ok regions"
    and "0 < n" and "n \<le> length (usable_addrs regions)"
    and "f \<in> set (take n (usable_addrs regions))" and "4096 \<le> unat f"
  shows "\<exists>fs fa. alloc_seq (allocate_frame ops) n (falloc_new regions) = Inr (map Some fs, fa)
           \<and> f \<in> set fs
           \<and> rbind (deallocate_frame ops fa f) (allocate_frame ops) = Inr (Some (last fs), fa)"
proof -
  let ?us = "usable_addrs regions" and ?fa = "(falloc_new regions)\<lparr>fnext := n\<rparr>"
  have inv: "falloc_inv ops (falloc_new regions)"
    using assms by (simp add: falloc_inv_def falloc_new_def)
  have run: "alloc_seq (allocate_frame ops) n (falloc_new regions) = Inr (map Some (take n ?us), ?fa)"
    using alloc_seq_state [OF inv, of n] assms(4) by (simp add: falloc_remaining_def falloc_new_def)
  have f: "unat f < 2 ^ 52"
    using memory_map_addrs(2) [OF assms(2)] assms(5) by (meson in_set_takeD)
  have "4096 \<le> f" using assms(6) by (simp add: word_le_nat_alt)
  then have sub: "unat (f - 4096) < 2 ^ 52" using f by (simp add: unat_sub)
  then have down: "unat (page_down (f - 4096)) < 2 ^ 52" by (simp add: unat_page_down)
  have "deallocate_frame ops ?fa f = Inr ((falloc_new regions)\<lparr>fnext := n - 1\<rparr>)"
    using assms(1,3,6) sub down
    by (simp add: deallocate_frame_def phys_ops_ok_def nat_sub_ck_def falloc_new_def)
  moreover have "allocate_frame ops ((falloc_new regions)\<lparr>fnext := n - 1\<rparr>)
      = Inr (Some (?us ! (n - 1)), ?fa)"
    using allocate_frame_eq [of ops "(falloc_new regions)\<lparr>fnext := n - 1\<rparr>"] inv assms(3,4)
    by (simp add: falloc_inv_def falloc_new_def)
  moreover have "last (take n ?us) = ?us ! (n - 1)"
    using assms(3,4) by (subst last_conv_nth) auto
  ultimately show ?thesis using run assms(5) by (intro exI [of _ "take n ?us"] exI [of _ ?fa]) simp
qed

theorem frame_double_allocation_witness:
  "\<exists>fs fa. alloc_seq (allocate_frame ref_phys_ops) 2 (falloc_new example_map) = Inr (map Some fs, fa)
     \<and> 0x1000 \<in> set fs
     \<and> rbind (deallocate_frame ref_phys_ops fa 0x1000) (allocate_frame ref_phys_ops)
         = Inr (Some (last fs), fa)"
  by (rule frame_double_allocation [OF ref_phys_ops_ok example_map_ok])
    (simp_all add: example_map_addrs)

text \<open>\<^verbatim>\<open>allocate_multiple(size)\<close> reserves \<open>size + 1\<close> frames, returns the first and the last of
  them as an inclusive range, and returns the new counter beside it; it fails without change
  when fewer are left.\<close>

theorem allocate_multiple_reserves:
  assumes "phys_ops_ok ops" and "memory_map_ok regions" and "i + sz < 2 ^ 64 - 1"
  shows "allocate_multiple ops \<lparr>fmap = regions, fnext = i\<rparr> sz =
    (if i + sz < length (usable_addrs regions)
     then Inr (Some ((usable_addrs regions ! i, usable_addrs regions ! (i + sz)), i + sz + 1),
            \<lparr>fmap = regions, fnext = i + sz + 1\<rparr>)
     else Inr (None, \<lparr>fmap = regions, fnext = i\<rparr>))"
  using assms
  by (simp add: allocate_multiple_def usable_nth_eq falloc_inv_def usize_add_ck_def)

theorem allocate_multiple_reserves_witness:
  "allocate_multiple ref_phys_ops \<lparr>fmap = example_map, fnext = 1\<rparr> 2
     = Inr (Some ((0x2000, 0x9000), 4), \<lparr>fmap = example_map, fnext = 4\<rparr>)"
  using allocate_multiple_reserves [OF ref_phys_ops_ok example_map_ok, of 1 2]
  by (simp add: example_map_addrs)

end
