(* ===== verification/Paging.thy ===== *)
theory Paging
  imports Frames
begin

text \<open>
  Mapping of pages: the macros \<^verbatim>\<open>map_page!\<close> and \<^verbatim>\<open>unmap_page!\<close> of \<^verbatim>\<open>src/common/macros.rs\<close>, the heap
  set-up of \<^verbatim>\<open>src/cralloc/mod.rs\<close>, and \<^verbatim>\<open>addralloc\<close> and the \<^verbatim>\<open>XhciMapper\<close> of
  \<^verbatim>\<open>src/common/mod.rs\<close>. The page tables themselves belong to the \<^verbatim>\<open>x86_64\<close> crate: their state is the
  type variable \<open>'m\<close>, and \<open>map_to\<close>, \<open>unmap\<close>, \<^verbatim>\<open>VirtAddr::new\<close>, \<^verbatim>\<open>Page::containing_address\<close> and \<^verbatim>\<open>Page::range_inclusive\<close> are the
  fields of \<open>page_ops\<close>; \<open>page_ops_ok\<close> states their documented behaviour in terms of the
  translation a page table denotes. \<open>kmem\<close> is the pair of statics \<^verbatim>\<open>MAPPER\<close> and
  \<^verbatim>\<open>FRAME_ALLOCATOR\<close>, empty until the heap is set up; each macro takes the locks of both for one
  call.
\<close>

section \<open>Definitions\<close>

datatype map_error = FrameAllocationFailed | ParentEntryHugePage | PageAlreadyMapped u64

datatype unmap_error = UnmapHugePage | PageNotMapped | InvalidFrameAddress u64

record 'm page_ops =
  pphys :: phys_ops
  virt_new :: "u64 \<Rightarrow> u64 exec"
  page_of :: "u64 \<Rightarrow> u64"
  page_range :: "u64 \<Rightarrow> u64 \<Rightarrow> u64 list"
  map_to :: "'m \<Rightarrow> falloc \<Rightarrow> u64 \<Rightarrow> u64 \<Rightarrow> u64 \<Rightarrow> map_error option \<times> 'm \<times> falloc"
  unmap :: "'m \<Rightarrow> u64 \<Rightarrow> unmap_error option \<times> 'm"

record 'm kmem =
  kmapper :: "'m option"
  kfalloc :: "falloc option"

text \<open>The flags of \<^verbatim>\<open>PageTableFlags\<close> the kernel combines are bits of the page table entry.\<close>

record page_flags =
  pf_present :: u64
  pf_writable :: u64
  pf_no_cache :: u64
  pf_write_through :: u64

definition default_flags :: "page_flags \<Rightarrow> u64" where
  "default_flags pf = pf_present pf OR pf_writable pf OR pf_no_cache pf OR pf_write_through pf"

definition map_page :: "'m page_ops \<Rightarrow> u64 \<Rightarrow> u64 \<Rightarrow> u64 \<Rightarrow> 'm kmem \<Rightarrow> 'm kmem exec" where
  "map_page ops phys virt flags km =
     rbind (phys_frame (pphys ops) phys) (\<lambda>frame.
     rbind (virt_new ops virt) (\<lambda>v.
     rbind (unwrap (kmapper km)) (\<lambda>mp.
     rbind (unwrap (kfalloc km)) (\<lambda>fa.
       case map_to ops mp fa (page_of ops v) frame flags of
         (Some FrameAllocationFailed, mp', fa') \<Rightarrow> Inl (Panic ExplicitPanic)
       | (_, mp', fa') \<Rightarrow> Inr (km\<lparr>kmapper := Some mp', kfalloc := Some fa'\<rparr>)))))"

definition unmap_page :: "'m page_ops \<Rightarrow> u64 \<Rightarrow> 'm kmem \<Rightarrow> 'm kmem exec" where
  "unmap_page ops page km =
     rbind (unwrap (kmapper km)) (\<lambda>mp.
       case unmap ops mp page of
         (Some (InvalidFrameAddress a), mp') \<Rightarrow> Inl (Panic ExplicitPanic)
       | (_, mp') \<Rightarrow> Inr (km\<lparr>kmapper := Some mp'\<rparr>))"

definition BEGIN_HEAP :: u64 where
  "BEGIN_HEAP = 0x200000000000"

definition HEAP_LEN :: u64 where
  "HEAP_LEN = 32 * 1024 * 1024"

text \<open>The loop over the heap's pages; an error leaves it through \<^verbatim>\<open>?\<close>.\<close>

fun heap_map_loop ::
  "'m page_ops \<Rightarrow> u64 \<Rightarrow> u64 list \<Rightarrow> 'm \<times> falloc \<Rightarrow> (map_error option \<times> 'm \<times> falloc) exec" where
  "heap_map_loop ops flags [] st = Inr (None, st)"
| "heap_map_loop ops flags (p # ps) st =
     rbind (allocate_frame (pphys ops) (snd st)) (\<lambda>(f, fa).
       case f of
         None \<Rightarrow> Inr (Some FrameAllocationFailed, fst st, fa)
       | Some f \<Rightarrow>
           (case map_to ops (fst st) fa p f flags of
              (Some e, st') \<Rightarrow> Inr (Some e, st')
            | (None, st') \<Rightarrow> heap_map_loop ops flags ps st'))"

definition heap_init_inner ::
  "'m page_ops \<Rightarrow> page_flags \<Rightarrow> 'm \<times> falloc \<Rightarrow> (map_error option \<times> 'm \<times> falloc) exec" where
  "heap_init_inner ops pf st =
     rbind (virt_new ops BEGIN_HEAP) (\<lambda>b.
     rbind (virt_new ops (b + HEAP_LEN - 1)) (\<lambda>e.
       heap_map_loop ops (default_flags pf) (page_range ops (page_of ops b) (page_of ops e)) st))"

text \<open>\<^verbatim>\<open>heap_init\<close>: the statics are filled once (\<^verbatim>\<open>get_or_init\<close>), then the heap is mapped; \<open>mp0\<close> is
  the page table \<^verbatim>\<open>map_memory\<close> finds in \<^verbatim>\<open>CR3\<close>.\<close>

definition heap_init ::
  "'m page_ops \<Rightarrow> page_flags \<Rightarrow> 'm \<Rightarrow> mem_region list \<Rightarrow> 'm kmem \<Rightarrow> 'm kmem exec" where
  "heap_init ops pf mp0 regions km =
     (let mp = case_option mp0 id (kmapper km);
          fa = case_option (falloc_new regions) id (kfalloc km)
      in rbind (heap_init_inner ops pf (mp, fa)) (\<lambda>(err, mp', fa').
           case err of
             None \<Rightarrow> Inr (km\<lparr>kmapper := Some mp', kfalloc := Some fa'\<rparr>)
           | Some e \<Rightarrow> Inl (Panic ExplicitPanic)))"

text \<open>\<^verbatim>\<open>addralloc::<T>()\<close> with \<open>tsize\<close> the size of \<^verbatim>\<open>T\<close>: one frame per page, mapped at the offset of
  physical memory; the address of the first page is returned.\<close>

definition alloc_and_map :: "'m page_ops \<Rightarrow> page_flags \<Rightarrow> u64 \<Rightarrow> 'm kmem \<Rightarrow> (u64 \<times> 'm kmem) exec" where
  "alloc_and_map ops pf offset km =
     rbind (expect (kfalloc km)) (\<lambda>fa.
     rbind (allocate_frame (pphys ops) fa) (\<lambda>(f, fa').
     rbind (expect f) (\<lambda>frame.
     rbind (add_ck frame offset) (\<lambda>v.
     rbind (virt_new ops v) (\<lambda>v.
     rbind (map_page ops frame (page_of ops v) (default_flags pf) (km\<lparr>kfalloc := Some fa'\<rparr>)) (\<lambda>km.
       Inr (page_of ops v, km)))))))"

function addralloc_loop ::
  "'m page_ops \<Rightarrow> page_flags \<Rightarrow> u64 \<Rightarrow> nat \<Rightarrow> nat \<Rightarrow> 'm kmem \<Rightarrow> 'm kmem exec" where
  "addralloc_loop ops pf offset tsize i km =
     (if i < tsize then
        rbind (alloc_and_map ops pf offset km) (\<lambda>(_, km).
        rbind (usize_add_ck i 4096) (\<lambda>_. addralloc_loop ops pf offset tsize (i + 4096) km))
      else Inr km)"
  by pat_completeness auto
termination by (relation "measure (\<lambda>(ops, pf, offset, tsize, i, km). tsize - i)") auto

definition addralloc :: "'m page_ops \<Rightarrow> page_flags \<Rightarrow> u64 \<Rightarrow> nat \<Rightarrow> 'm kmem \<Rightarrow> (u64 \<times> 'm kmem) exec" where
  "addralloc ops pf offset tsize km =
     rbind (alloc_and_map ops pf offset km) (\<lambda>(page, km).
     rbind (addralloc_loop ops pf offset tsize 4096 km) (\<lambda>km. Inr (page, km)))"

text \<open>\<^verbatim>\<open>XhciMapper\<close>: an identity mapping of \<open>bytes\<close> bytes, page by page.\<close>

function xhci_map_loop ::
  "'m page_ops \<Rightarrow> page_flags \<Rightarrow> nat \<Rightarrow> nat \<Rightarrow> nat \<Rightarrow> 'm kmem \<Rightarrow> 'm kmem exec" where
  "xhci_map_loop ops pf start bytes i km =
     (if i < bytes then
        rbind (usize_add_ck start i) (\<lambda>phys.
        rbind (virt_new ops (of_nat phys)) (\<lambda>v.
        rbind (map_page ops (of_nat phys) (page_of ops v) (default_flags pf) km) (\<lambda>km.
        rbind (usize_add_ck i 4096) (\<lambda>_. xhci_map_loop ops pf start bytes (i + 4096) km))))
      else Inr km)"
  by pat_completeness auto
termination by (relation "measure (\<lambda>(ops, pf, start, bytes, i, km). bytes - i)") auto

definition xhci_map ::
  "'m page_ops \<Rightarrow> page_flags \<Rightarrow> nat \<Rightarrow> nat \<Rightarrow> 'm kmem \<Rightarrow> (nat \<times> 'm kmem) exec" where
  "xhci_map ops pf start bytes km =
     rbind (virt_new ops (of_nat start)) (\<lambda>v.
     rbind (map_page ops (of_nat start) (page_of ops v) (default_flags pf) km) (\<lambda>km.
     rbind (xhci_map_loop ops pf start bytes 4096 km) (\<lambda>km.
       if start = 0 then Inl (Panic UnwrapNone) else Inr (start, km))))"

function xhci_unmap_loop :: "'m page_ops \<Rightarrow> nat \<Rightarrow> nat \<Rightarrow> nat \<Rightarrow> 'm kmem \<Rightarrow> 'm kmem exec" where
  "xhci_unmap_loop ops start bytes i km =
     (if i < bytes then
        rbind (usize_add_ck start i) (\<lambda>virt.
        rbind (virt_new ops (of_nat virt)) (\<lambda>v.
        rbind (unmap_page ops (page_of ops v) km) (\<lambda>km.
        rbind (usize_add_ck i 4096) (\<lambda>_. xhci_unmap_loop ops start bytes (i + 4096) km))))
      else Inr km)"
  by pat_completeness auto
termination by (relation "measure (\<lambda>(ops, start, bytes, i, km). bytes - i)") auto

definition xhci_unmap :: "'m page_ops \<Rightarrow> nat \<Rightarrow> nat \<Rightarrow> 'm kmem \<Rightarrow> 'm kmem exec" where
  "xhci_unmap ops start bytes km =
     (if bytes > 4096 then xhci_unmap_loop ops start bytes 4096 km
      else rbind (virt_new ops (of_nat start)) (\<lambda>v. unmap_page ops (page_of ops v) km))"

declare addralloc_loop.simps [simp del] xhci_map_loop.simps [simp del] xhci_unmap_loop.simps [simp del]

section \<open>Assumptions on the page tables\<close>

text \<open>\<open>tr\<close> is the translation of pages a page table denotes. An address below \<open>2 ^ 47\<close> is
  canonical; an unmapped page is mapped as long as three frames are left for the tables
  above it; unmapping removes the page.\<close>

definition page_ops_ok :: "'m page_ops \<Rightarrow> ('m \<Rightarrow> u64 \<rightharpoonup> u64) \<Rightarrow> bool" where
  "page_ops_ok ops tr \<longleftrightarrow> phys_ops_ok (pphys ops)
     \<and> (\<forall>a. unat a < 2 ^ 47 \<longrightarrow> virt_new ops a = Inr a)
     \<and> (\<forall>a. page_of ops a = page_down a)
     \<and> (\<forall>b n. unat b + 4096 * n < 2 ^ 64 \<longrightarrow>
          page_range ops b (b + of_nat (4096 * n)) = map (\<lambda>i. b + of_nat (4096 * i)) [0..<n + 1])
     \<and> (\<forall>mp fa p f fl. tr mp p = None \<and> fnext fa + 3 \<le> length (usable_addrs (fmap fa)) \<longrightarrow>
          (\<exists>mp' fa'. map_to ops mp fa p f fl = (None, mp', fa') \<and> tr mp' = (tr mp)(p \<mapsto> f)
             \<and> fmap fa' = fmap fa \<and> fnext fa \<le> fnext fa' \<and> fnext fa' \<le> fnext fa + 3))
     \<and> (\<forall>mp p. tr mp p \<noteq> None \<longrightarrow>
          (\<exists>mp'. unmap ops mp p = (None, mp') \<and> tr mp' = (tr mp)(p := None)))
     \<and> (\<forall>mp p. tr mp p = None \<longrightarrow>
          (\<exists>mp'. unmap ops mp p = (Some PageNotMapped, mp') \<and> tr mp' = tr mp))"

lemma page_ops_okD:
  assumes "page_ops_ok ops tr"
  shows "phys_ops_ok (pphys ops)" "unat a < 2 ^ 47 \<Longrightarrow> virt_new ops a = Inr a"
    "page_of ops a = page_down a"
    "unat b + 4096 * n < 2 ^ 64 \<Longrightarrow>
       page_range ops b (b + of_nat (4096 * n)) = map (\<lambda>i. b + of_nat (4096 * i)) [0..<n + 1]"
  using assms unfolding page_ops_ok_def by blast+

lemma map_to_ok:
  assumes "page_ops_ok ops tr" "tr mp p = None" "fnext fa + 3 \<le> length (usable_addrs (fmap fa))"
  obtains mp' fa' where "map_to ops mp fa p f fl = (None, mp', fa')" "tr mp' = (tr mp)(p \<mapsto> f)"
    "fmap fa' = fmap fa" "fnext fa \<le> fnext fa'" "fnext fa' \<le> fnext fa + 3"
  using assms unfolding page_ops_ok_def by blast

lemma unmap_ok:
  assumes "page_ops_ok ops tr"
  obtains r mp' where "unmap ops mp p = (r, mp')" "tr mp' = (tr mp)(p := None)"
    "\<And>a. r \<noteq> Some (InvalidFrameAddress a)"
proof (cases "tr mp p = None")
  case True
  with assms obtain mp' where "unmap ops mp p = (Some PageNotMapped, mp')" "tr mp' = tr mp"
    unfolding page_ops_ok_def by blast
  with True show thesis by (intro that [of "Some PageNotMapped" mp']) (auto simp: fun_upd_idem)
next
  case False
  with assms obtain mp' where "unmap ops mp p = (None, mp')" "tr mp' = (tr mp)(p := None)"
    unfolding page_ops_ok_def by blast
  then show thesis by (intro that) auto
qed

lemma unmap_page_ok:
  assumes "page_ops_ok ops tr" and "kmapper km = Some mp"
  obtains mp' where "unmap_page ops p km = Inr (km\<lparr>kmapper := Some mp'\<rparr>)"
    "tr mp' = (tr mp)(p := None)"
proof -
  obtain r mp' where u: "unmap ops mp p = (r, mp')" "tr mp' = (tr mp)(p := None)"
    and r: "\<And>a. r \<noteq> Some (InvalidFrameAddress a)" by (rule unmap_ok [OF assms(1), of mp p]) blast
  have "unmap_page ops p km = Inr (km\<lparr>kmapper := Some mp'\<rparr>)"
    using assms(2) u(1) r by (auto simp: unmap_page_def split: option.split unmap_error.split)
  with u(2) show thesis by (rule that [rotated])
qed

section \<open>The heap\<close>

lemma heap_map_loop_ok:
  assumes "page_ops_ok ops tr" and "falloc_inv (pphys ops) fa"
    and "fnext fa + 4 * length ps \<le> length (usable_addrs (fmap fa))"
    and "distinct ps" and "\<forall>p \<in> set ps. tr mp p = None"
  shows "\<exists>mp' fa' fs. heap_map_loop ops fl ps (mp, fa) = Inr (None, mp', fa')
    \<and> length fs = length ps \<and> distinct fs \<and> set fs \<subseteq> set (falloc_remaining fa)
    \<and> tr mp' = (tr mp)(ps [\<mapsto>] fs) \<and> fmap fa' = fmap fa
    \<and> set fs \<inter> set (falloc_remaining fa') = {}
    \<and> fnext fa \<le> fnext fa' \<and> fnext fa' \<le> fnext fa + 4 * length ps"
  using assms(2-)
proof (induction ps arbitrary: mp fa)
  case Nil
  then show ?case by (intro exI [of _ mp] exI [of _ fa] exI [of _ "[]"]) simp
next
  case (Cons p ps)
  let ?us = "usable_addrs (fmap fa)" and ?fa = "fa\<lparr>fnext := fnext fa + 1\<rparr>"
  let ?f = "?us ! fnext fa"
  have lt: "fnext fa < length ?us" using Cons.prems by simp
  have alloc: "allocate_frame (pphys ops) fa = Inr (Some ?f, ?fa)"
    using allocate_frame_eq [OF Cons.prems(1) lt] .
  have rem: "falloc_remaining fa = ?f # drop (fnext fa + 1) ?us"
    using lt by (simp add: falloc_remaining_def Cons_nth_drop_Suc)
  have free: "tr mp p = None" "fnext ?fa + 3 \<le> length (usable_addrs (fmap ?fa))"
    using Cons.prems by auto
  obtain mp1 fa1 where st1: "map_to ops mp ?fa p ?f fl = (None, mp1, fa1)"
    "tr mp1 = (tr mp)(p \<mapsto> ?f)" "fmap fa1 = fmap ?fa" "fnext ?fa \<le> fnext fa1"
    "fnext fa1 \<le> fnext ?fa + 3" by (rule map_to_ok [OF assms(1) free])
  then have st1': "fmap fa1 = fmap fa" "fnext fa + 1 \<le> fnext fa1" "fnext fa1 \<le> fnext fa + 4"
    by simp_all
  have inv1: "falloc_inv (pphys ops) fa1" using Cons.prems(1) st1'(1) by (simp add: falloc_inv_def)
  have "fnext fa1 + 4 * length ps \<le> length (usable_addrs (fmap fa1))"
    using Cons.prems(2) st1' by simp
  moreover have "distinct ps" "\<forall>q \<in> set ps. tr mp1 q = None"
    using Cons.prems(3,4) st1(2) by auto
  ultimately obtain mp' fa' fs where IH: "heap_map_loop ops fl ps (mp1, fa1) = Inr (None, mp', fa')"
    "length fs = length ps" "distinct fs" "set fs \<subseteq> set (falloc_remaining fa1)"
    "tr mp' = (tr mp1)(ps [\<mapsto>] fs)" "fmap fa' = fmap fa1"
    "set fs \<inter> set (falloc_remaining fa') = {}" "fnext fa1 \<le> fnext fa'"
    "fnext fa' \<le> fnext fa1 + 4 * length ps"
    using Cons.IH [OF inv1, of mp1] by blast
  have sub: "set (falloc_remaining fa1) \<subseteq> set (drop (fnext fa + 1) ?us)"
    unfolding falloc_remaining_def st1'(1) by (rule set_drop_subset_set_drop) (rule st1'(2))
  have "?f \<notin> set (drop (fnext fa + 1) ?us)"
    using frames.remaining_distinct [OF Cons.prems(1)] unfolding rem by simp
  moreover have "set (falloc_remaining fa') \<subseteq> set (drop (fnext fa + 1) ?us)"
    unfolding falloc_remaining_def IH(6) st1'(1)
    by (rule set_drop_subset_set_drop) (use st1'(2) IH(8) in simp)
  ultimately have new: "?f \<notin> set fs" "?f \<notin> set (falloc_remaining fa')" using IH(4) sub by blast+
  have "tr mp' = (tr mp)(p # ps [\<mapsto>] ?f # fs)" using IH(5) st1(2) Cons.prems(3) by simp
  moreover have "heap_map_loop ops fl (p # ps) (mp, fa) = Inr (None, mp', fa')"
    using alloc st1(1) IH(1) by simp
  ultimately show ?case using IH sub new st1' unfolding rem
    by (intro exI [of _ mp'] exI [of _ fa'] exI [of _ "?f # fs"]) auto
qed

definition heap_pages :: "u64 list" where
  "heap_pages = map (\<lambda>i. BEGIN_HEAP + of_nat (4096 * i)) [0..<8192]"

lemma unat_heap_page: "i < 8192 \<Longrightarrow> unat (BEGIN_HEAP + of_nat (4096 * i)) = 0x200000000000 + 4096 * i"
  by (simp add: BEGIN_HEAP_def unat_word_ariths unat_of_nat del: of_nat_mult)

lemma distinct_heap_pages: "distinct heap_pages"
proof -
  have "i = j" if "i < 8192" "j < 8192"
    "BEGIN_HEAP + of_nat (4096 * i) = BEGIN_HEAP + of_nat (4096 * j)" for i j
    using arg_cong [OF that(3), of unat]
    unfolding unat_heap_page [OF that(1)] unat_heap_page [OF that(2)] by simp
  then show ?thesis
    by (auto simp: heap_pages_def distinct_map inj_on_def simp del: of_nat_mult)
qed

lemma heap_range:
  assumes "page_ops_ok ops tr"
  shows "heap_init_inner ops pf st = heap_map_loop ops (default_flags pf) heap_pages st"
proof -
  have "page_down BEGIN_HEAP = BEGIN_HEAP"
    by (rule page_down_aligned) (simp add: BEGIN_HEAP_def)
  moreover have "page_down (BEGIN_HEAP + HEAP_LEN - 1) = BEGIN_HEAP + of_nat (4096 * 8191)"
    by (simp add: word_unat_eq_iff unat_page_down BEGIN_HEAP_def HEAP_LEN_def)
  moreover have "page_range ops BEGIN_HEAP (BEGIN_HEAP + of_nat (4096 * 8191)) = heap_pages"
    using page_ops_okD(4) [OF assms, of BEGIN_HEAP 8191]
    by (simp add: heap_pages_def BEGIN_HEAP_def)
  ultimately show ?thesis
    by (simp add: heap_init_inner_def page_ops_okD [OF assms] BEGIN_HEAP_def HEAP_LEN_def)
qed

section \<open>The XHCI mapper\<close>

lemma unat_of_nat_47: "n < 2 ^ 47 \<Longrightarrow> unat (of_nat n :: u64) = n"
  by (simp add: unat_of_nat)

lemma page_down_of_nat: "n < 2 ^ 47 \<Longrightarrow> unat (page_down (of_nat n)) = n - n mod 4096"
  by (simp add: unat_page_down unat_of_nat_47)

lemma map_page_ok:
  assumes "page_ops_ok ops tr" "kmapper km = Some mp" "kfalloc km = Some fa"
    "unat phys < 2 ^ 47" "unat virt < 2 ^ 47" "tr mp (page_down virt) = None"
    "fnext fa + 3 \<le> length (usable_addrs (fmap fa))"
  obtains mp' fa' where
    "map_page ops phys virt fl km = Inr (km\<lparr>kmapper := Some mp', kfalloc := Some fa'\<rparr>)"
    "tr mp' = (tr mp)(page_down virt \<mapsto> page_down phys)" "fmap fa' = fmap fa"
    "fnext fa' \<le> fnext fa + 3"
proof -
  obtain mp' fa'
    where st: "map_to ops mp fa (page_down virt) (page_down phys) fl = (None, mp', fa')"
      "tr mp' = (tr mp)(page_down virt \<mapsto> page_down phys)" "fmap fa' = fmap fa"
      "fnext fa \<le> fnext fa'" "fnext fa' \<le> fnext fa + 3"
    by (rule map_to_ok [OF assms(1,6,7)])
  have "phys_frame (pphys ops) phys = Inr (page_down phys)"
    using page_ops_okD(1) [OF assms(1)] assms(4) by (simp add: phys_ops_ok_def)
  then have "map_page ops phys virt fl km = Inr (km\<lparr>kmapper := Some mp', kfalloc := Some fa'\<rparr>)"
    using assms(2,3,5) st(1) by (simp add: map_page_def page_ops_okD [OF assms(1)])
  with st(2,3,5) show thesis by (intro that)
qed

lemma xhci_unmap_loop_ok:
  assumes "page_ops_ok ops tr" and "kmapper km = Some mp" and "start + bytes < 2 ^ 47"
  shows "\<exists>mp'. xhci_unmap_loop ops start bytes i km = Inr (km\<lparr>kmapper := Some mp'\<rparr>)
    \<and> (\<forall>p. unat p + 4096 \<le> start + i \<longrightarrow> tr mp' p = tr mp p)"
  using assms(2)
proof (induction "bytes - i" arbitrary: i km mp rule: less_induct)
  case less
  show ?case
  proof (cases "i < bytes")
    case False
    with less.prems show ?thesis
      by (intro exI [of _ mp]) (simp add: xhci_unmap_loop.simps [of ops start bytes i])
  next
    case True
    let ?p = "page_down (of_nat (start + i))"
    have small: "start + i < 2 ^ 47" and lt: "bytes - (i + 4096) < bytes - i"
      using True assms(3) by simp_all
    obtain mp1 where st: "unmap_page ops ?p km = Inr (km\<lparr>kmapper := Some mp1\<rparr>)"
      "tr mp1 = (tr mp)(?p := None)" by (rule unmap_page_ok [OF assms(1) less.prems])
    obtain mp' where IH: "xhci_unmap_loop ops start bytes (i + 4096) (km\<lparr>kmapper := Some mp1\<rparr>)
        = Inr (km\<lparr>kmapper := Some mp'\<rparr>)"
      "\<forall>p. unat p + 4096 \<le> start + (i + 4096) \<longrightarrow> tr mp' p = tr mp1 p"
      using less.hyps [OF lt, of "km\<lparr>kmapper := Some mp1\<rparr>" mp1] by auto
    have "virt_new ops (of_nat (start + i)) = Inr (of_nat (start + i))"
      using small by (intro page_ops_okD(2) [OF assms(1)]) (simp add: unat_of_nat_47 del: of_nat_add)
    then have "xhci_unmap_loop ops start bytes i km = Inr (km\<lparr>kmapper := Some mp'\<rparr>)"
      using True small assms(3) st(1) IH(1)
      by (simp add: xhci_unmap_loop.simps [of ops start bytes i] usize_add_ck_def
          page_ops_okD(3) [OF assms(1)] del: of_nat_add)
    moreover have "tr mp' p = tr mp p" if "unat p + 4096 \<le> start + i" for p
    proof -
      have "unat ?p = start + i - (start + i) mod 4096" using small by (rule page_down_of_nat)
      then have "p \<noteq> ?p" using that by (metis le_add_diff_inverse mod_less_divisor mod_less_eq_dividend
            nat_add_left_cancel_less not_le zero_less_numeral add.commute)
      with that IH(2) st(2) show ?thesis by simp
    qed
    ultimately show ?thesis by blast
  qed
qed

lemma xhci_map_loop_ok:
  assumes "page_ops_ok ops tr" and "4096 dvd start" and "start + bytes < 2 ^ 47"
    and "kmapper km = Some mp" and "kfalloc km = Some fa" and "4096 dvd i"
    and "fnext fa + 3 * ((bytes - i + 4095) div 4096) \<le> length (usable_addrs (fmap fa))"
    and "\<forall>j. i \<le> j \<and> j < bytes \<longrightarrow> tr mp (of_nat (start + j)) = None"
  shows "\<exists>mp' fa'. xhci_map_loop ops pf start bytes i km
      = Inr (km\<lparr>kmapper := Some mp', kfalloc := Some fa'\<rparr>)
    \<and> (\<forall>p. tr mp' p = (if 4096 dvd unat p \<and> start + i \<le> unat p \<and> unat p < start + bytes
                        then Some p else tr mp p))"
  using assms(4-)
proof (induction "bytes - i" arbitrary: i km mp fa rule: less_induct)
  case less
  show ?case
  proof (cases "i < bytes")
    case False
    with less.prems show ?thesis
      by (intro exI [of _ mp] exI [of _ fa]) (auto simp: xhci_map_loop.simps [of ops pf start bytes i])
  next
    case True
    let ?a = "of_nat (start + i) :: u64"
    have small: "start + i < 2 ^ 47" and lt: "bytes - (i + 4096) < bytes - i"
      using True assms(3) by simp_all
    have ua: "unat ?a = start + i" using small by (rule unat_of_nat_47)
    have down: "page_down ?a = ?a"
      by (rule page_down_aligned) (simp only: ua assms(2) less.prems(3) dvd_add)
    have a47: "unat ?a < 2 ^ 47" using small ua by simp
    have free: "tr mp (page_down ?a) = None" using less.prems(5) True unfolding down by simp
    have steps: "(bytes - i + 4095) div 4096 = 1 + (bytes - (i + 4096) + 4095) div 4096"
      using True by (cases "i + 4096 \<le> bytes") auto
    have room: "fnext fa + 3 \<le> length (usable_addrs (fmap fa))" using less.prems(4) unfolding steps by simp
    obtain mp1 fa1 where st: "map_page ops ?a ?a (default_flags pf) km
          = Inr (km\<lparr>kmapper := Some mp1, kfalloc := Some fa1\<rparr>)"
      "tr mp1 = (tr mp)(?a \<mapsto> ?a)" "fmap fa1 = fmap fa" "fnext fa1 \<le> fnext fa + 3"
      using map_page_ok [OF assms(1) less.prems(1,2) a47 a47 free room] unfolding down by blast
    let ?km = "km\<lparr>kmapper := Some mp1, kfalloc := Some fa1\<rparr>"
    have prem4: "fnext fa1 + 3 * ((bytes - (i + 4096) + 4095) div 4096)
        \<le> length (usable_addrs (fmap fa1))"
      using less.prems(4) st(3,4) unfolding steps by simp
    have prem5: "\<forall>j. i + 4096 \<le> j \<and> j < bytes \<longrightarrow> tr mp1 (of_nat (start + j)) = None"
    proof (intro allI impI)
      fix j assume j: "i + 4096 \<le> j \<and> j < bytes"
      then have "unat (of_nat (start + j) :: u64) = start + j"
        using assms(3) by (intro unat_of_nat_47) simp
      then have "of_nat (start + j) \<noteq> ?a" using ua j by (metis add_left_cancel le_add1 leD less_add_same_cancel1
            order_less_le_trans zero_less_numeral)
      with j less.prems(5) st(2) show "tr mp1 (of_nat (start + j)) = None" by simp
    qed
    obtain mp' fa' where IH: "xhci_map_loop ops pf start bytes (i + 4096) ?km
        = Inr (km\<lparr>kmapper := Some mp', kfalloc := Some fa'\<rparr>)"
      "\<forall>p. tr mp' p = (if 4096 dvd unat p \<and> start + (i + 4096) \<le> unat p \<and> unat p < start + bytes
                        then Some p else tr mp1 p)"
      using less.hyps [OF lt, of ?km mp1 fa1] less.prems(3) prem4 prem5 by auto
    have "xhci_map_loop ops pf start bytes i km = Inr (km\<lparr>kmapper := Some mp', kfalloc := Some fa'\<rparr>)"
      using True small assms(3) st(1) IH(1) a47
      by (simp add: xhci_map_loop.simps [of ops pf start bytes i] usize_add_ck_def down
          page_ops_okD(2,3) [OF assms(1)] del: of_nat_add)
    moreover have "tr mp' p = (if 4096 dvd unat p \<and> start + i \<le> unat p \<and> unat p < start + bytes
        then Some p else tr mp p)" for p
    proof (cases "p = ?a")
      case p: True
      have "4096 dvd unat p" unfolding p ua by (rule dvd_add) (rule assms(2), rule less.prems(3))
      then show ?thesis using IH(2) st(2) p ua True by simp
    next
      case False
      then have "unat p \<noteq> start + i" using ua by (metis word_unat_eq_iff)
      moreover have "4096 dvd start + i" using assms(2) less.prems(3) by (rule dvd_add)
      ultimately have "start + i \<le> unat p \<longleftrightarrow> start + (i + 4096) \<le> unat p" if "4096 dvd unat p"
        using that dvd_add_le [of 4096 "start + i" "unat p"] by auto
      with IH(2) st(2) False show ?thesis by auto
    qed
    ultimately show ?thesis by blast
  qed
qed

definition map_instance :: "(u64 \<Rightarrow> u64 option) page_ops" where
  "map_instance = \<lparr>pphys = ref_phys_ops,
     virt_new = (\<lambda>a. if unat a < 2 ^ 47 then Inr a else Inl (Panic ExplicitPanic)),
     page_of = page_down,
     page_range = (\<lambda>b e. map (\<lambda>i. b + of_nat (4096 * i)) [0..<(unat e - unat b) div 4096 + 1]),
     map_to = (\<lambda>mp fa p f fl. if mp p = None then (None, mp(p \<mapsto> f), fa)
                 else (Some (PageAlreadyMapped p), mp, fa)),
     unmap = (\<lambda>mp p. if mp p = None then (Some PageNotMapped, mp) else (None, mp(p := None)))\<rparr>"

lemma map_instance_ok: "page_ops_ok map_instance id"
proof -
  have "(unat (b + of_nat (4096 * n)) - unat b) div 4096 = n"
    if "unat b + 4096 * n < 2 ^ 64" for b :: u64 and n
    using that by (simp add: unat_word_ariths unat_of_nat del: of_nat_mult)
  then show ?thesis
    by (auto simp: page_ops_ok_def map_instance_def ref_phys_ops_ok simp del: of_nat_mult)
qed

lemma length_step_addrs [simp]: "length (step_addrs r) = step_count r"
  by (simp add: step_addrs_def)

definition big_map :: "mem_region list" where
  "big_map = [\<lparr>region_start = 0x100000, region_end = 0x10000000, region_usable = True\<rparr>]"

lemma big_map_length: "length (usable_addrs big_map) = 65280"
  by (simp add: usable_addrs_def big_map_def step_count_def)

lemma big_map_ok: "memory_map_ok big_map"
  unfolding memory_map_ok_def big_map_length
  by (simp add: big_map_def region_ok_def)

text \<open>The run of \<^verbatim>\<open>heap_init\<close>: the frames of the heap's pages, and what is left.\<close>

lemma heap_init_run:
  assumes "page_ops_ok ops tr" and "memory_map_ok regions"
    and "32768 \<le> length (usable_addrs regions)" and "\<forall>p \<in> set heap_pages. tr mp0 p = None"
  obtains mp fa fs where "heap_init ops pf mp0 regions \<lparr>kmapper = None, kfalloc = None\<rparr>
      = Inr \<lparr>kmapper = Some mp, kfalloc = Some fa\<rparr>"
    "length fs = length heap_pages" "distinct fs" "set fs \<subseteq> set (usable_addrs regions)"
    "tr mp = (tr mp0)(heap_pages [\<mapsto>] fs)" "fmap fa = regions" "fnext fa \<le> 32768"
    "set fs \<inter> set (falloc_remaining fa) = {}"
proof -
  let ?fa0 = "falloc_new regions"
  have inv: "falloc_inv (pphys ops) ?fa0"
    using assms(2) page_ops_okD(1) [OF assms(1)] by (simp add: falloc_inv_def falloc_new_def)
  have room: "fnext ?fa0 + 4 * length heap_pages \<le> length (usable_addrs (fmap ?fa0))"
    using assms(3) by (simp add: falloc_new_def heap_pages_def)
  obtain mp fa fs where run:
      "heap_map_loop ops (default_flags pf) heap_pages (mp0, ?fa0) = Inr (None, mp, fa)"
    and fs: "length fs = length heap_pages" "distinct fs" "set fs \<subseteq> set (falloc_remaining ?fa0)"
      "tr mp = (tr mp0)(heap_pages [\<mapsto>] fs)" "fmap fa = fmap ?fa0"
      "set fs \<inter> set (falloc_remaining fa) = {}" "fnext fa \<le> fnext ?fa0 + 4 * length heap_pages"
    using heap_map_loop_ok [OF assms(1) inv room distinct_heap_pages assms(4)] by blast
  show thesis
    by (rule that [OF _ fs(1,2) _ fs(4) _ _ fs(6)])
      (use run fs in \<open>simp_all add: heap_init_def heap_range [OF assms(1)] falloc_remaining_def
        falloc_new_def heap_pages_def\<close>)
qed

section \<open>Properties\<close>

text \<open>C7. Setting up the heap succeeds when the heap's pages are free and four frames are usable
  for each of them; afterwards every one of the 8192 pages of the 32 MiB heap is mapped, to a
  usable frame of its own, and no other translation changed.\<close>

theorem heap_init_maps_heap:
  assumes "page_ops_ok ops tr" and "memory_map_ok regions"
    and "32768 \<le> length (usable_addrs regions)" and "\<forall>p \<in> set heap_pages. tr mp0 p = None"
  shows "\<exists>mp fa. heap_init ops pf mp0 regions \<lparr>kmapper = None, kfalloc = None\<rparr>
        = Inr \<lparr>kmapper = Some mp, kfalloc = Some fa\<rparr>
      \<and> (\<forall>p \<in> set heap_pages. \<exists>f. tr mp p = Some f \<and> in_usable regions f)
      \<and> inj_on (tr mp) (set heap_pages)
      \<and> (\<forall>p. p \<notin> set heap_pages \<longrightarrow> tr mp p = tr mp0 p)"
proof -
  obtain mp fa fs where run: "heap_init ops pf mp0 regions \<lparr>kmapper = None, kfalloc = None\<rparr>
      = Inr \<lparr>kmapper = Some mp, kfalloc = Some fa\<rparr>"
    and fs: "length fs = length heap_pages" "distinct fs" "set fs \<subseteq> set (usable_addrs regions)"
    and tr: "tr mp = (tr mp0)(heap_pages [\<mapsto>] fs)"
    using heap_init_run [OF assms] by metis
  note nth = map_upds_nth [OF distinct_heap_pages fs(1), of _ "tr mp0", folded tr]
  have usable: "in_usable regions f" if "f \<in> set fs" for f
    using that fs(3) memory_map_addrs(2) [OF assms(2)] by blast
  have "\<exists>f. tr mp p = Some f \<and> in_usable regions f" if "p \<in> set heap_pages" for p
    using that nth usable fs(1) by (metis in_set_conv_nth)
  moreover have "inj_on (tr mp) (set heap_pages)"
  proof (rule inj_onI)
    fix p q assume "p \<in> set heap_pages" "q \<in> set heap_pages" and eq: "tr mp p = tr mp q"
    then obtain i j where ij: "i < length heap_pages" "p = heap_pages ! i"
      "j < length heap_pages" "q = heap_pages ! j" by (auto simp: in_set_conv_nth)
    then have "fs ! i = fs ! j" using eq nth by simp
    then have "i = j" using ij fs(1) nth_eq_iff_index_eq [OF fs(2), of i j] by simp
    with ij show "p = q" by simp
  qed
  moreover have "tr mp p = tr mp0 p" if "p \<notin> set heap_pages" for p
    using that by (simp add: tr map_upds_apply_nontin)
  ultimately show ?thesis using run by blast
qed

theorem heap_init_maps_heap_witness:
  "\<exists>mp fa. heap_init map_instance (\<lparr>pf_present = 1, pf_writable = 2, pf_no_cache = 16,
        pf_write_through = 8\<rparr>) Map.empty big_map \<lparr>kmapper = None, kfalloc = None\<rparr>
      = Inr \<lparr>kmapper = Some mp, kfalloc = Some fa\<rparr>
    \<and> (\<forall>p \<in> set heap_pages. \<exists>f. id mp p = Some f \<and> in_usable big_map f)
    \<and> inj_on (id mp) (set heap_pages)
    \<and> (\<forall>p. p \<notin> set heap_pages \<longrightarrow> id mp p = id Map.empty p)"
  by (rule heap_init_maps_heap [OF map_instance_ok big_map_ok]) (simp_all add: big_map_length)

text \<open>C28. \<^verbatim>\<open>XhciMapper::map\<close> of a page-aligned, unmapped physical range maps every byte of it to
  itself and changes no other translation.\<close>

theorem xhci_map_identity:
  assumes "page_ops_ok ops tr" and "4096 dvd start" and "0 < start" and "0 < bytes"
    and "start + bytes < 2 ^ 47"
    and "kmapper km = Some mp" and "kfalloc km = Some fa"
    and "fnext fa + 3 * ((bytes + 4095) div 4096) \<le> length (usable_addrs (fmap fa))"
    and "\<forall>j < bytes. tr mp (of_nat (start + j)) = None"
  shows "\<exists>mp' fa'. xhci_map ops pf start bytes km
      = Inr (start, km\<lparr>kmapper := Some mp', kfalloc := Some fa'\<rparr>)
    \<and> (\<forall>a. start \<le> unat a \<and> unat a < start + bytes \<longrightarrow> tr mp' (page_down a) = Some (page_down a))
    \<and> (\<forall>p. 4096 dvd unat p \<and> \<not> (start \<le> unat p \<and> unat p < start + bytes) \<longrightarrow> tr mp' p = tr mp p)"
proof -
  obtain mp' fa'
    where run: "xhci_map_loop ops pf start bytes 0 km
        = Inr (km\<lparr>kmapper := Some mp', kfalloc := Some fa'\<rparr>)"
      and tr: "\<forall>p. tr mp' p = (if 4096 dvd unat p \<and> start + 0 \<le> unat p \<and> unat p < start + bytes
                   then Some p else tr mp p)"
    using xhci_map_loop_ok [OF assms(1,2,5,6,7), of 0 pf] assms(8,9) by auto
  have "xhci_map ops pf start bytes km = Inr (start, km\<lparr>kmapper := Some mp', kfalloc := Some fa'\<rparr>)"
    using run assms(3,4,5)
    by (simp add: xhci_map_loop.simps [of ops pf start bytes 0] xhci_map_def usize_add_ck_def
        rbind_eq_Inr_iff)
  moreover have "tr mp' (page_down a) = Some (page_down a)"
    if "start \<le> unat a" "unat a < start + bytes" for a
  proof -
    have "start \<le> unat a - unat a mod 4096" using assms(2) that(1) by (rule dvd_le_round_down)
    moreover have "unat a - unat a mod 4096 < start + bytes" using that(2) by linarith
    ultimately show ?thesis using tr by (simp add: unat_page_down)
  qed
  ultimately show ?thesis using tr by auto
qed

theorem xhci_map_identity_witness:
  "\<exists>mp' fa'. xhci_map map_instance (\<lparr>pf_present = 1, pf_writable = 2, pf_no_cache = 16,
        pf_write_through = 8\<rparr>) 0x8000 0x2800 \<lparr>kmapper = Some Map.empty, kfalloc = Some (falloc_new big_map)\<rparr>
      = Inr (0x8000, \<lparr>kmapper = Some mp', kfalloc = Some fa'\<rparr>)
    \<and> (\<forall>a. 0x8000 \<le> unat a \<and> unat a < 0x8000 + 0x2800 \<longrightarrow> id mp' (page_down a) = Some (page_down a))
    \<and> (\<forall>p. 4096 dvd unat p \<and> \<not> (0x8000 \<le> unat p \<and> unat p < 0x8000 + 0x2800)
          \<longrightarrow> id mp' p = id Map.empty p)"
  using xhci_map_identity [OF map_instance_ok, of "0x8000" "0x2800"
      "\<lparr>kmapper = Some Map.empty, kfalloc = Some (falloc_new big_map)\<rparr>" Map.empty
      "falloc_new big_map" "\<lparr>pf_present = 1, pf_writable = 2, pf_no_cache = 16, pf_write_through = 8\<rparr>"]
  by (simp add: falloc_new_def big_map_length)

text \<open>\<^verbatim>\<open>XhciMapper::unmap\<close> of more than one page never unmaps the first one: its loop starts at
  the second page, so the first page keeps its translation.\<close>

theorem xhci_unmap_leaks_first_page:
  assumes "page_ops_ok ops tr" and "kmapper km = Some mp" and "4096 < bytes"
    and "start + bytes < 2 ^ 47"
  shows "\<exists>mp'. xhci_unmap ops start bytes km = Inr (km\<lparr>kmapper := Some mp'\<rparr>)
    \<and> tr mp' (page_down (of_nat start)) = tr mp (page_down (of_nat start))"
proof -
  have "unat (page_down (of_nat start)) + 4096 \<le> start + 4096"
    using assms(4) by (simp add: page_down_of_nat)
  then show ?thesis
    using xhci_unmap_loop_ok [OF assms(1,2,4), of 4096] assms(3) by (auto simp: xhci_unmap_def)
qed

theorem xhci_unmap_leaks_first_page_witness:
  "\<exists>mp'. xhci_unmap map_instance 0x8000 0x2000
        \<lparr>kmapper = Some [0x8000 \<mapsto> 0x8000, 0x9000 \<mapsto> 0x9000], kfalloc = None\<rparr>
      = Inr \<lparr>kmapper = Some mp', kfalloc = None\<rparr>
    \<and> id mp' 0x8000 = Some 0x8000"
  using xhci_unmap_leaks_first_page [OF map_instance_ok,
      of "\<lparr>kmapper = Some [0x8000 \<mapsto> 0x8000, 0x9000 \<mapsto> 0x9000], kfalloc = None\<rparr>"
        "[0x8000 \<mapsto> 0x8000, 0x9000 \<mapsto> 0x9000]" "0x2000" "0x8000"]
  by (simp add: page_down_aligned)

end
