(* ===== verification/Machine.thy ===== *)
theory Machine
  imports Paging
begin

text \<open>
  What the drivers share: code that reads and writes the machine's address space.

  \<^item> An \<open>'s act\<close> is a computation on a state that may stop; \<open>sbind\<close> sequences two of them,
    \<open>for_act\<close> is a \<^verbatim>\<open>for\<close> loop and \<open>spin_while\<close> a busy-waiting loop, which is given a number of
    iterations and diverges when they do not suffice.
  \<^item> The address space belongs to the hardware: its state is the type variable \<open>'d\<close>, and
    \<open>bus_ops\<close> holds the reads and writes of one to eight bytes. A read may change the state, as it
    does for a device register.
  \<^item> \<open>field_offsets\<close> computes the layout of a \<^verbatim>\<open>#[repr(C)]\<close> structure from the sizes and
    alignments of its fields.
  \<^item> \<open>bit_ops\<close> are the operations of the \<^verbatim>\<open>bit_field\<close> crate on an integer of a given width.

  \<open>region_ok\<close> states that a stretch of addresses behaves like memory; a structure in such a
  stretch is a list of bytes, and writing a field replaces a slice of the list.
\<close>

section \<open>Computations on a state\<close>

type_synonym ('s, 'a) act = "'s \<Rightarrow> ('a \<times> 's) exec"

definition ret :: "'a \<Rightarrow> ('s, 'a) act" where
  "ret x s = Inr (x, s)"

definition halt :: "stop \<Rightarrow> ('s, 'a) act" where
  "halt e s = Inl e"

definition sbind :: "('s, 'a) act \<Rightarrow> ('a \<Rightarrow> ('s, 'b) act) \<Rightarrow> ('s, 'b) act" where
  "sbind m f s = rbind (m s) (\<lambda>(x, s). f x s)"

definition sthen :: "('s, 'a) act \<Rightarrow> ('s, 'b) act \<Rightarrow> ('s, 'b) act" where
  "sthen m n = sbind m (\<lambda>_. n)"

definition pure_exec :: "'a exec \<Rightarrow> ('s, 'a) act" where
  "pure_exec m s = rbind m (\<lambda>x. Inr (x, s))"

fun for_act :: "('i \<Rightarrow> ('s, unit) act) \<Rightarrow> 'i list \<Rightarrow> ('s, unit) act" where
  "for_act body [] = ret ()"
| "for_act body (i # is) = sthen (body i) (for_act body is)"

fun spin_while :: "nat \<Rightarrow> ('s, bool) act \<Rightarrow> ('s, unit) act" where
  "spin_while 0 c = halt Diverge"
| "spin_while (Suc n) c = sbind c (\<lambda>b. if b then spin_while n c else ret ())"

section \<open>The address space\<close>

record 'd bus_ops =
  bus_read :: "nat \<Rightarrow> u64 \<Rightarrow> 'd \<Rightarrow> u64 \<times> 'd"
  bus_write :: "nat \<Rightarrow> u64 \<Rightarrow> u64 \<Rightarrow> 'd \<Rightarrow> 'd"

record bit_ops =
  bf_get_bit :: "nat \<Rightarrow> u64 \<Rightarrow> nat \<Rightarrow> bool exec"
  bf_set_bit :: "nat \<Rightarrow> u64 \<Rightarrow> nat \<Rightarrow> bool \<Rightarrow> u64 exec"
  bf_get_bits :: "nat \<Rightarrow> u64 \<Rightarrow> nat \<Rightarrow> nat \<Rightarrow> u64 exec"
  bf_set_bits :: "nat \<Rightarrow> u64 \<Rightarrow> nat \<Rightarrow> nat \<Rightarrow> u64 \<Rightarrow> u64 exec"

text \<open>What a driver is given: the page tables, the boot loader's offset of physical memory, the
  address space, the two crates; and what it changes: the statics of the memory manager and the
  machine.\<close>

record ('m, 'd) menv =
  mpage :: "'m page_ops"
  mflags :: page_flags
  moffset :: u64
  mbus :: "'d bus_ops"
  mbits :: bit_ops
  mphys_new :: "u64 \<Rightarrow> u64 exec"

record ('m, 'd) mstate =
  mkm :: "'m kmem"
  mdev :: 'd

definition rd :: "('m, 'd) menv \<Rightarrow> nat \<Rightarrow> u64 \<Rightarrow> (('m, 'd) mstate, u64) act" where
  "rd env w a st = (case bus_read (mbus env) w a (mdev st) of (v, d) \<Rightarrow> Inr (v, st\<lparr>mdev := d\<rparr>))"

definition wr :: "('m, 'd) menv \<Rightarrow> nat \<Rightarrow> u64 \<Rightarrow> u64 \<Rightarrow> (('m, 'd) mstate, unit) act" where
  "wr env w a v st = Inr ((), st\<lparr>mdev := bus_write (mbus env) w a v (mdev st)\<rparr>)"

definition mmap :: "('m, 'd) menv \<Rightarrow> u64 \<Rightarrow> u64 \<Rightarrow> (('m, 'd) mstate, unit) act" where
  "mmap env phys virt st =
     rbind (map_page (mpage env) phys virt (default_flags (mflags env)) (mkm st)) (\<lambda>km.
       Inr ((), st\<lparr>mkm := km\<rparr>))"

fun read_bytes :: "('m, 'd) menv \<Rightarrow> u64 \<Rightarrow> nat \<Rightarrow> (('m, 'd) mstate, u8 list) act" where
  "read_bytes env a 0 = ret []"
| "read_bytes env a (Suc n) =
     sbind (rd env 1 a) (\<lambda>b. sbind (read_bytes env (a + 1) n) (\<lambda>bs. ret (ucast b # bs)))"

definition fill_zero :: "('m, 'd) menv \<Rightarrow> u64 \<Rightarrow> nat \<Rightarrow> (('m, 'd) mstate, unit) act" where
  "fill_zero env a n = for_act (\<lambda>i. wr env 1 (a + of_nat i) 0) [0..<n]"

section \<open>Structure layout\<close>

definition align_up :: "nat \<Rightarrow> nat \<Rightarrow> nat" where
  "align_up a x = (x + a - 1) div a * a"

fun field_offsets :: "nat \<Rightarrow> (string \<times> nat \<times> nat) list \<Rightarrow> (string \<times> nat) list" where
  "field_offsets x [] = []"
| "field_offsets x ((name, sz, al) # fs) =
     (name, align_up al x) # field_offsets (align_up al x + sz) fs"

fun fields_end :: "nat \<Rightarrow> (string \<times> nat \<times> nat) list \<Rightarrow> nat" where
  "fields_end x [] = x"
| "fields_end x ((name, sz, al) # fs) = fields_end (align_up al x + sz) fs"

definition struct_align :: "(string \<times> nat \<times> nat) list \<Rightarrow> nat" where
  "struct_align fs = foldr (\<lambda>(_, _, al) m. max al m) fs 1"

definition struct_size :: "(string \<times> nat \<times> nat) list \<Rightarrow> nat" where
  "struct_size fs = align_up (struct_align fs) (fields_end 0 fs)"

definition field_offset :: "(string \<times> nat \<times> nat) list \<Rightarrow> string \<Rightarrow> nat" where
  "field_offset fs name = the (map_of (field_offsets 0 fs) name)"

definition field_size :: "(string \<times> nat \<times> nat) list \<Rightarrow> string \<Rightarrow> nat" where
  "field_size fs name = fst (the (map_of fs name))"

text \<open>Reading and writing a field of the structure at address \<open>a\<close>.\<close>

definition get_field ::
  "('m, 'd) menv \<Rightarrow> (string \<times> nat \<times> nat) list \<Rightarrow> u64 \<Rightarrow> string \<Rightarrow> (('m, 'd) mstate, u64) act" where
  "get_field env fs a name = rd env (field_size fs name) (a + of_nat (field_offset fs name))"

definition set_field ::
  "('m, 'd) menv \<Rightarrow> (string \<times> nat \<times> nat) list \<Rightarrow> u64 \<Rightarrow> string \<Rightarrow> u64 \<Rightarrow> (('m, 'd) mstate, unit) act" where
  "set_field env fs a name v = wr env (field_size fs name) (a + of_nat (field_offset fs name)) v"

section \<open>Running computations\<close>

lemma act_simps [exec_simps]:
  "ret x s = Inr (x, s)"
  "halt e s = Inl e"
  "sbind m f s = rbind (m s) (\<lambda>(x, s). f x s)"
  "sthen m n s = rbind (m s) (\<lambda>(x, s). n s)"
  "pure_exec r s = rbind r (\<lambda>x. Inr (x, s))"
  by (simp_all add: ret_def halt_def sbind_def sthen_def pure_exec_def)

lemma for_act_for_each:
  "for_act body is s = rbind (for_each (\<lambda>i s. rbind (body i s) (\<lambda>(_, s). Inr s)) is s) (\<lambda>s. Inr ((), s))"
  by (induction "is" arbitrary: s) (auto simp: act_simps rbind_def split: sum.splits)

lemma for_act_append [exec_simps]:
  "for_act body (is @ js) s = rbind (for_act body is s) (\<lambda>(_, s). for_act body js s)"
  by (induction "is" arbitrary: s) (auto simp: exec_simps rbind_def split: sum.splits)

lemma set_field_run [exec_simps]:
  "set_field env fs a name v st = Inr ((), st\<lparr>mdev :=
     bus_write (mbus env) (field_size fs name) (a + of_nat (field_offset fs name)) v (mdev st)\<rparr>)"
  by (simp add: set_field_def wr_def)

lemma get_field_run [exec_simps]:
  "get_field env fs a name st =
     (case bus_read (mbus env) (field_size fs name) (a + of_nat (field_offset fs name)) (mdev st) of
        (v, d) \<Rightarrow> Inr (v, st\<lparr>mdev := d\<rparr>))"
  by (simp add: get_field_def rd_def)

text \<open>A loop that goes round \<open>n\<close> times without leaving uses up any number of iterations below.\<close>

lemma spin_while_diverges:
  assumes "\<And>s. I s \<Longrightarrow> \<exists>s'. c s = Inr (True, s') \<and> I s'" and "I s"
  shows "spin_while n c s = Inl Diverge"
  using assms(2)
proof (induction n arbitrary: s)
  case (Suc n)
  with assms(1) obtain s' where "c s = Inr (True, s')" "I s'" by blast
  with Suc.IH show ?case by (simp add: exec_simps)
qed (simp add: exec_simps)

section \<open>Memory\<close>

definition patch :: "'a list \<Rightarrow> nat \<Rightarrow> 'a list \<Rightarrow> 'a list" where
  "patch xs k ys = take k xs @ ys @ drop (k + length ys) xs"

definition outside :: "u64 \<Rightarrow> nat \<Rightarrow> u64 \<Rightarrow> nat \<Rightarrow> bool" where
  "outside base n a w \<longleftrightarrow> unat a + w \<le> 2 ^ 64 \<and> (unat a + w \<le> unat base \<or> unat base + n \<le> unat a)"

text \<open>The \<open>n\<close> bytes from \<open>base\<close> on are memory with the contents \<open>view\<close>: what is written there is read
  back, and accesses elsewhere leave it alone.\<close>

definition memory_at :: "'d bus_ops \<Rightarrow> ('d \<Rightarrow> u8 list) \<Rightarrow> u64 \<Rightarrow> nat \<Rightarrow> bool" where
  "memory_at bus view base n \<longleftrightarrow>
     (\<forall>d. length (view d) = n)
     \<and> (\<forall>d k w. k + w \<le> n \<longrightarrow>
          bus_read bus w (base + of_nat k) d = (of_nat (le_value (take w (drop k (view d)))), d))
     \<and> (\<forall>d k w v. k + w \<le> n \<longrightarrow>
          view (bus_write bus w (base + of_nat k) v d) = patch (view d) k (le_bytes w v))
     \<and> (\<forall>d a w v. outside base n a w \<longrightarrow> view (bus_write bus w a v d) = view d)
     \<and> (\<forall>d a w. outside base n a w \<longrightarrow> view (snd (bus_read bus w a d)) = view d)"

lemma memory_atD:
  assumes "memory_at bus view base n"
  shows "length (view d) = n"
    and "k + w \<le> n \<Longrightarrow>
      bus_read bus w (base + of_nat k) d = (of_nat (le_value (take w (drop k (view d)))), d)"
    and "k + w \<le> n \<Longrightarrow> view (bus_write bus w (base + of_nat k) v d) = patch (view d) k (le_bytes w v)"
    and "outside base n a w \<Longrightarrow> view (bus_write bus w a v d) = view d"
    and "outside base n a w \<Longrightarrow> view (snd (bus_read bus w a d)) = view d"
  using assms unfolding memory_at_def by blast+

text \<open>The same at a numeral offset, the form in which fields appear.\<close>

lemma memory_at_numeral:
  assumes "memory_at bus view base n"
  shows "w \<le> n \<Longrightarrow> bus_read bus w base d = (of_nat (le_value (take w (view d))), d)"
    and "numeral k + w \<le> n \<Longrightarrow> bus_read bus w (base + numeral k) d
      = (of_nat (le_value (take w (drop (numeral k) (view d)))), d)"
    and "1 + w \<le> n \<Longrightarrow> bus_read bus w (base + 1) d
      = (of_nat (le_value (take w (drop 1 (view d)))), d)"
    and "w \<le> n \<Longrightarrow> view (bus_write bus w base v d) = patch (view d) 0 (le_bytes w v)"
    and "numeral k + w \<le> n \<Longrightarrow> view (bus_write bus w (base + numeral k) v d)
      = patch (view d) (numeral k) (le_bytes w v)"
    and "1 + w \<le> n \<Longrightarrow> view (bus_write bus w (base + 1) v d) = patch (view d) 1 (le_bytes w v)"
  using memory_atD(2) [OF assms, of 0 w d] memory_atD(2) [OF assms, of "numeral k" w d]
    memory_atD(2) [OF assms, of 1 w d] memory_atD(3) [OF assms, of 0 w v d]
    memory_atD(3) [OF assms, of "numeral k" w v d] memory_atD(3) [OF assms, of 1 w v d]
  by simp_all

lemma length_patch [simp]:
  "k + length ys \<le> length xs \<Longrightarrow> length (patch xs k ys) = length xs"
  by (simp add: patch_def)

lemma nth_patch:
  assumes "k + length ys \<le> length xs" and "i < length xs"
  shows "patch xs k ys ! i = (if k \<le> i \<and> i < k + length ys then ys ! (i - k) else xs ! i)"
  using assms by (auto simp: patch_def nth_append)

lemma read_patch:
  assumes "k + length ys \<le> length xs"
  shows "take (length ys) (drop k (patch xs k ys)) = ys"
    and "j + w \<le> k \<or> k + length ys \<le> j \<Longrightarrow> j + w \<le> length xs
      \<Longrightarrow> take w (drop j (patch xs k ys)) = take w (drop j xs)"
  using assms by (auto intro!: nth_equalityI simp: nth_patch)

lemma outside_part:
  assumes "outside base n a m" and "k + w \<le> m" and "0 < w"
  shows "outside base n (a + of_nat k) w"
proof -
  have "unat (a + of_nat k) = unat a + k"
    using assms by (auto simp: outside_def unat_word_ariths unat_of_nat)
  then show ?thesis using assms by (auto simp: outside_def)
qed

lemma memory_at_elsewhere:
  assumes "memory_at bus view base n" and "outside base n a m" and "k + w \<le> m" and "0 < w"
  shows "view (bus_write bus w (a + of_nat k) v d) = view d"
    and "view (snd (bus_read bus w (a + of_nat k) d)) = view d"
  using memory_atD(4,5) [OF assms(1) outside_part [OF assms(2-4)]] by simp_all

text \<open>The address space that is memory everywhere.\<close>

definition plain_bus :: "(u64 \<Rightarrow> u8) bus_ops" where
  "plain_bus = \<lparr>
     bus_read = (\<lambda>w a d. (of_nat (le_value (map (\<lambda>i. d (a + of_nat i)) [0..<w])), d)),
     bus_write = (\<lambda>w a v d x. if unat (x - a) < w then le_bytes w v ! unat (x - a) else d x)\<rparr>"

definition plain_view :: "u64 \<Rightarrow> nat \<Rightarrow> (u64 \<Rightarrow> u8) \<Rightarrow> u8 list" where
  "plain_view base n d = map (\<lambda>i. d (base + of_nat i)) [0..<n]"

lemma unat_offset_diff:
  fixes a b :: u64
  assumes "unat b + j < 2 ^ 64"
  shows "unat (b + of_nat j - a) = (if unat a \<le> unat b + j then unat b + j - unat a
           else 2 ^ 64 + unat b + j - unat a)"
proof -
  have u: "unat (b + of_nat j) = unat b + j" using assms by (simp add: unat_word_ariths unat_of_nat)
  then have "unat (b + of_nat j - a) = (unat b + j + 2 ^ 64 - unat a) mod 2 ^ 64"
    using unat_sub_mod [of "b + of_nat j" a] by simp
  moreover have "unat a < 2 ^ 64" using unsigned_less [of a, where 'a = nat] by simp
  moreover have "(x + 2 ^ 64 - y) mod 2 ^ 64 = (if y \<le> x then x - y else 2 ^ 64 + x - y)"
    if "x < 2 ^ 64" "y < 2 ^ 64" for x y :: nat
    using that by (auto simp: mod_if)
  ultimately show ?thesis using assms by (metis (no_types, lifting) add.assoc)
qed

lemma plain_memory_at:
  assumes "unat base + n \<le> 2 ^ 64"
  shows "memory_at plain_bus (plain_view base n) base n"
proof -
  have diff: "unat (base + of_nat i - a) = (if unat a \<le> unat base + i then unat base + i - unat a
      else 2 ^ 64 + unat base + i - unat a)" if "i < n" for i a
    using unat_offset_diff [of base i a] that assms by simp
  have addr: "unat (base + of_nat k) = unat base + k" if "k < n" for k
    using diff [OF that, of 0] by simp
  have "bus_read plain_bus w (base + of_nat k) d
      = (of_nat (le_value (take w (drop k (plain_view base n d)))), d)" if "k + w \<le> n" for k w d
  proof -
    have "map (\<lambda>i. d (base + of_nat k + of_nat i)) [0..<w] = take w (drop k (plain_view base n d))"
      using that by (intro nth_equalityI) (simp_all add: plain_view_def add.assoc)
    then show ?thesis by (simp add: plain_bus_def)
  qed
  moreover have "plain_view base n (bus_write plain_bus w (base + of_nat k) v d)
      = patch (plain_view base n d) k (le_bytes w v)" if "k + w \<le> n" for k w v d
  proof (rule nth_equalityI)
    fix i assume "i < length (plain_view base n (bus_write plain_bus w (base + of_nat k) v d))"
    then have i: "i < n" by (simp add: plain_view_def)
    show "plain_view base n (bus_write plain_bus w (base + of_nat k) v d) ! i
        = patch (plain_view base n d) k (le_bytes w v) ! i"
    proof (cases "w = 0")
      case False
      with that have "unat (base + of_nat k) = unat base + k" by (intro addr) simp
      then show ?thesis using i that assms diff [OF i, of "base + of_nat k"]
        by (auto simp: plain_bus_def plain_view_def nth_patch length_le_bytes)
    qed (use i in \<open>simp add: plain_bus_def plain_view_def patch_def le_bytes_def\<close>)
  qed (use that in \<open>simp add: plain_view_def length_le_bytes\<close>)
  moreover have "plain_view base n (bus_write plain_bus w a v d) = plain_view base n d"
    if "outside base n a w" for a w v d
    using that diff [of _ a] assms
    by (auto simp: plain_view_def plain_bus_def outside_def split: if_splits)
  ultimately show ?thesis
    unfolding memory_at_def by (simp add: plain_view_def) (simp add: plain_bus_def)
qed

text \<open>Registers that always read as zero, apart from the memory, do not disturb it.\<close>

definition zero_registers :: "u64 set \<Rightarrow> 'd bus_ops \<Rightarrow> 'd bus_ops" where
  "zero_registers A bus = bus\<lparr>bus_read := \<lambda>w a d. if a \<in> A then (0, d) else bus_read bus w a d\<rparr>"

lemma memory_at_zero_registers:
  assumes "memory_at bus view base n" and "\<forall>k < n. base + of_nat k \<notin> A"
  shows "memory_at (zero_registers A bus) view base n"
proof -
  have "bus_read (zero_registers A bus) w (base + of_nat k) d = bus_read bus w (base + of_nat k) d"
    if "k + w \<le> n" for w k d
    using memory_atD(2) [OF assms(1), of k w d] that assms(2)
    by (cases "w = 0") (auto simp: zero_registers_def)
  then show ?thesis using assms(1)
    unfolding memory_at_def by (auto simp: zero_registers_def)
qed

section \<open>The bit field crate\<close>

definition bit_ops_ok :: "bit_ops \<Rightarrow> bool" where
  "bit_ops_ok b \<longleftrightarrow>
     (\<forall>w x i. i < w \<and> w \<le> 64 \<longrightarrow> bf_get_bit b w x i = Inr (bit x i))
     \<and> (\<forall>w x i v. i < w \<and> w \<le> 64 \<longrightarrow>
          bf_set_bit b w x i v = Inr (if v then set_bit i x else unset_bit i x))
     \<and> (\<forall>w x l h. l < h \<and> h \<le> w \<and> w \<le> 64 \<longrightarrow>
          bf_get_bits b w x l h = Inr (take_bit (h - l) (drop_bit l x)))
     \<and> (\<forall>w x l h v. l < h \<and> h \<le> w \<and> w \<le> 64 \<longrightarrow>
          bf_set_bits b w x l h v
            = (if take_bit (h - l) v = v
               then Inr ((x AND NOT (push_bit l (mask (h - l)))) OR push_bit l v)
               else Inl (Panic AssertFailed)))"

lemma bit_ops_okD:
  assumes "bit_ops_ok b"
  shows "i < w \<Longrightarrow> w \<le> 64 \<Longrightarrow> bf_get_bit b w x i = Inr (bit x i)"
    and "i < w \<Longrightarrow> w \<le> 64 \<Longrightarrow> bf_set_bit b w x i v = Inr (if v then set_bit i x else unset_bit i x)"
    and "l < h \<Longrightarrow> h \<le> w \<Longrightarrow> w \<le> 64 \<Longrightarrow> bf_get_bits b w x l h = Inr (take_bit (h - l) (drop_bit l x))"
    and "l < h \<Longrightarrow> h \<le> w \<Longrightarrow> w \<le> 64 \<Longrightarrow> take_bit (h - l) y = y
      \<Longrightarrow> bf_set_bits b w x l h y = Inr ((x AND NOT (push_bit l (mask (h - l)))) OR push_bit l y)"
  using assms unfolding bit_ops_ok_def by simp_all

definition ref_bit_ops :: bit_ops where
  "ref_bit_ops = \<lparr>
     bf_get_bit = (\<lambda>w x i. if i < w then Inr (bit x i) else Inl (Panic AssertFailed)),
     bf_set_bit = (\<lambda>w x i v. if i < w then Inr (if v then set_bit i x else unset_bit i x)
                             else Inl (Panic AssertFailed)),
     bf_get_bits = (\<lambda>w x l h. if l < h \<and> h \<le> w then Inr (take_bit (h - l) (drop_bit l x))
                              else Inl (Panic AssertFailed)),
     bf_set_bits = (\<lambda>w x l h v.
        if l < h \<and> h \<le> w \<and> take_bit (h - l) v = v
        then Inr ((x AND NOT (push_bit l (mask (h - l)))) OR push_bit l v)
        else Inl (Panic AssertFailed))\<rparr>"

lemma ref_bit_ops_ok: "bit_ops_ok ref_bit_ops"
  by (auto simp: bit_ops_ok_def ref_bit_ops_def)

end
