(* ===== verification/Locks.thy ===== *)
theory Locks
  imports Machine
begin

text \<open>
  The locks of the kernel.

  \<^item> \<^verbatim>\<open>SeqLock\<close> of \<^verbatim>\<open>src/common/mod.rs\<close>: once as operations of a single thread of control, where
    a loop that waits for the counter is given a number of iterations, and once as a step relation
    of any number of threads whose steps are single loads and stores of the counter. The semaphore
    inside is the read-write lock of the \<^verbatim>\<open>spin\<close> crate, a parameter.
  \<^item> \<^verbatim>\<open>IrqGuard\<close>, \<^verbatim>\<open>Mutex\<close> and \<^verbatim>\<open>MutexGuard\<close> of \<^verbatim>\<open>src/drivers/ahci/util/sync.rs\<close>, over the mutex of
    the \<^verbatim>\<open>spin\<close> crate and the interrupt flag.
  \<^item> \<^verbatim>\<open>AtomicCell\<close> of \<^verbatim>\<open>src/common/atomic_cell.rs\<close>, over a heap of boxes.

  Guards that are dropped in the reverse order of their creation restore the interrupt flag and all
  mutexes, and interrupts are off in between. The sequence lock has no code that makes its counter
  even again, so that a guard it gives out waits for itself, and its load and store are not one
  step, so that two threads can both get a guard.
\<close>

section \<open>The sequence lock\<close>

text \<open>\<open>rw_try_write\<close> is one attempt of \<^verbatim>\<open>RwLock::write\<close>.\<close>

record 's rw_ops =
  rw_try_write :: "'s \<Rightarrow> 's option"
  rw_unlock_write :: "'s \<Rightarrow> 's"

record ('a, 's) seqlock =
  sl_lock :: usize
  sl_data :: 'a
  sl_semaphore :: 's

definition counter_odd :: "usize \<Rightarrow> bool" where
  "counter_odd l \<longleftrightarrow> l AND 1 = 1"

definition seqlock_new :: "'a \<Rightarrow> 's \<Rightarrow> ('a, 's) seqlock" where
  "seqlock_new inner sem = \<lparr>sl_lock = 0, sl_data = inner, sl_semaphore = sem\<rparr>"

definition seq_locked :: "(('a, 's) seqlock, bool) act" where
  "seq_locked s = Inr (counter_odd (sl_lock s), s)"

definition seq_store_next :: "(('a, 's) seqlock, unit) act" where
  "seq_store_next s = rbind (add_ck (sl_lock s) 1) (\<lambda>l. Inr ((), s\<lparr>sl_lock := l\<rparr>))"

definition seq_acquire :: "nat \<Rightarrow> (('a, 's) seqlock, unit) act" where
  "seq_acquire fuel = sthen (spin_while fuel seq_locked) seq_store_next"

text \<open>One thread alone cannot see the semaphore change while it waits for it.\<close>

definition seq_semaphore_write :: "'s rw_ops \<Rightarrow> (('a, 's) seqlock, unit) act" where
  "seq_semaphore_write ops s =
     (case rw_try_write ops (sl_semaphore s) of
        None \<Rightarrow> Inl Diverge
      | Some sem \<Rightarrow> Inr ((), s\<lparr>sl_semaphore := sem\<rparr>))"

definition seq_read :: "nat \<Rightarrow> (('a, 's) seqlock, unit) act" where
  "seq_read fuel = seq_acquire fuel"

definition seq_write :: "'s rw_ops \<Rightarrow> nat \<Rightarrow> (('a, 's) seqlock, unit) act" where
  "seq_write ops fuel = sthen (seq_acquire fuel) (seq_semaphore_write ops)"

definition seq_try_read :: "(('a, 's) seqlock, bool) act" where
  "seq_try_read =
     sbind seq_locked (\<lambda>b. if b then ret False else sthen seq_store_next (ret True))"

definition seq_try_write :: "'s rw_ops \<Rightarrow> (('a, 's) seqlock, bool) act" where
  "seq_try_write ops =
     sbind seq_locked (\<lambda>b. if b then ret False
       else sthen seq_store_next (sthen (seq_semaphore_write ops) (ret True)))"

text \<open>\<^verbatim>\<open>deref\<close> of either guard, and \<^verbatim>\<open>deref_mut\<close> followed by an assignment. Dropping a guard leaves the
  counter as it is; that of a writer gives the semaphore free.\<close>

definition seq_deref :: "nat \<Rightarrow> (('a, 's) seqlock, 'a) act" where
  "seq_deref fuel = sthen (spin_while fuel seq_locked) (\<lambda>s. Inr (sl_data s, s))"

definition seq_deref_mut :: "nat \<Rightarrow> 'a \<Rightarrow> (('a, 's) seqlock, unit) act" where
  "seq_deref_mut fuel x = sthen (spin_while fuel seq_locked) (\<lambda>s. Inr ((), s\<lparr>sl_data := x\<rparr>))"

definition seq_drop_write :: "'s rw_ops \<Rightarrow> (('a, 's) seqlock, unit) act" where
  "seq_drop_write ops s = Inr ((), s\<lparr>sl_semaphore := rw_unlock_write ops (sl_semaphore s)\<rparr>)"

definition seq_unlock :: "(('a, 's) seqlock, unit) act" where
  "seq_unlock s = Inr ((), s\<lparr>sl_lock := sl_lock s + 1\<rparr>)"

definition seq_force_unlock :: "(('a, 's) seqlock, unit) act" where
  "seq_force_unlock s = Inr ((), s\<lparr>sl_lock := 0\<rparr>)"

definition seq_into_inner :: "('a, 's) seqlock \<Rightarrow> 'a" where
  "seq_into_inner s = sl_data s"

text \<open>Threads: a thread that has loaded an even counter stores the next number in a step of its
  own. A writer then still has to get the semaphore.\<close>

datatype seq_kind = Reader | Writer

datatype seq_pc = Idle | Loaded seq_kind usize | Waiting | Guarding seq_kind

record 's seq_system =
  sys_lock :: usize
  sys_semaphore :: 's
  sys_pc :: "nat \<Rightarrow> seq_pc"

inductive seq_step :: "'s rw_ops \<Rightarrow> 's seq_system \<Rightarrow> 's seq_system \<Rightarrow> bool" for ops where
  seq_load: "sys_pc s t = Idle \<Longrightarrow> \<not> counter_odd (sys_lock s)
    \<Longrightarrow> seq_step ops s (s\<lparr>sys_pc := (sys_pc s)(t := Loaded k (sys_lock s))\<rparr>)"
| seq_store: "sys_pc s t = Loaded k l
    \<Longrightarrow> seq_step ops s (s\<lparr>sys_lock := l + 1,
          sys_pc := (sys_pc s)(t := (if k = Reader then Guarding Reader else Waiting))\<rparr>)"
| seq_semaphore: "sys_pc s t = Waiting \<Longrightarrow> rw_try_write ops (sys_semaphore s) = Some sem
    \<Longrightarrow> seq_step ops s (s\<lparr>sys_semaphore := sem, sys_pc := (sys_pc s)(t := Guarding Writer)\<rparr>)"
| seq_drop_reader: "sys_pc s t = Guarding Reader
    \<Longrightarrow> seq_step ops s (s\<lparr>sys_pc := (sys_pc s)(t := Idle)\<rparr>)"
| seq_drop_writer: "sys_pc s t = Guarding Writer
    \<Longrightarrow> seq_step ops s (s\<lparr>sys_semaphore := rw_unlock_write ops (sys_semaphore s),
          sys_pc := (sys_pc s)(t := Idle)\<rparr>)"
| seq_unlocked: "seq_step ops s (s\<lparr>sys_lock := sys_lock s + 1\<rparr>)"
| seq_forced: "seq_step ops s (s\<lparr>sys_lock := 0\<rparr>)"

definition seq_start :: "'s \<Rightarrow> 's seq_system" where
  "seq_start sem = \<lparr>sys_lock = 0, sys_semaphore = sem, sys_pc = (\<lambda>_. Idle)\<rparr>"

section \<open>Guards\<close>

record 's mutex_ops =
  mx_try_lock :: "'s \<Rightarrow> 's option"
  mx_unlock :: "'s \<Rightarrow> 's"

record 's cpu =
  int_flag :: bool
  mutexes :: "nat \<Rightarrow> 's"

definition is_enabled :: "'s cpu \<Rightarrow> bool" where
  "is_enabled c = int_flag c"

definition cpu_disable_interrupts :: "'s cpu \<Rightarrow> 's cpu" where
  "cpu_disable_interrupts c = c\<lparr>int_flag := False\<rparr>"

definition cpu_enable_interrupts :: "'s cpu \<Rightarrow> 's cpu" where
  "cpu_enable_interrupts c = c\<lparr>int_flag := True\<rparr>"

datatype guard = IrqGuard bool | MutexGuard nat bool

definition irq_guard_new :: "'s cpu \<Rightarrow> guard \<times> 's cpu" where
  "irq_guard_new c = (IrqGuard (is_enabled c), cpu_disable_interrupts c)"

definition spin_lock :: "'s mutex_ops \<Rightarrow> nat \<Rightarrow> 's cpu \<Rightarrow> 's cpu exec" where
  "spin_lock ops m c =
     (case mx_try_lock ops (mutexes c m) of
        None \<Rightarrow> Inl Diverge
      | Some s \<Rightarrow> Inr (c\<lparr>mutexes := (mutexes c)(m := s)\<rparr>))"

definition mutex_lock :: "'s mutex_ops \<Rightarrow> nat \<Rightarrow> 's cpu \<Rightarrow> (guard \<times> 's cpu) exec" where
  "mutex_lock ops m c = rbind (spin_lock ops m c) (\<lambda>c. Inr (MutexGuard m False, c))"

definition mutex_lock_irq :: "'s mutex_ops \<Rightarrow> nat \<Rightarrow> 's cpu \<Rightarrow> (guard \<times> 's cpu) exec" where
  "mutex_lock_irq ops m c =
     (let irq_lock = is_enabled c in
      rbind (spin_lock ops m (cpu_disable_interrupts c)) (\<lambda>c. Inr (MutexGuard m irq_lock, c)))"

definition mutex_force_unlock :: "'s mutex_ops \<Rightarrow> nat \<Rightarrow> 's cpu \<Rightarrow> 's cpu" where
  "mutex_force_unlock ops m c = c\<lparr>mutexes := (mutexes c)(m := mx_unlock ops (mutexes c m))\<rparr>"

fun guard_drop :: "'s mutex_ops \<Rightarrow> guard \<Rightarrow> 's cpu \<Rightarrow> 's cpu" where
  "guard_drop ops (IrqGuard locked) c = (if locked then cpu_enable_interrupts c else c)"
| "guard_drop ops (MutexGuard m irq_lock) c =
     (let c = mutex_force_unlock ops m c in if irq_lock then cpu_enable_interrupts c else c)"

text \<open>Nested scopes: the guards of \<open>reqs\<close> are taken in order around \<open>body\<close> and dropped in reverse.\<close>

datatype guard_request = WantIrq | WantLock nat | WantLockIrq nat

fun take_guard :: "'s mutex_ops \<Rightarrow> guard_request \<Rightarrow> 's cpu \<Rightarrow> (guard \<times> 's cpu) exec" where
  "take_guard ops WantIrq c = Inr (irq_guard_new c)"
| "take_guard ops (WantLock m) c = mutex_lock ops m c"
| "take_guard ops (WantLockIrq m) c = mutex_lock_irq ops m c"

fun with_guards ::
  "'s mutex_ops \<Rightarrow> guard_request list \<Rightarrow> ('s cpu \<Rightarrow> ('r \<times> 's cpu) exec) \<Rightarrow> 's cpu \<Rightarrow> ('r \<times> 's cpu) exec" where
  "with_guards ops [] body c = body c"
| "with_guards ops (r # rs) body c =
     rbind (take_guard ops r c) (\<lambda>(g, c).
     rbind (with_guards ops rs body c) (\<lambda>(x, c). Inr (x, guard_drop ops g c)))"

section \<open>Atomic cells\<close>

text \<open>A cell holds a pointer, to a box or, as \<^verbatim>\<open>new\<close> makes it, to a local variable that is gone when
  \<^verbatim>\<open>new\<close> returns. Using such a pointer is undefined, which is the result \<open>None\<close>. Boxes are never
  freed here, so the next box is at an address not used so far.\<close>

datatype cell_ptr = Boxed nat | Local

record 'a cell_heap =
  boxes :: "nat \<Rightarrow> 'a option"
  next_box :: nat

definition box_new :: "'a \<Rightarrow> 'a cell_heap \<Rightarrow> cell_ptr \<times> 'a cell_heap" where
  "box_new x h = (Boxed (next_box h), \<lparr>boxes = (boxes h)(next_box h \<mapsto> x), next_box = next_box h + 1\<rparr>)"

definition cell_new ::
  "'m page_ops \<Rightarrow> page_flags \<Rightarrow> u64 \<Rightarrow> 'm kmem \<Rightarrow> (cell_ptr \<times> 'm kmem) exec" where
  "cell_new ops fl addr_of_data km =
     rbind (virt_new ops addr_of_data) (\<lambda>a.
     rbind (map_page ops addr_of_data (page_of ops a) (default_flags fl) km) (\<lambda>km. Inr (Local, km)))"

fun cell_get :: "cell_ptr \<Rightarrow> 'a cell_heap \<Rightarrow> 'a option" where
  "cell_get (Boxed p) h = boxes h p"
| "cell_get Local h = None"

fun cell_set :: "'a \<Rightarrow> cell_ptr \<Rightarrow> 'a cell_heap \<Rightarrow> 'a cell_heap option" where
  "cell_set x (Boxed p) h = (if boxes h p = None then None else Some (h\<lparr>boxes := (boxes h)(p \<mapsto> x)\<rparr>))"
| "cell_set x Local h = None"

definition cell_swap :: "'a \<Rightarrow> cell_ptr \<Rightarrow> 'a cell_heap \<Rightarrow> cell_ptr \<times> cell_ptr \<times> 'a cell_heap" where
  "cell_swap x c h = (case box_new x h of (p, h) \<Rightarrow> (c, p, h))"

text \<open>The result, \<open>Inr\<close> for \<^verbatim>\<open>Ok\<close>, the cell and the heap. The weak variant may also fail spuriously.\<close>

definition cell_compare_exchange ::
  "'a \<Rightarrow> 'a \<Rightarrow> cell_ptr \<Rightarrow> 'a cell_heap \<Rightarrow> (cell_ptr + cell_ptr) \<times> cell_ptr \<times> 'a cell_heap" where
  "cell_compare_exchange current new c h =
     (case box_new current h of (cur, h) \<Rightarrow>
      case box_new new h of (p, h) \<Rightarrow>
        if c = cur then (Inr cur, p, h) else (Inl p, c, h))"

definition cell_compare_exchange_weak ::
  "bool \<Rightarrow> 'a \<Rightarrow> 'a \<Rightarrow> cell_ptr \<Rightarrow> 'a cell_heap \<Rightarrow> (cell_ptr + cell_ptr) \<times> cell_ptr \<times> 'a cell_heap" where
  "cell_compare_exchange_weak spurious current new c h =
     (case box_new current h of (cur, h) \<Rightarrow>
      case box_new new h of (p, h) \<Rightarrow>
        if c = cur \<and> \<not> spurious then (Inr cur, p, h) else (Inl p, c, h))"

definition cell_drop :: "'m page_ops \<Rightarrow> u64 \<Rightarrow> 'm kmem \<Rightarrow> 'm kmem exec" where
  "cell_drop ops addr_of_cell km =
     rbind (virt_new ops addr_of_cell) (\<lambda>a. unmap_page ops (page_of ops a) km)"

section \<open>Lemmas\<close>

text \<open>Every box in use lies below the next one.\<close>

definition cell_ok :: "cell_ptr \<Rightarrow> 'a cell_heap \<Rightarrow> bool" where
  "cell_ok c h \<longleftrightarrow> (\<forall>p. boxes h p \<noteq> None \<longrightarrow> p < next_box h) \<and> (\<forall>p. c = Boxed p \<longrightarrow> boxes h p \<noteq> None)"

lemma cell_swap_ok: "cell_ok c h \<Longrightarrow> cell_swap x c h = (old, c', h') \<Longrightarrow> cell_ok c' h'"
  by (auto simp: cell_ok_def cell_swap_def box_new_def less_Suc_eq split: if_splits)

lemma cell_set_ok: "cell_ok c h \<Longrightarrow> cell_set x c h = Some h' \<Longrightarrow> cell_ok c h'"
  by (cases c) (auto simp: cell_ok_def split: if_splits)

lemma counter_odd_iff: "counter_odd l \<longleftrightarrow> odd l"
  by (simp add: counter_odd_def and_one_eq odd_iff_mod_2_eq_one)

lemma counter_flips [simp]: "counter_odd (l + 1) \<longleftrightarrow> \<not> counter_odd l"
  by (simp add: counter_odd_iff)

lemma even_counter_next:
  assumes "\<not> counter_odd l"
  shows "add_ck l 1 = Inr (l + 1)"
proof -
  have "bit (unat l) 0 = bit l 0" by (simp only: bit_unsigned_iff) simp
  then have "even (unat l)" using assms by (simp add: bit_0 counter_odd_iff)
  then have "unat l \<noteq> 2 ^ 64 - 1" by auto
  then show ?thesis using unat_lt_2p [of l] by (simp add: add_ck_def)
qed

lemma spin_while_odd:
  "spin_while n seq_locked s = (if n = 0 \<or> counter_odd (sl_lock s) then Inl Diverge else Inr ((), s))"
  by (induction n) (auto simp: act_simps seq_locked_def)

lemma seq_acquire_run:
  "seq_acquire n s = (if n = 0 \<or> counter_odd (sl_lock s) then Inl Diverge
     else Inr ((), s\<lparr>sl_lock := sl_lock s + 1\<rparr>))"
  by (simp add: seq_acquire_def act_simps spin_while_odd seq_store_next_def even_counter_next)

lemma seq_deref_run:
  "seq_deref n s = (if n = 0 \<or> counter_odd (sl_lock s) then Inl Diverge else Inr (sl_data s, s))"
  "seq_deref_mut n x s = (if n = 0 \<or> counter_odd (sl_lock s) then Inl Diverge else Inr ((), s\<lparr>sl_data := x\<rparr>))"
  by (simp_all add: seq_deref_def seq_deref_mut_def act_simps spin_while_odd)

lemmas seq_runs = seq_read_def seq_write_def seq_acquire_run seq_deref_run seq_semaphore_write_def
  seq_unlock_def seq_drop_write_def

text \<open>What the \<^verbatim>\<open>spin\<close> crate promises: dropping the guard of a mutex undoes locking it.\<close>

definition mutex_ops_ok :: "'s mutex_ops \<Rightarrow> bool" where
  "mutex_ops_ok ops \<longleftrightarrow> (\<forall>s s'. mx_try_lock ops s = Some s' \<longrightarrow> mx_unlock ops s' = s)"

fun wanted :: "guard_request list \<Rightarrow> nat list" where
  "wanted [] = []"
| "wanted (WantIrq # rs) = wanted rs"
| "wanted (WantLock m # rs) = m # wanted rs"
| "wanted (WantLockIrq m # rs) = m # wanted rs"

fun masks_irq :: "guard_request \<Rightarrow> bool" where
  "masks_irq (WantLock m) \<longleftrightarrow> False"
| "masks_irq r \<longleftrightarrow> True"

definition inside :: "'s mutex_ops \<Rightarrow> guard_request list \<Rightarrow> 's cpu \<Rightarrow> 's cpu" where
  "inside ops rs c =
     \<lparr>int_flag = (int_flag c \<and> \<not> list_ex masks_irq rs),
      mutexes = (\<lambda>m. if m \<in> set (wanted rs) then the (mx_try_lock ops (mutexes c m)) else mutexes c m)\<rparr>"

lemma cpu_eqI: "int_flag a = int_flag b \<Longrightarrow> mutexes a = mutexes b \<Longrightarrow> a = (b :: 's cpu)"
  by simp

text \<open>Taking one guard, and dropping it again around anything that restores the processor.\<close>

lemma take_guard_run:
  assumes "mutex_ops_ok ops" and "\<forall>m \<in> set (wanted [r]). mx_try_lock ops (mutexes c m) \<noteq> None"
  shows "\<exists>g. take_guard ops r c = Inr (g, inside ops [r] c) \<and> guard_drop ops g (inside ops [r] c) = c"
  using assms
  by (cases r) (auto simp: inside_def mutex_lock_def mutex_lock_irq_def spin_lock_def irq_guard_new_def
      mutex_force_unlock_def cpu_enable_interrupts_def cpu_disable_interrupts_def is_enabled_def mutex_ops_ok_def
      Let_def fun_eq_iff split: option.splits intro!: cpu_eqI)

lemma inside_Cons:
  assumes "distinct (wanted (r # rs))"
  shows "inside ops rs (inside ops [r] c) = inside ops (r # rs) c"
  using assms by (cases r) (auto simp: inside_def intro!: cpu_eqI)

section \<open>Properties\<close>

text \<open>C29. Guards taken in nested scopes, over different mutexes that are free: inside, interrupts are
  off if any of them masks them and every mutex is held; after the scopes the interrupt flag and
  all mutexes are what they were.\<close>

theorem guards_restore_processor:
  assumes "mutex_ops_ok ops" and "distinct (wanted rs)"
    and "\<forall>m \<in> set (wanted rs). mx_try_lock ops (mutexes c m) \<noteq> None"
  shows "with_guards ops rs (\<lambda>c. Inr (f c, c)) c = Inr (f (inside ops rs c), c)"
  using assms(2,3)
proof (induction rs arbitrary: c)
  case Nil
  have "inside ops [] c = c" by (simp add: inside_def)
  then show ?case by simp
next
  case (Cons r rs)
  obtain g where g: "take_guard ops r c = Inr (g, inside ops [r] c)" "guard_drop ops g (inside ops [r] c) = c"
    using take_guard_run [OF assms(1), of r c] Cons.prems(2) by (cases r) auto
  have "\<forall>m \<in> set (wanted rs). mutexes (inside ops [r] c) m = mutexes c m"
    using Cons.prems(1) by (cases r) (auto simp: inside_def)
  then have "with_guards ops rs (\<lambda>c. Inr (f c, c)) (inside ops [r] c)
      = Inr (f (inside ops (r # rs) c), inside ops [r] c)"
    unfolding inside_Cons [OF Cons.prems(1), of ops c, symmetric]
    using Cons.IH [of "inside ops [r] c"] Cons.prems by (cases r) auto
  then show ?case using g by simp
qed

definition flag_mutex :: "bool mutex_ops" where
  "flag_mutex = \<lparr>mx_try_lock = (\<lambda>held. if held then None else Some True), mx_unlock = (\<lambda>_. False)\<rparr>"

theorem guards_restore_processor_witness:
  "with_guards flag_mutex [WantLock 1, WantLockIrq 2, WantIrq]
     (\<lambda>c. Inr ((int_flag c, mutexes c 1, mutexes c 2, mutexes c 3), c)) \<lparr>int_flag = True, mutexes = (\<lambda>_. False)\<rparr>
   = Inr ((False, True, True, False), \<lparr>int_flag = True, mutexes = (\<lambda>_. False)\<rparr>)"
proof -
  have "mutex_ops_ok flag_mutex" by (auto simp: mutex_ops_ok_def flag_mutex_def)
  from guards_restore_processor [OF this, of "[WantLock 1, WantLockIrq 2, WantIrq]"
      "\<lparr>int_flag = True, mutexes = (\<lambda>_. False)\<rparr>" "\<lambda>c. (int_flag c, mutexes c 1, mutexes c 2, mutexes c 3)"]
  show ?thesis by (simp add: flag_mutex_def inside_def)
qed

text \<open>A guard of the sequence lock never gives access to the data: reading or writing and then
  using the guard waits forever, whatever the lock held before and however long one waits.\<close>

theorem seqlock_guard_waits_forever:
  "sthen (seq_read n) (seq_deref k) s = Inl Diverge
   \<and> sthen (seq_write ops n) (seq_deref_mut k x) s = Inl Diverge"
  by (simp add: act_simps seq_runs split: option.splits)

text \<open>With \<^verbatim>\<open>unlock\<close> called before every use of a guard, what a writer stores is what the next
  reader gets, also when the counter wraps around.\<close>

theorem seqlock_reads_last_write:
  assumes "\<not> counter_odd (sl_lock s)" and "rw_try_write ops (sl_semaphore s) = Some sem"
    and "rw_unlock_write ops sem = sl_semaphore s"
  shows "sthen (seq_write ops (Suc n)) (sthen seq_unlock (sthen (seq_deref_mut (Suc k) x)
       (sthen (seq_drop_write ops) (sthen (seq_read (Suc m)) (sthen seq_unlock (seq_deref (Suc j))))))) s
     = Inr (x, s\<lparr>sl_lock := sl_lock s + 4, sl_data := x\<rparr>)"
proof -
  have "counter_odd (2 + sl_lock s) = counter_odd (sl_lock s)" "counter_odd (3 + sl_lock s) = (\<not> counter_odd (sl_lock s))"
    by (simp_all add: counter_odd_iff)
  then show ?thesis using assms by (simp add: act_simps seq_runs)
qed

theorem seqlock_reads_last_write_witness:
  "sthen (seq_write \<lparr>rw_try_write = (\<lambda>b. if b then None else Some True), rw_unlock_write = (\<lambda>_. False)\<rparr> 1)
     (sthen seq_unlock (sthen (seq_deref_mut 1 7)
       (sthen (seq_drop_write \<lparr>rw_try_write = (\<lambda>b. if b then None else Some True), rw_unlock_write = (\<lambda>_. False)\<rparr>)
         (sthen (seq_read 1) (sthen seq_unlock (seq_deref 1))))))
     \<lparr>sl_lock = - 2, sl_data = 5, sl_semaphore = False\<rparr>
   = Inr (7 :: nat, \<lparr>sl_lock = 2, sl_data = 7, sl_semaphore = False\<rparr>)"
  using seqlock_reads_last_write [of "\<lparr>sl_lock = - 2, sl_data = 5 :: nat, sl_semaphore = False\<rparr>"
      "\<lparr>rw_try_write = (\<lambda>b. if b then None else Some True), rw_unlock_write = (\<lambda>_. False)\<rparr>" True 0 0 7 0 0]
  by (simp add: counter_odd_iff)

text \<open>The sequence lock is not exclusive: a writer and a reader can hold guards at the same time,
  with a counter that lets both use them, because loading and storing the counter are two steps.\<close>

theorem seqlock_not_exclusive:
  assumes "rw_try_write ops sem = Some sem'"
  shows "\<exists>s. (seq_step ops)\<^sup>*\<^sup>* (seq_start sem) s
    \<and> sys_pc s 0 = Guarding Writer \<and> sys_pc s 1 = Guarding Reader \<and> \<not> counter_odd (sys_lock s)"
proof -
  let ?s1 = "seq_start sem\<lparr>sys_pc := (\<lambda>_. Idle)(0 := Loaded Writer 0)\<rparr>"
  let ?s2 = "?s1\<lparr>sys_pc := (\<lambda>_. Idle)(0 := Loaded Writer 0, 1 := Loaded Reader 0)\<rparr>"
  let ?s3 = "?s2\<lparr>sys_lock := 1, sys_pc := (\<lambda>_. Idle)(0 := Waiting, 1 := Loaded Reader 0)\<rparr>"
  let ?s4 = "?s3\<lparr>sys_lock := 1, sys_pc := (\<lambda>_. Idle)(0 := Waiting, 1 := Guarding Reader)\<rparr>"
  let ?s5 = "?s4\<lparr>sys_semaphore := sem', sys_pc := (\<lambda>_. Idle)(0 := Guarding Writer, 1 := Guarding Reader)\<rparr>"
  have "seq_step ops (seq_start sem) ?s1"
    using seq_load [of "seq_start sem" 0 ops Writer] by (simp add: seq_start_def counter_odd_iff)
  moreover have "seq_step ops ?s1 ?s2"
    using seq_load [of ?s1 1 ops Reader] by (simp add: seq_start_def counter_odd_iff)
  moreover have "seq_step ops ?s2 ?s3"
    using seq_store [of ?s2 0 Writer 0 ops] by (simp add: seq_start_def fun_upd_twist)
  moreover have "seq_step ops ?s3 ?s4"
    using seq_store [of ?s3 1 Reader 0 ops] by (simp add: seq_start_def)
  moreover have "seq_step ops ?s4 ?s5"
    using seq_semaphore [of ?s4 0 ops sem'] assms by (simp add: seq_start_def fun_upd_twist)
  moreover have "seq_step ops ?s5 (?s5\<lparr>sys_lock := sys_lock ?s5 + 1\<rparr>)" by (rule seq_unlocked)
  ultimately have "(seq_step ops)\<^sup>*\<^sup>* (seq_start sem) (?s5\<lparr>sys_lock := sys_lock ?s5 + 1\<rparr>)"
    by (meson converse_rtranclp_into_rtranclp rtranclp.rtrancl_refl)
  moreover have "\<not> counter_odd (sys_lock (?s5\<lparr>sys_lock := sys_lock ?s5 + 1\<rparr>))" by (simp add: counter_odd_iff)
  ultimately show ?thesis by (intro exI [of _ "?s5\<lparr>sys_lock := sys_lock ?s5 + 1\<rparr>"]) simp
qed

theorem seqlock_not_exclusive_witness:
  "\<exists>s. (seq_step \<lparr>rw_try_write = (\<lambda>b. if b then None else Some True), rw_unlock_write = (\<lambda>_. False)\<rparr>)\<^sup>*\<^sup>*
       (seq_start False) s
     \<and> sys_pc s 0 = Guarding Writer \<and> sys_pc s 1 = Guarding Reader \<and> \<not> counter_odd (sys_lock s)"
  by (rule seqlock_not_exclusive [of _ _ True]) simp

text \<open>A compare and exchange on a cell never succeeds, because it compares the cell with the
  address of a box it has just made; it keeps the cell and its contents. A swap installs what it
  is given and returns the old pointer.\<close>

theorem cell_compare_exchange_fails:
  assumes "cell_ok c h"
  shows "\<exists>p h'. cell_compare_exchange current new c h = (Inl p, c, h') \<and> cell_get c h' = cell_get c h
      \<and> cell_ok c h'"
    and "\<exists>c' h'. cell_swap new c h = (c, c', h') \<and> cell_get c' h' = Some new \<and> cell_ok c' h'"
  using assms
  by (cases c; auto simp: cell_compare_exchange_def cell_swap_def box_new_def cell_ok_def less_Suc_eq split: if_splits)+

end
