(* ===== verification/Bitmap.thy ===== *)
theory Bitmap
  imports Machine
begin

text \<open>
  The bitmap of \<^verbatim>\<open>src/drivers/pci_impl.rs\<close>: a vector of 64-bit blocks. A bitmap denotes the set of
  its set bits (\<open>bits_of\<close>); the locale \<open>bit_set\<close> is what a client may rely on, and the interpretation
  \<open>bitmap\<close> shows that \<^verbatim>\<open>set\<close> and \<^verbatim>\<open>is_set\<close> provide it inside the bitmap. \<^verbatim>\<open>find_first_set\<close> returns the
  least element; \<^verbatim>\<open>find_first_unset\<close> looks at the first block only.

  The two searches count while they shift a block; the number of iterations is bounded by an
  argument, and 65 always suffice because a block becomes zero after 64 shifts.
\<close>

section \<open>Definitions\<close>

type_synonym bitmap_blocks = "u64 list"

definition BLOCK_BITS :: nat where
  "BLOCK_BITS = 64"

definition calculate_blocks :: "nat \<Rightarrow> nat" where
  "calculate_blocks bits = (if bits mod BLOCK_BITS = 0 then bits div BLOCK_BITS else bits div BLOCK_BITS + 1)"

definition bitmap_new_in :: "nat \<Rightarrow> bitmap_blocks" where
  "bitmap_new_in size_bits = replicate (calculate_blocks size_bits) 0"

definition bitmap_empty_in :: bitmap_blocks where
  "bitmap_empty_in = []"

definition bitmap_set :: "bit_ops \<Rightarrow> bitmap_blocks \<Rightarrow> nat \<Rightarrow> bool \<Rightarrow> bitmap_blocks exec" where
  "bitmap_set ops bm bit_idx yes =
     (let block_idx = bit_idx div BLOCK_BITS; mod_bit_idx = bit_idx mod BLOCK_BITS in
      if block_idx < length bm
      then rbind (bf_set_bit ops 64 (bm ! block_idx) mod_bit_idx yes) (\<lambda>n. Inr (bm[block_idx := n]))
      else Inr bm)"

definition bitmap_is_set :: "bit_ops \<Rightarrow> bitmap_blocks \<Rightarrow> nat \<Rightarrow> bool exec" where
  "bitmap_is_set ops bm bit_idx =
     (let block_idx = bit_idx div BLOCK_BITS; mod_bit_idx = bit_idx mod BLOCK_BITS in
      rbind (slice_get bm block_idx) (\<lambda>n. bf_get_bit ops 64 n mod_bit_idx))"

text \<open>The inner loops: shift the block while its lowest bit is \<open>b\<close>, and count.\<close>

fun count_while :: "bit_ops \<Rightarrow> bool \<Rightarrow> nat \<Rightarrow> u64 \<Rightarrow> nat \<Rightarrow> nat exec" where
  "count_while ops b 0 v n = Inl Diverge"
| "count_while ops b (Suc fuel) v n =
     rbind (bf_get_bit ops 64 v 0) (\<lambda>x.
       if x = b then count_while ops b fuel (drop_bit 1 v) (n + 1) else Inr n)"

definition unset_in_block :: "bit_ops \<Rightarrow> nat \<times> u64 \<Rightarrow> nat exec" where
  "unset_in_block ops p =
     (case p of (i, block) \<Rightarrow>
      if block = 0 then Inr (i * BLOCK_BITS)
      else rbind (count_while ops True 65 block 0) (\<lambda>n. Inr (i * BLOCK_BITS + n)))"

text \<open>The iterator is lazy, and \<^verbatim>\<open>nth(0)\<close> asks for its first element only.\<close>

definition find_first_unset :: "bit_ops \<Rightarrow> bitmap_blocks \<Rightarrow> nat option exec" where
  "find_first_unset ops bm =
     (case enumerate 0 bm of
        [] \<Rightarrow> Inr None
      | p # ps \<Rightarrow> rbind (unset_in_block ops p) (\<lambda>n. Inr (Some n)))"

fun first_set_loop :: "bit_ops \<Rightarrow> (nat \<times> u64) list \<Rightarrow> nat option exec" where
  "first_set_loop ops [] = Inr None"
| "first_set_loop ops ((i, block) # ps) =
     (if block \<noteq> 0
      then rbind (count_while ops False 65 block 0) (\<lambda>n. Inr (Some (i * BLOCK_BITS + n)))
      else first_set_loop ops ps)"

definition find_first_set :: "bit_ops \<Rightarrow> bitmap_blocks \<Rightarrow> nat option exec" where
  "find_first_set ops bm = first_set_loop ops (enumerate 0 bm)"

section \<open>The set a bitmap denotes\<close>

definition bits_of :: "bitmap_blocks \<Rightarrow> nat set" where
  "bits_of bm = {i. i < 64 * length bm \<and> bit (bm ! (i div 64)) (i mod 64)}"

text \<open>A set of numbers below a bound, changed and asked one number at a time.\<close>

locale bit_set =
  fixes put :: "'b \<Rightarrow> nat \<Rightarrow> bool \<Rightarrow> 'b exec"
    and get :: "'b \<Rightarrow> nat \<Rightarrow> bool exec"
    and elems :: "'b \<Rightarrow> nat set"
    and bound :: "'b \<Rightarrow> nat"
  assumes put_ok: "i < bound b \<Longrightarrow> \<exists>b'. put b i yes = Inr b' \<and> bound b' = bound b
      \<and> elems b' = (if yes then insert i (elems b) else elems b - {i})"
    and get_ok: "i < bound b \<Longrightarrow> get b i = Inr (i \<in> elems b)"
begin

lemma get_put:
  assumes "i < bound b" and "j < bound b"
  shows "rbind (put b i yes) (\<lambda>b'. get b' j) = Inr (if j = i then yes else j \<in> elems b)"
proof -
  obtain b' where "put b i yes = Inr b'" "bound b' = bound b"
    "elems b' = (if yes then insert i (elems b) else elems b - {i})"
    using put_ok [OF assms(1)] by blast
  then show ?thesis using get_ok [of j b'] assms(2) by auto
qed

lemma put_all:
  assumes "\<forall>i \<in> set is. i < bound b"
  shows "\<exists>b'. for_each (\<lambda>i b. put b i True) is b = Inr b' \<and> bound b' = bound b
    \<and> elems b' = elems b \<union> set is"
  using assms
proof (induction "is" arbitrary: b)
  case (Cons i "is")
  then obtain b1 where "put b i True = Inr b1" "bound b1 = bound b" "elems b1 = insert i (elems b)"
    using put_ok [of i b True] by auto
  with Cons.IH [of b1] Cons.prems show ?case by auto
qed simp

end

definition bitmap_bound :: "bit_ops \<Rightarrow> bitmap_blocks \<Rightarrow> nat" where
  "bitmap_bound ops bm = (if bit_ops_ok ops then 64 * length bm else 0)"

lemma index_eq_iff: "i div 64 = j div 64 \<and> i mod 64 = j mod 64 \<longleftrightarrow> i = (j :: nat)"
  by (metis div_mult_mod_eq)

lemma bits_of_update:
  fixes yes :: bool
  assumes "i < 64 * length bm"
  defines "n \<equiv> (if yes then set_bit else unset_bit) (i mod 64) (bm ! (i div 64))"
  shows "bits_of (bm[i div 64 := n]) = (if yes then insert i (bits_of bm) else bits_of bm - {i})"
proof -
  have "j \<in> bits_of (bm[i div 64 := n]) \<longleftrightarrow> j \<in> (if yes then insert i (bits_of bm) else bits_of bm - {i})"
    for j
  proof (cases "j div 64 = i div 64")
    case True
    then have "j mod 64 = i mod 64 \<longleftrightarrow> j = i" using index_eq_iff [of j i] by blast
    moreover have "i div 64 < length bm" using assms(1) by (simp add: less_mult_imp_div_less)
    moreover from this True have "j < 64 * length bm" by (metis div_less_iff_less_mult mult.commute zero_less_numeral)
    moreover have "j mod 64 < 64" by simp
    ultimately show ?thesis
      using True by (simp add: bits_of_def n_def bit_set_bit_iff bit_unset_bit_iff) metis
  next
    case False
    then show ?thesis using assms(1) by (auto simp: bits_of_def)
  qed
  then show ?thesis by blast
qed

interpretation bitmap: bit_set "bitmap_set ops" "bitmap_is_set ops" bits_of "bitmap_bound ops" for ops
proof unfold_locales
  fix i b yes
  assume i: "i < bitmap_bound ops b"
  then have ops: "bit_ops_ok ops" and lt: "i < 64 * length b"
    by (auto simp: bitmap_bound_def split: if_splits)
  then have "bitmap_set ops b i yes
      = Inr (b[i div 64 := (if yes then set_bit else unset_bit) (i mod 64) (b ! (i div 64))])"
    by (simp add: bitmap_set_def BLOCK_BITS_def bit_ops_okD(2) [OF ops] Let_def less_mult_imp_div_less)
  then show "\<exists>b'. bitmap_set ops b i yes = Inr b' \<and> bitmap_bound ops b' = bitmap_bound ops b
      \<and> bits_of b' = (if yes then insert i (bits_of b) else bits_of b - {i})"
    using bits_of_update [OF lt] by (simp add: bitmap_bound_def)
next
  fix i b
  assume "i < bitmap_bound ops b"
  then have ops: "bit_ops_ok ops" and lt: "i < 64 * length b"
    by (auto simp: bitmap_bound_def split: if_splits)
  then show "bitmap_is_set ops b i = Inr (i \<in> bits_of b)"
    by (simp add: bitmap_is_set_def BLOCK_BITS_def slice_get_def bit_ops_okD(1) [OF ops] Let_def
        bits_of_def less_mult_imp_div_less)
qed

lemma count_while_run:
  assumes ops: "bit_ops_ok ops" and "\<forall>j < k. bit v j = b" and "bit v k \<noteq> b" and "k < fuel"
  shows "count_while ops b fuel v n = Inr (n + k)"
  using assms(2-)
proof (induction k arbitrary: fuel v n)
  case 0
  then obtain f where "fuel = Suc f" by (cases fuel) auto
  with 0 show ?case by (simp add: bit_ops_okD(1) [OF ops])
next
  case (Suc k)
  then obtain f where f: "fuel = Suc f" by (cases fuel) auto
  have "count_while ops b f (drop_bit 1 v) (n + 1) = Inr (n + 1 + k)"
    using Suc.prems f by (intro Suc.IH) (auto simp: bit_drop_bit_eq)
  moreover have "bit v 0 = b" using Suc.prems(1) by blast
  ultimately show ?case using f by (simp add: bit_ops_okD(1) [OF ops])
qed

lemma count_while_least:
  assumes ops: "bit_ops_ok ops" and ex: "\<exists>k \<le> 64. bit v k \<noteq> b"
  shows "count_while ops b 65 v 0 = Inr (LEAST k. bit v k \<noteq> b)"
proof -
  let ?k = "LEAST k. bit v k \<noteq> b"
  from ex obtain k where k: "k \<le> 64" "bit v k \<noteq> b" by blast
  have least: "bit v ?k \<noteq> b" by (rule LeastI [of _ k]) (rule k(2))
  have "?k \<le> k" by (rule Least_le) (rule k(2))
  then have le: "?k < 65" using k(1) by linarith
  have below: "\<forall>j < ?k. bit v j = b" using not_less_Least by blast
  have "count_while ops b 65 v 0 = Inr (0 + ?k)" by (rule count_while_run [OF ops below least le])
  then show ?thesis by (simp only: add_0)
qed

section \<open>Searching\<close>

lemma bits_of_Nil [simp]: "bits_of [] = {}"
  by (simp add: bits_of_def)

lemma bits_of_Cons: "bits_of (b # bm) = {i. bit b i} \<union> (+) 64 ` bits_of bm"
proof -
  have "i \<in> bits_of (b # bm) \<longleftrightarrow> i \<in> {i. bit b i} \<union> (+) 64 ` bits_of bm" for i
  proof (cases "i < 64")
    case False
    then obtain j where j: "i = 64 + j" by (metis le_add_diff_inverse not_less)
    moreover have "\<not> bit b i" using False bit_imp_le_length [of b i] by auto
    moreover have "(64 + j) div 64 - Suc 0 = j div 64" by simp
    ultimately show ?thesis by (auto simp: bits_of_def image_iff simp del: div_add_self1 div_add_self2)
  qed (auto simp: bits_of_def)
  then show ?thesis by blast
qed

lemma first_set_loop_run:
  assumes ops: "bit_ops_ok ops"
  shows "first_set_loop ops (enumerate k bm)
    = Inr (if bits_of bm = {} then None else Some (64 * k + (LEAST i. i \<in> bits_of bm)))"
proof (induction bm arbitrary: k)
  case (Cons b bm)
  show ?case
  proof (cases "b = 0")
    case True
    then have eq: "bits_of (0 # bm) = (+) 64 ` bits_of bm" by (simp add: bits_of_Cons)
    have "(LEAST i. i \<in> (+) 64 ` S) = 64 + (LEAST i. i \<in> S)" if "S \<noteq> {}" for S :: "nat set"
      using that by (intro Least_equality) (auto intro: LeastI Least_le)
    then show ?thesis using True Cons [of "Suc k"] by (auto simp: eq)
  next
    case False
    then obtain j where j: "bit b j" by (auto simp: bit_eq_iff)
    have lt: "i < 64" if "bit b i" for i using that bit_imp_le_length [of b i] by simp
    have "(LEAST i. i \<in> bits_of (b # bm)) = (LEAST i. bit b i)"
      using j lt [OF LeastI [of "bit b", OF j]]
      by (intro Least_equality) (auto simp: bits_of_Cons intro: LeastI [of "bit b"] Least_le)
    moreover have "count_while ops False 65 b 0 = Inr (LEAST i. bit b i)"
      using count_while_least [OF ops, of b False] j lt [OF j] by (auto intro: less_imp_le)
    moreover have "bits_of (b # bm) \<noteq> {}" using j by (auto simp: bits_of_Cons)
    ultimately show ?thesis using False by (simp add: BLOCK_BITS_def mult.commute)
  qed
qed simp

section \<open>Properties\<close>

text \<open>C17. A bitmap implements a set of numbers: \<^verbatim>\<open>set\<close> inserts or removes one, \<^verbatim>\<open>is_set\<close> is membership, a new
  bitmap is empty and has room for the bits asked for; beyond the end \<^verbatim>\<open>set\<close> does nothing and \<^verbatim>\<open>is_set\<close>
  panics.\<close>

theorem bitmap_refines_set:
  assumes ops: "bit_ops_ok ops" and i: "i < 64 * length bm" and j: "64 * length bm \<le> j"
  shows "(\<exists>bm'. bitmap_set ops bm i yes = Inr bm' \<and> length bm' = length bm
        \<and> bits_of bm' = (if yes then insert i (bits_of bm) else bits_of bm - {i}))
    \<and> bitmap_is_set ops bm i = Inr (i \<in> bits_of bm)
    \<and> bits_of (bitmap_new_in n) = {} \<and> n \<le> 64 * length (bitmap_new_in n)
    \<and> bitmap_set ops bm j yes = Inr bm \<and> bitmap_is_set ops bm j = Inl (Panic IndexOutOfBounds)"
proof (intro conjI)
  have b: "i < bitmap_bound ops bm" using ops i by (simp add: bitmap_bound_def)
  show "\<exists>bm'. bitmap_set ops bm i yes = Inr bm' \<and> length bm' = length bm
      \<and> bits_of bm' = (if yes then insert i (bits_of bm) else bits_of bm - {i})"
    using bitmap.put_ok [OF b, of yes] ops by (auto simp: bitmap_bound_def)
  show "bitmap_is_set ops bm i = Inr (i \<in> bits_of bm)" by (rule bitmap.get_ok [OF b])
  show "bits_of (bitmap_new_in n) = {}"
    by (auto simp: bits_of_def bitmap_new_in_def less_mult_imp_div_less)
  show "n \<le> 64 * length (bitmap_new_in n)"
    by (simp add: bitmap_new_in_def calculate_blocks_def BLOCK_BITS_def) presburger
  have "\<not> j div 64 < length bm" using j by (metis div_less_iff_less_mult mult.commute not_less zero_less_numeral)
  then show "bitmap_set ops bm j yes = Inr bm" "bitmap_is_set ops bm j = Inl (Panic IndexOutOfBounds)"
    by (simp_all add: bitmap_set_def bitmap_is_set_def BLOCK_BITS_def Let_def slice_get_def)
qed

theorem bitmap_refines_set_witness:
  "(\<exists>bm'. bitmap_set ref_bit_ops (bitmap_new_in 100) 69 True = Inr bm' \<and> bits_of bm' = {69})
   \<and> bitmap_is_set ref_bit_ops (bitmap_new_in 100) 128 = Inl (Panic IndexOutOfBounds)"
proof -
  have len: "length (bitmap_new_in 100) = 2"
    by (simp add: bitmap_new_in_def calculate_blocks_def BLOCK_BITS_def)
  show ?thesis
    using bitmap_refines_set [OF ref_bit_ops_ok, of 69 "bitmap_new_in 100" 128 True 100] len by auto
qed

text \<open>C18. \<^verbatim>\<open>find_first_set\<close> returns the least set bit of the whole bitmap, or nothing when there is none; its
  loop always ends.\<close>

theorem find_first_set_least:
  assumes "bit_ops_ok ops"
  shows "find_first_set ops bm
    = Inr (if bits_of bm = {} then None else Some (LEAST i. i \<in> bits_of bm))"
  using first_set_loop_run [OF assms, of 0 bm] by (simp add: find_first_set_def)

theorem find_first_set_least_witness: "find_first_set ref_bit_ops [0, 0x20] = Inr (Some 69)"
proof -
  have b: "bits_of [0, 0x20] = {69}"
  proof -
    have "bit (0x20 :: u64) i \<longleftrightarrow> i = 5" for i
      using bit_push_bit_iff [of 5 "1 :: u64" i] by (auto simp: bit_1_iff)
    then show ?thesis by (simp add: bits_of_Cons)
  qed
  show ?thesis unfolding find_first_set_least [OF ref_bit_ops_ok] b by (simp add: Least_equality)
qed

text \<open>\<^verbatim>\<open>find_first_unset\<close> answers from the first block alone: with the first block full it returns 64,
  whether or not bit 64 is set or exists.\<close>

theorem find_first_unset_first_block:
  assumes ops: "bit_ops_ok ops"
  shows "find_first_unset ops (b # bm) = Inr (Some (LEAST i. \<not> bit b i))
    \<and> find_first_unset ops (- 1 # bm) = Inr (Some 64) \<and> find_first_unset ops [] = Inr None"
proof -
  have run: "find_first_unset ops (b # bm) = Inr (Some (LEAST i. \<not> bit b i))" for b
  proof (cases "b = 0")
    case False
    have "\<not> bit b 64" using bit_imp_le_length [of b 64] by auto
    then have "count_while ops True 65 b 0 = Inr (LEAST i. \<not> bit b i)"
      using count_while_least [OF ops, of b True] by auto
    then show ?thesis using False by (simp add: find_first_unset_def unset_in_block_def)
  qed (simp add: find_first_unset_def unset_in_block_def)
  moreover have "(LEAST i. \<not> bit (- 1 :: u64) i) = 64"
    by (rule Least_equality) (auto simp: bit_simps)
  ultimately show ?thesis using run [of "- 1"] by (simp add: find_first_unset_def)
qed

theorem find_first_unset_first_block_witness:
  "find_first_unset ref_bit_ops [- 1, 1] = Inr (Some 64) \<and> 64 \<in> bits_of [- 1, 1]"
  using find_first_unset_first_block [OF ref_bit_ops_ok, of 0 "[1]"] by (simp add: bits_of_def)

end
