(* ===== verification/Process.thy ===== *)
theory Process
  imports Prelude "HOL-Library.AList"
begin

text \<open>
  Processes and signals: \<^verbatim>\<open>src/process/signal.rs\<close> and \<^verbatim>\<open>src/process/mod.rs\<close>. The table \<^verbatim>\<open>PTABLE\<close> is an
  association list with distinct keys (a \<^verbatim>\<open>BTreeMap\<close>). The body of a process, a function pointer
  taken from an executable, is represented by what calling it does: return, return an error
  number, or not return. The numbers of \<^verbatim>\<open>redox_syscall\<close> are the parameters \<open>signum\<close> and \<open>perrno\<close>;
  the spin lock around the table is the parameter \<open>lock_ops\<close> with its documented behaviour in
  \<open>lock_ops_ok\<close>: a writer waits for every other holder, a reader for a writer, and nobody
  releases a lock another line of the same function still holds.
\<close>

section \<open>Signals\<close>

datatype signal =
    SigSuccess | SIGHUP | SIGINT | SIGQUIT | SIGILL | SIGTRAP | SIGABRT | SIGBUS | SIGFPE | SIGKILL
  | SIGUSR1 | SIGSEGV | SIGUSR2 | SIGPIPE | SIGALRM | SIGTERM | SIGSTKFLT | SIGCHLD | SIGCONT
  | SIGSTOP | SIGTSTP | SIGTTIN | SIGTTOU | SIGURG | SIGXCPU | SIGXFSZ | SIGVTALRM | SIGPROF
  | SIGWINCH | SIGIO | SIGPWR | SIGSYS | SIGINFO

text \<open>The arms of \<^verbatim>\<open>Signal::new\<close> in order; every number but that of \<^verbatim>\<open>SIGINFO\<close> is a constant of
  \<^verbatim>\<open>redox_syscall\<close>.\<close>

definition signal_arms :: "signal list" where
  "signal_arms =
     [SIGHUP, SIGINT, SIGQUIT, SIGILL, SIGTRAP, SIGABRT, SIGBUS, SIGFPE, SIGKILL, SIGUSR1, SIGSEGV,
      SIGUSR2, SIGPIPE, SIGALRM, SIGTERM, SIGSTKFLT, SIGCHLD, SIGCONT, SIGSTOP, SIGTSTP, SIGTTIN,
      SIGTTOU, SIGURG, SIGXCPU, SIGXFSZ, SIGVTALRM, SIGPROF, SIGWINCH, SIGIO, SIGPWR, SIGSYS,
      SIGINFO]"

definition signal_new :: "(signal \<Rightarrow> usize) \<Rightarrow> usize \<Rightarrow> signal" where
  "signal_new signum num =
     (case find (\<lambda>s. (if s = SIGINFO then 32 else signum s) = num) signal_arms of
        Some s \<Rightarrow> s
      | None \<Rightarrow> SigSuccess)"

definition signal_from_u64 :: "(signal \<Rightarrow> usize) \<Rightarrow> u64 \<Rightarrow> signal" where
  "signal_from_u64 signum value = signal_new signum value"

definition signal_from_i32 :: "(signal \<Rightarrow> usize) \<Rightarrow> i32 \<Rightarrow> signal" where
  "signal_from_i32 signum value = signal_from_u64 signum (scast value)"

fun u64_from_signal :: "signal \<Rightarrow> u64" where
  "u64_from_signal SigSuccess = 0"
| "u64_from_signal SIGHUP = 1"
| "u64_from_signal SIGINT = 2"
| "u64_from_signal SIGQUIT = 3"
| "u64_from_signal SIGILL = 4"
| "u64_from_signal SIGTRAP = 5"
| "u64_from_signal SIGABRT = 6"
| "u64_from_signal SIGBUS = 7"
| "u64_from_signal SIGFPE = 8"
| "u64_from_signal SIGKILL = 9"
| "u64_from_signal SIGUSR1 = 10"
| "u64_from_signal SIGSEGV = 11"
| "u64_from_signal SIGUSR2 = 12"
| "u64_from_signal SIGPIPE = 13"
| "u64_from_signal SIGALRM = 14"
| "u64_from_signal SIGTERM = 15"
| "u64_from_signal SIGSTKFLT = 16"
| "u64_from_signal SIGCHLD = 17"
| "u64_from_signal SIGCONT = 18"
| "u64_from_signal SIGSTOP = 19"
| "u64_from_signal SIGTSTP = 20"
| "u64_from_signal SIGTTIN = 21"
| "u64_from_signal SIGTTOU = 22"
| "u64_from_signal SIGURG = 23"
| "u64_from_signal SIGXCPU = 24"
| "u64_from_signal SIGXFSZ = 25"
| "u64_from_signal SIGVTALRM = 26"
| "u64_from_signal SIGPROF = 27"
| "u64_from_signal SIGWINCH = 28"
| "u64_from_signal SIGIO = 29"
| "u64_from_signal SIGPWR = 30"
| "u64_from_signal SIGSYS = 31"
| "u64_from_signal SIGINFO = 32"

definition i32_from_signal :: "signal \<Rightarrow> i32" where
  "i32_from_signal s = ucast (u64_from_signal s)"

section \<open>Processes\<close>

datatype pstate =
    Runnable
  | Blocked
  | Zombie
  | AwaitingIo
  | Stopped u64
  | Exited u64
  | Invalid u8

definition pstate_from :: "u8 \<times> u64 \<Rightarrow> pstate" where
  "pstate_from value =
     (if fst value = 0 then Runnable
      else if fst value = 1 then Blocked
      else if fst value = 2 then Zombie
      else if fst value = 3 then AwaitingIo
      else if fst value = 4 then Stopped (snd value)
      else if fst value = 5 then Exited (snd value)
      else Invalid (fst value))"

datatype main_loop = WithoutResult "unit exec" | WithResult "(i32 + unit) exec"

record ('f, 'e) process =
  state :: pstate
  pid :: nat
  tid :: nat
  sid :: u64
  gid :: u64
  sleep :: u64
  signal_received :: signal
  io_pending :: bool
  executable :: "'e option"
  open_files :: "'f list option"
  exit_status :: "u64 option"
  systrace :: bool
  main :: main_loop

type_synonym ('f, 'e) ptable = "(nat \<times> ('f, 'e) process) list"

record perrno =
  P_EPIPE :: i32
  P_ECANCELED :: i32
  P_EILSEQ :: i32
  P_EPERM :: i32
  P_EFAULT :: i32
  P_EDOM :: i32
  P_EDQUOT :: i32
  P_ESPIPE :: i32
  P_EIO :: i32
  P_EINTR :: i32
  P_EBADF :: i32

text \<open>\<^verbatim>\<open>Signal::handle\<close>: the result of the call and the process, changed or not.\<close>

fun signal_handle ::
  "perrno \<Rightarrow> signal \<Rightarrow> ('f, 'e) process \<Rightarrow> ((i32 + unit) \<times> ('f, 'e) process) exec" where
  "signal_handle en SigSuccess p = Inr (Inr (), p)"
| "signal_handle en SIGHUP p = Inr (Inl (P_EPIPE en), p)"
| "signal_handle en SIGINT p = Inr (Inl (P_ECANCELED en), p)"
| "signal_handle en SIGQUIT p = Inr (Inl (P_ECANCELED en), p)"
| "signal_handle en SIGILL p = Inr (Inl (P_EILSEQ en), p)"
| "signal_handle en SIGTRAP p = Inr (Inl (P_EPERM en), p)"
| "signal_handle en SIGABRT p = Inr (Inl (P_ECANCELED en), p)"
| "signal_handle en SIGBUS p = Inr (Inl (P_EFAULT en), p)"
| "signal_handle en SIGFPE p = Inr (Inl (P_EDOM en), p)"
| "signal_handle en SIGKILL p = Inl Abort"
| "signal_handle en SIGUSR1 p = Inr (Inr (), p)"
| "signal_handle en SIGSEGV p = Inr (Inl (P_EFAULT en), p)"
| "signal_handle en SIGUSR2 p = Inr (Inr (), p)"
| "signal_handle en SIGPIPE p = Inr (Inl (P_EPIPE en), p)"
| "signal_handle en SIGALRM p = Inr (Inl (P_EDQUOT en), p)"
| "signal_handle en SIGTERM p = Inr (Inr (), p)"
| "signal_handle en SIGSTKFLT p = Inr (Inl (P_ESPIPE en), p)"
| "signal_handle en SIGCHLD p = Inr (Inr (), p\<lparr>state := Zombie\<rparr>)"
| "signal_handle en SIGSTOP p = Inr (Inr (), p\<lparr>state := Stopped (u64_from_signal SIGSTOP)\<rparr>)"
| "signal_handle en SIGTSTP p = Inr (Inr (), p\<lparr>state := Stopped (u64_from_signal SIGTSTP)\<rparr>)"
| "signal_handle en SIGTTIN p = Inr (Inr (), p\<lparr>state := Blocked\<rparr>)"
| "signal_handle en SIGTTOU p = Inr (Inr (), p\<lparr>state := Blocked\<rparr>)"
| "signal_handle en SIGCONT p = Inr (Inr (), p\<lparr>state := Runnable\<rparr>)"
| "signal_handle en SIGURG p = Inr (Inr (), p)"
| "signal_handle en SIGXCPU p = Inr (Inl (P_EDQUOT en), p)"
| "signal_handle en SIGXFSZ p = Inr (Inl (P_EDQUOT en), p)"
| "signal_handle en SIGVTALRM p = Inr (Inl (P_EDQUOT en), p)"
| "signal_handle en SIGPROF p = Inr (Inl (P_EDQUOT en), p)"
| "signal_handle en SIGWINCH p = Inr (Inr (), p)"
| "signal_handle en SIGIO p = Inr (Inl (P_EIO en), p)"
| "signal_handle en SIGPWR p = Inr (Inr (), p)"
| "signal_handle en SIGSYS p = Inr (Inl (P_EINTR en), p)"
| "signal_handle en SIGINFO p = Inr (Inr (), p)"

section \<open>The lock of the process table\<close>

datatype lock_state = Free | Readers nat | Writer

record lock_ops =
  lk_read :: "lock_state \<Rightarrow> lock_state exec"
  lk_write :: "lock_state \<Rightarrow> lock_state exec"

definition lock_ops_ok :: "lock_ops \<Rightarrow> bool" where
  "lock_ops_ok lo \<longleftrightarrow>
     lk_read lo Free = Inr (Readers 1) \<and> (\<forall>n. lk_read lo (Readers n) = Inr (Readers (n + 1)))
     \<and> lk_read lo Writer = Inl Diverge
     \<and> lk_write lo Free = Inr Writer \<and> (\<forall>n > 0. lk_write lo (Readers n) = Inl Diverge)
     \<and> lk_write lo Writer = Inl Diverge"

section \<open>Creating and running\<close>

definition process_new ::
  "lock_ops \<Rightarrow> lock_state \<Rightarrow> 'f option \<Rightarrow> main_loop \<Rightarrow> ('f, 'e) ptable \<Rightarrow> ('f, 'e) process exec" where
  "process_new lo lk data entry pt =
     rbind (lk_read lo lk) (\<lambda>_.
     rbind (nat_sub_ck (length pt) 1) (\<lambda>global_id.
       Inr \<lparr>state = Blocked, pid = global_id, tid = global_id, sid = of_nat global_id,
            gid = of_nat global_id, sleep = of_nat global_id, signal_received = SigSuccess,
            io_pending = False, executable = None, open_files = map_option (\<lambda>d. [d]) data,
            exit_status = None, systrace = False, main = entry\<rparr>))"

text \<open>The dynamic type a \<^verbatim>\<open>*mut dyn Any\<close> carries: one of the two accepted function types, or
  another one.\<close>

datatype any_type = AnyFnUnit | AnyFnResult | AnyOther

definition main_loop_from_any :: "any_type \<Rightarrow> unit exec \<Rightarrow> (i32 + unit) exec \<Rightarrow> main_loop exec" where
  "main_loop_from_any ty as_unit as_result =
     (if ty = AnyFnUnit then Inr (WithoutResult as_unit)
      else if ty = AnyFnResult then Inr (WithResult as_result)
      else Inl (Panic UnreachableCode))"

text \<open>\<^verbatim>\<open>From<ElfFile>\<close> casts the entry point to \<^verbatim>\<open>*mut TypeId\<close> and that to \<^verbatim>\<open>*mut dyn Any\<close>: the dynamic
  type is \<^verbatim>\<open>TypeId\<close>, neither of the two function types.\<close>

definition process_from_elf ::
  "lock_ops \<Rightarrow> lock_state \<Rightarrow> 'e \<Rightarrow> unit exec \<Rightarrow> (i32 + unit) exec \<Rightarrow> ('f, 'e) ptable
    \<Rightarrow> ('f, 'e) process exec" where
  "process_from_elf lo lk elf as_unit as_result pt =
     rbind (main_loop_from_any AnyOther as_unit as_result) (\<lambda>entry.
     rbind (process_new lo lk None entry pt) (\<lambda>p.
       Inr (p\<lparr>executable := Some elf\<rparr>)))"

text \<open>\<^verbatim>\<open>Process::create\<close>: the write guard of the table is taken before the key is computed.\<close>

definition process_create ::
  "lock_ops \<Rightarrow> lock_state \<Rightarrow> 'e \<Rightarrow> unit exec \<Rightarrow> (i32 + unit) exec \<Rightarrow> ('f, 'e) ptable
    \<Rightarrow> ('f, 'e) ptable exec" where
  "process_create lo lk elf as_unit as_result pt =
     rbind (lk_write lo lk) (\<lambda>lk.
     rbind (lk_read lo lk) (\<lambda>lk'.
     rbind (nat_sub_ck (length pt) 1) (\<lambda>key.
     rbind (process_from_elf lo lk elf as_unit as_result pt) (\<lambda>p.
       Inr (AList.update key p pt)))))"

definition set_state :: "pstate \<Rightarrow> ('f, 'e) process \<Rightarrow> ('f, 'e) process" where
  "set_state s p = p\<lparr>state := s\<rparr>"

definition block :: "('f, 'e) process \<Rightarrow> ('f, 'e) process" where
  "block p = set_state Blocked p"

definition unblock :: "('f, 'e) process \<Rightarrow> ('f, 'e) process" where
  "unblock p = set_state Runnable p"

definition kill :: "signal \<Rightarrow> ('f, 'e) process \<Rightarrow> ('f, 'e) process" where
  "kill s p = p\<lparr>signal_received := s\<rparr>"

text \<open>\<^verbatim>\<open>exit\<close> sets the state and leaves through \<^verbatim>\<open>iretq\<close>; the process is left in the given state.\<close>

definition process_exit :: "u64 \<Rightarrow> ('f, 'e) process \<Rightarrow> stop \<times> ('f, 'e) process" where
  "process_exit code p = (Abort, p\<lparr>state := Exited code\<rparr>)"

definition fopen :: "'f \<Rightarrow> ('f, 'e) process \<Rightarrow> ('f, 'e) process" where
  "fopen file p =
     (case open_files p of
        None \<Rightarrow> p\<lparr>open_files := Some [file]\<rparr>
      | Some files \<Rightarrow> p\<lparr>open_files := Some (files @ [file])\<rparr>)"

text \<open>What one run of a process leaves: the result of the call, the process, the table, and how
  often the generator yielded before it completed.\<close>

record ('f, 'e) run_result =
  rr_result :: "i32 + nat"
  rr_process :: "('f, 'e) process"
  rr_table :: "('f, 'e) ptable"
  rr_yields :: nat

definition finish :: "nat \<Rightarrow> (i32 + unit) \<Rightarrow> ('f, 'e) process \<Rightarrow> ('f, 'e) ptable \<Rightarrow> ('f, 'e) run_result" where
  "finish yields status p pt =
     \<lparr>rr_result = (case status of Inl e \<Rightarrow> Inl e | Inr u \<Rightarrow> Inr 0), rr_process = p, rr_table = pt,
      rr_yields = yields\<rparr>"

text \<open>The arm of an exited process; removing it from the table needs the write lock.\<close>

definition run_exited ::
  "lock_ops \<Rightarrow> perrno \<Rightarrow> lock_state \<Rightarrow> u64 \<Rightarrow> ('f, 'e) process \<Rightarrow> ('f, 'e) ptable
    \<Rightarrow> ('f, 'e) run_result exec" where
  "run_exited lo en lk status0 p pt =
     (let status = case_option status0 id (exit_status p);
          p = p\<lparr>exit_status := Some status\<rparr>
      in rbind (lk_write lo lk) (\<lambda>_.
           let pt = AList.delete (pid p) pt
           in if signal_received p = SigSuccess then
                (if status = 0 then Inr (finish 0 (Inr ()) p pt)
                 else Inr (finish 0 (Inl (ucast status)) p pt))
              else rbind (signal_handle en (signal_received p) p) (\<lambda>(r, p).
                     Inr (finish 0 r p pt))))"

definition process_run ::
  "lock_ops \<Rightarrow> perrno \<Rightarrow> lock_state \<Rightarrow> ('f, 'e) process \<Rightarrow> ('f, 'e) ptable
    \<Rightarrow> ('f, 'e) run_result exec" where
  "process_run lo en lk p pt =
     (case state p of
        Runnable \<Rightarrow>
          (case main p of
             WithoutResult body \<Rightarrow>
               rbind body (\<lambda>_. Inr (finish 0 (Inr ()) (p\<lparr>state := Exited 0\<rparr>) pt))
           | WithResult body \<Rightarrow>
               rbind body (\<lambda>r.
                 case r of
                   Inr u \<Rightarrow> Inr (finish 0 (Inr ()) (p\<lparr>state := Exited 0\<rparr>) pt)
                 | Inl e \<Rightarrow> Inr (finish 0 (Inr ()) (p\<lparr>state := Exited (scast e)\<rparr>) pt)))
      | Blocked \<Rightarrow> Inr (finish 1 (Inr ()) p pt)
      | AwaitingIo \<Rightarrow> Inr (finish 1 (Inr ()) p pt)
      | Stopped s \<Rightarrow> Inr (finish 1 (Inr ()) p pt)
      | Exited status \<Rightarrow> run_exited lo en lk status p pt
      | Invalid c \<Rightarrow> Inr (finish 0 (Inl (P_EBADF en)) p pt)
      | Zombie \<Rightarrow> Inr (finish 0 (Inr ()) (kill SIGKILL p) pt))"

section \<open>Properties\<close>

text \<open>With the signal numbers of \<^verbatim>\<open>redox_syscall\<close> being those of the table in \<^verbatim>\<open>From<Signal>\<close>,
  converting a signal to a number and back gives the signal, through \<^verbatim>\<open>u64\<close> and through \<^verbatim>\<open>i32\<close>, and
  every number that no signal has is read as success.\<close>

theorem signal_number_roundtrip:
  assumes "\<forall>s. signum s = u64_from_signal s"
  shows "signal_from_u64 signum (u64_from_signal s) = s
    \<and> signal_from_i32 signum (i32_from_signal s) = s
    \<and> (v \<notin> range u64_from_signal \<longrightarrow> signal_from_u64 signum v = SigSuccess)"
proof -
  have arm: "(if t = SIGINFO then 32 else signum t) = u64_from_signal t" for t
    using assms by simp
  have inv: "signal_from_u64 signum (u64_from_signal s) = s"
    unfolding signal_from_u64_def signal_new_def arm signal_arms_def by (cases s) simp_all
  have cast: "(scast (i32_from_signal s) :: u64) = u64_from_signal s"
    by (cases s) (simp_all add: i32_from_signal_def)
  have "find (\<lambda>t. u64_from_signal t = v) signal_arms = None" if "v \<notin> range u64_from_signal"
    using that by (auto simp: find_None_iff)
  then show ?thesis
    using inv cast by (simp add: signal_from_i32_def signal_from_u64_def signal_new_def arm)
qed

theorem signal_number_roundtrip_witness:
  "signal_from_u64 u64_from_signal (u64_from_signal SIGTSTP) = SIGTSTP
   \<and> signal_from_u64 u64_from_signal 77 = SigSuccess"
proof -
  have "77 \<notin> range u64_from_signal"
  proof
    assume "77 \<in> range u64_from_signal"
    then obtain s where "77 = u64_from_signal s" by blast
    then show False by (cases s) simp_all
  qed
  then show ?thesis using signal_number_roundtrip [of u64_from_signal SIGTSTP 77] by simp
qed

text \<open>C34. Running a runnable process whose body returns leaves it exited, with the error number as
  its status, and reports success; running it again removes it from the table and then reports
  that error.\<close>

theorem process_run_reports_error:
  assumes "lock_ops_ok lo" and "state p = Runnable" and "main p = WithResult (Inr (Inl e))"
    and "e \<noteq> 0" and "exit_status p = None" and "signal_received p = SigSuccess"
  shows "\<exists>r1 r2. process_run lo en lk p pt = Inr r1 \<and> rr_result r1 = Inr 0
           \<and> state (rr_process r1) = Exited (scast e) \<and> rr_table r1 = pt
           \<and> process_run lo en Free (rr_process r1) pt = Inr r2 \<and> rr_result r2 = Inl e
           \<and> map_of (rr_table r2) (pid p) = None"
proof -
  have cast: "ucast (scast e :: u64) = e" by (rule bit_word_eqI) (auto simp: bit_simps)
  have "(scast e :: u64) \<noteq> 0"
  proof
    assume "(scast e :: u64) = 0"
    then have "ucast (scast e :: u64) = (0 :: i32)" by simp
    with cast assms(4) show False by simp
  qed
  then show ?thesis using assms cast
    by (simp add: process_run_def finish_def run_exited_def lock_ops_ok_def delete_conv' Let_def)
qed

definition ref_lock_ops :: lock_ops where
  "ref_lock_ops = \<lparr>
     lk_read = (\<lambda>l. case l of Free \<Rightarrow> Inr (Readers 1) | Readers n \<Rightarrow> Inr (Readers (n + 1))
                          | Writer \<Rightarrow> Inl Diverge),
     lk_write = (\<lambda>l. case l of Free \<Rightarrow> Inr Writer | Readers n \<Rightarrow> Inl Diverge
                           | Writer \<Rightarrow> Inl Diverge)\<rparr>"

lemma ref_lock_ops_ok: "lock_ops_ok ref_lock_ops"
  by (simp add: lock_ops_ok_def ref_lock_ops_def)

definition example_process :: "main_loop \<Rightarrow> nat \<Rightarrow> (unit, unit) process" where
  "example_process body n = \<lparr>state = Runnable, pid = n, tid = n, sid = 0, gid = 0, sleep = 0,
     signal_received = SigSuccess, io_pending = False, executable = None, open_files = None,
     exit_status = None, systrace = False, main = body\<rparr>"

definition example_errno :: perrno where
  "example_errno = \<lparr>P_EPIPE = 32, P_ECANCELED = 125, P_EILSEQ = 84, P_EPERM = 1, P_EFAULT = 14,
     P_EDOM = 33, P_EDQUOT = 122, P_ESPIPE = 29, P_EIO = 5, P_EINTR = 4, P_EBADF = 9\<rparr>"

theorem process_run_reports_error_witness:
  "let p = example_process (WithResult (Inr (Inl 5))) 0 in
   \<exists>r1 r2. process_run ref_lock_ops example_errno Free p [(0, p)] = Inr r1 \<and> rr_result r1 = Inr 0
     \<and> state (rr_process r1) = Exited (scast (5 :: i32)) \<and> rr_table r1 = [(0, p)]
     \<and> process_run ref_lock_ops example_errno Free (rr_process r1) [(0, p)] = Inr r2
     \<and> rr_result r2 = Inl 5 \<and> map_of (rr_table r2) (pid p) = None"
  unfolding Let_def
  by (rule process_run_reports_error [OF ref_lock_ops_ok]) (simp_all add: example_process_def)

text \<open>A blocked, stopped or waiting process is not waited for: its run yields once, and then
  completes with success and the process in the state it had.\<close>

theorem process_run_does_not_wait:
  "process_run lo en lk (p\<lparr>state := Blocked\<rparr>) pt
     = Inr \<lparr>rr_result = Inr 0, rr_process = p\<lparr>state := Blocked\<rparr>, rr_table = pt, rr_yields = 1\<rparr>
   \<and> process_run lo en lk (p\<lparr>state := AwaitingIo\<rparr>) pt
     = Inr \<lparr>rr_result = Inr 0, rr_process = p\<lparr>state := AwaitingIo\<rparr>, rr_table = pt, rr_yields = 1\<rparr>
   \<and> process_run lo en lk (p\<lparr>state := Stopped n\<rparr>) pt
     = Inr \<lparr>rr_result = Inr 0, rr_process = p\<lparr>state := Stopped n\<rparr>, rr_table = pt, rr_yields = 1\<rparr>"
  by (simp add: process_run_def finish_def)

text \<open>\<^verbatim>\<open>Process::create\<close> never returns, whoever holds the lock: it takes the write lock of the
  table and then waits for the read lock of the same table. The conversion from an executable
  it would call next panics for every executable, and so does \<^verbatim>\<open>new\<close> on an empty table.\<close>

theorem process_create_never_returns:
  assumes "lock_ops_ok lo" and "lk \<noteq> Readers 0"
  shows "process_create lo lk elf as_unit as_result pt = Inl Diverge
    \<and> process_from_elf lo Free elf as_unit as_result pt = Inl (Panic UnreachableCode)
    \<and> process_new lo Free data entry [] = Inl (Panic ArithOverflow)"
  using assms
  by (cases lk) (simp_all add: process_create_def process_from_elf_def main_loop_from_any_def
      process_new_def lock_ops_ok_def nat_sub_ck_def)

theorem process_create_never_returns_witness:
  "process_create ref_lock_ops Free () (Inr ()) (Inr (Inr ())) ([] :: (unit, unit) ptable)
     = Inl Diverge"
  by (rule process_create_never_returns [OF ref_lock_ops_ok, THEN conjunct1]) simp

end
