(* ===== verification/Interrupts.thy ===== *)
theory Interrupts
  imports Process Paging
begin

text \<open>
  Interrupt handling, \<^verbatim>\<open>src/arch/x86_64/interrupts.rs\<close>: the interrupt descriptor table and its
  registration functions, the fault handlers and the scheduler. An entry of the table is the
  handler it names; the vectors of the exceptions are those of the architecture. \<open>idt_state\<close>
  keeps the table, the copy \<^verbatim>\<open>init\<close> makes of it, and what the processor was last told to use.
  The handlers that only acknowledge an interrupt are in \<open>Irq_Dispatch\<close>.

  A fault in user mode marks the current process with a signal; in the kernel it panics. The
  scheduler takes the process at its index, but the index leaves the table after one pass, and
  the interrupts it sends to itself go to a vector without a handler.
\<close>

section \<open>The interrupt descriptor table\<close>

datatype idt_handler =
    h_double_fault | h_page_fault | h_sigfpe | h_invalid_tss | h_sigbus | h_sigsegv
  | h_general_protection | h_breakpoint | h_bound_range_exceeded | h_invalid_op | h_navail
  | h_timer | h_lapic_err | h_spurious | h_pin_inta | h_pin_intb | h_pin_intc | h_pin_intd
  | h_syscall | h_task_sched | h_pci | h_ahci | h_registered nat

datatype irq_index = Timer | LapicErr | IpiWake | IpiTlb | IpiSwitch | IpiPit | Spurious

fun irq_number :: "irq_index \<Rightarrow> nat" where
  "irq_number Timer = 0xfe"
| "irq_number LapicErr = 0x31"
| "irq_number IpiWake = 0x40"
| "irq_number IpiTlb = 0x41"
| "irq_number IpiSwitch = 0x42"
| "irq_number IpiPit = 0x43"
| "irq_number Spurious = 0xff"

type_synonym idt = "nat \<rightharpoonup> idt_handler"

text \<open>The lazily built table; the arguments are \<^verbatim>\<open>INTA_IRQ\<close> to \<^verbatim>\<open>INTD_IRQ\<close>, zero unless set before.\<close>

definition build_idt :: "nat \<Rightarrow> nat \<Rightarrow> nat \<Rightarrow> nat \<Rightarrow> idt" where
  "build_idt inta intb intc intd =
     [8 \<mapsto> h_double_fault, 14 \<mapsto> h_page_fault, 0 \<mapsto> h_sigfpe, 10 \<mapsto> h_invalid_tss, 11 \<mapsto> h_sigbus,
      12 \<mapsto> h_sigsegv, 13 \<mapsto> h_general_protection, 3 \<mapsto> h_breakpoint, 5 \<mapsto> h_bound_range_exceeded,
      6 \<mapsto> h_invalid_op, 7 \<mapsto> h_navail, irq_number Timer \<mapsto> h_timer,
      irq_number LapicErr \<mapsto> h_lapic_err, irq_number Spurious \<mapsto> h_spurious,
      inta \<mapsto> h_pin_inta, intb \<mapsto> h_pin_intb, intc \<mapsto> h_pin_intc, intd \<mapsto> h_pin_intd,
      0x80 \<mapsto> h_syscall, 132 \<mapsto> h_task_sched, 139 \<mapsto> h_pci, 0x82 \<mapsto> h_spurious, 151 \<mapsto> h_ahci]"

record idt_state =
  idt_table :: idt
  idt_clone :: "idt option"
  idt_loaded :: "idt option"

text \<open>\<^verbatim>\<open>init\<close>: the static copy is made at the first call only.\<close>

definition interrupts_init :: "idt_state \<Rightarrow> idt_state" where
  "interrupts_init st =
     (let c = case_option (idt_table st) id (idt_clone st)
      in st\<lparr>idt_clone := Some c, idt_loaded := Some c\<rparr>)"

definition irqalloc :: "idt_state \<Rightarrow> nat exec" where
  "irqalloc st =
     (case find (\<lambda>i. idt_table st i = None) [32..<256] of
        Some i \<Rightarrow> Inr i
      | None \<Rightarrow> Inl (Panic ExplicitPanic))"

definition register_handler :: "nat \<Rightarrow> idt_handler \<Rightarrow> idt_state \<Rightarrow> idt_state" where
  "register_handler irq h st = interrupts_init (st\<lparr>idt_table := (idt_table st)(irq \<mapsto> h)\<rparr>)"

section \<open>Faults\<close>

datatype privilege = Ring0 | Ring1 | Ring2 | Ring3

record ('f, 'e) sched =
  ptable :: "('f, 'e) ptable"
  ptable_idx :: nat
  tick_count :: u64
  active_lapic :: u32
  ipis :: "(u8 \<times> u32) list"

text \<open>\<^verbatim>\<open>(PTABLE.read())[&PTABLE_IDX].write()\<close>: indexing a \<^verbatim>\<open>BTreeMap\<close> with a missing key panics.\<close>

definition with_process ::
  "nat \<Rightarrow> (('f, 'e) process \<Rightarrow> ('f, 'e) process) \<Rightarrow> ('f, 'e) sched \<Rightarrow> ('f, 'e) sched exec" where
  "with_process key f st =
     rbind (expect (map_of (ptable st) key)) (\<lambda>p.
       Inr (st\<lparr>ptable := AList.update key (f p) (ptable st)\<rparr>))"

definition fault :: "signal \<Rightarrow> privilege \<Rightarrow> ('f, 'e) sched \<Rightarrow> ('f, 'e) sched exec" where
  "fault s ring st =
     (if ring = Ring0 then Inl (Panic ExplicitPanic)
      else with_process (ptable_idx st) (kill s) st)"

definition bound_range_exceeded :: "privilege \<Rightarrow> ('f, 'e) sched \<Rightarrow> ('f, 'e) sched exec" where
  "bound_range_exceeded ring st = fault SIGFPE ring st"

definition invalid_op :: "privilege \<Rightarrow> ('f, 'e) sched \<Rightarrow> ('f, 'e) sched exec" where
  "invalid_op ring st = fault SIGILL ring st"

definition navail :: "privilege \<Rightarrow> ('f, 'e) sched \<Rightarrow> ('f, 'e) sched exec" where
  "navail ring st = fault SIGSYS ring st"

definition double_fault :: "('f, 'e) sched \<Rightarrow> ('f, 'e) sched exec" where
  "double_fault st = Inl (Panic ExplicitPanic)"

text \<open>A page fault with no bit of the error code set maps the faulting address to itself and returns
  to the instruction. Unlike the other handlers it looks at the privilege level of the \<^verbatim>\<open>CS\<close> register
  it runs with, not at that of the interrupted code.\<close>

definition page_fault ::
  "'m page_ops \<Rightarrow> page_flags \<Rightarrow> u64 \<Rightarrow> bool \<Rightarrow> privilege \<Rightarrow> 'm kmem \<times> ('f, 'e) sched
    \<Rightarrow> ('m kmem \<times> ('f, 'e) sched) exec" where
  "page_fault ops pf cr2 code_empty cs_ring st =
     (if code_empty then
        rbind (map_page ops cr2 cr2 (default_flags pf) (fst st)) (\<lambda>km. Inr (km, snd st))
      else rbind (fault SIGSEGV cs_ring (snd st)) (\<lambda>s. Inr (fst st, s)))"

definition sigfpe :: "privilege \<Rightarrow> ('f, 'e) sched \<Rightarrow> ('f, 'e) sched exec" where
  "sigfpe ring st = fault SIGFPE ring st"

text \<open>An invalid task state segment is only logged.\<close>

definition invalid_tss :: "('f, 'e) sched \<Rightarrow> ('f, 'e) sched exec" where
  "invalid_tss st = Inr st"

definition sigbus :: "privilege \<Rightarrow> ('f, 'e) sched \<Rightarrow> ('f, 'e) sched exec" where
  "sigbus ring st = fault SIGBUS ring st"

definition sigsegv :: "privilege \<Rightarrow> ('f, 'e) sched \<Rightarrow> ('f, 'e) sched exec" where
  "sigsegv ring st = fault SIGSEGV ring st"

definition general_protection :: "privilege \<Rightarrow> ('f, 'e) sched \<Rightarrow> ('f, 'e) sched exec" where
  "general_protection ring st = fault SIGABRT ring st"

definition timer :: "('f, 'e) sched \<Rightarrow> ('f, 'e) sched exec" where
  "timer st = Inr (st\<lparr>tick_count := tick_count st + 1\<rparr>)"

definition syscall_handler :: "('f, 'e) sched \<Rightarrow> ('f, 'e) sched exec" where
  "syscall_handler st = Inl (Panic NotImplemented)"

section \<open>The scheduler\<close>

text \<open>Make the process at a key runnable and run it while the read guard of the table is held;
  \<^verbatim>\<open>unwrap\<close> panics on an error.\<close>

definition run_at ::
  "lock_ops \<Rightarrow> perrno \<Rightarrow> nat \<Rightarrow> ('f, 'e) sched \<Rightarrow> ('f, 'e) sched exec" where
  "run_at lo en key st =
     rbind (with_process key (set_state Runnable) st) (\<lambda>st.
     rbind (expect (map_of (ptable st) key)) (\<lambda>p.
     rbind (process_run lo en (Readers 1) p (ptable st)) (\<lambda>r.
       case rr_result r of
         Inl e \<Rightarrow> Inl (Panic UnwrapNone)
       | Inr n \<Rightarrow> Inr (st\<lparr>ptable := AList.update key (rr_process r) (rr_table r)\<rparr>))))"

definition sched_processes ::
  "lock_ops \<Rightarrow> perrno \<Rightarrow> ('f, 'e) sched \<Rightarrow> ('f, 'e) sched exec" where
  "sched_processes lo en st =
     (if ptable st = [] then Inr st
      else rbind
        (if length (ptable st) = 1 then run_at lo en (ptable_idx st) st
         else rbind (nat_sub_ck (ptable_idx st) 1) (\<lambda>prev.
              rbind (with_process prev (set_state Blocked) st) (\<lambda>st.
                run_at lo en (ptable_idx st) st)))
        (\<lambda>st. if ptable_idx st < length (ptable st)
              then Inr (st\<lparr>ptable_idx := ptable_idx st + 1\<rparr>)
              else Inr (st\<lparr>ptable_idx := 0\<rparr>)))"

text \<open>The processor after the active one, in the order of \<^verbatim>\<open>get_lapic_ids().cycle()\<close>. Searching the
  endless iterator for an identifier that is not there does not end.\<close>

fun position :: "'a \<Rightarrow> 'a list \<Rightarrow> nat option" where
  "position x [] = None"
| "position x (y # ys) = (if x = y then Some 0 else map_option Suc (position x ys))"

definition next_lapic :: "u32 list \<Rightarrow> u32 \<Rightarrow> u32 exec" where
  "next_lapic ids active =
     (if ids = [] then Inl (Panic UnreachableCode)
      else case position active ids of
          None \<Rightarrow> Inl Diverge
        | Some i \<Rightarrow> Inr (ids ! ((i + 1) mod length ids)))"

definition sched_ipi :: "u32 list \<Rightarrow> ('f, 'e) sched \<Rightarrow> ('f, 'e) sched exec" where
  "sched_ipi ids st =
     (if active_lapic st = 0 then
        (if ids = [] then Inl (Panic UnwrapNone)
         else Inr (st\<lparr>active_lapic := hd ids,
                     ipis := ipis st @ [(100, ids ! (1 mod length ids))]\<rparr>))
      else rbind (next_lapic ids (active_lapic st)) (\<lambda>i.
             Inr (st\<lparr>active_lapic := i, ipis := ipis st @ [(100, i)]\<rparr>)))"

definition task_sched ::
  "lock_ops \<Rightarrow> perrno \<Rightarrow> u32 list \<Rightarrow> ('f, 'e) sched \<Rightarrow> ('f, 'e) sched exec" where
  "task_sched lo en ids st = rbind (sched_processes lo en st) (sched_ipi ids)"

section \<open>Lemmas\<close>

lemma with_process_update:
  assumes "map_of (ptable st) key = Some p"
  shows "with_process key f st = Inr (st\<lparr>ptable := AList.update key (f p) (ptable st)\<rparr>)"
  using assms by (simp add: with_process_def)

lemma length_update_key:
  "key \<in> fst ` set al \<Longrightarrow> length (AList.update key v al) = length al"
  by (induction al) auto

lemma run_at_ok:
  assumes "map_of (ptable st) key = Some p" and "main p = WithoutResult (Inr ())"
  shows "run_at lo en key st
    = Inr (st\<lparr>ptable := AList.update key (p\<lparr>state := Exited 0\<rparr>)
        (AList.update key (p\<lparr>state := Runnable\<rparr>) (ptable st))\<rparr>)"
  using assms
  by (simp add: run_at_def with_process_def set_state_def update_conv' process_run_def finish_def)

lemma position_nth:
  "distinct xs \<Longrightarrow> i < length xs \<Longrightarrow> position (xs ! i) xs = Some i"
proof (induction xs arbitrary: i)
  case (Cons x xs)
  then show ?case by (cases i) auto
qed simp

lemma next_lapic_nth:
  "distinct ids \<Longrightarrow> i < length ids \<Longrightarrow> next_lapic ids (ids ! i) = Inr (ids ! ((i + 1) mod length ids))"
  by (auto simp: next_lapic_def position_nth)

fun sched_ipi_iter :: "nat \<Rightarrow> u32 list \<Rightarrow> ('f, 'e) sched \<Rightarrow> ('f, 'e) sched exec" where
  "sched_ipi_iter 0 ids st = Inr st"
| "sched_ipi_iter (Suc n) ids st = rbind (sched_ipi ids st) (sched_ipi_iter n ids)"

lemma sched_ipi_iter_run:
  assumes "distinct ids" "0 \<notin> set ids" "i < length ids" "active_lapic st = ids ! i"
  shows "sched_ipi_iter n ids st
    = Inr (st\<lparr>active_lapic := ids ! ((i + n) mod length ids),
             ipis := ipis st @ map (\<lambda>j. (100, ids ! ((i + Suc j) mod length ids))) [0..<n]\<rparr>)"
  using assms(3,4)
proof (induction n arbitrary: st i)
  case 0
  then show ?case by simp
next
  case (Suc n)
  let ?m = "(i + 1) mod length ids"
  let ?st = "st\<lparr>active_lapic := ids ! ?m, ipis := ipis st @ [(100, ids ! ?m)]\<rparr>"
  have "ids ! i \<noteq> 0" using assms(2) Suc.prems(1) by (metis nth_mem)
  then have "sched_ipi ids st = Inr ?st"
    using Suc.prems next_lapic_nth [OF assms(1) Suc.prems(1)] by (simp add: sched_ipi_def)
  moreover have "?m < length ids" using Suc.prems(1) by (intro mod_less_divisor) linarith
  moreover have "(?m + n) mod length ids = (i + Suc n) mod length ids"
    "\<And>j. Suc (?m + j) mod length ids = Suc (Suc (i + j)) mod length ids"
    using mod_add_left_eq [of "Suc i" "length ids" n]
      mod_add_left_eq [of "Suc i" "length ids" "Suc j" for j] by simp_all
  ultimately show ?case using Suc.IH [of ?m ?st] by (simp add: map_upt_Suc del: upt_Suc)
qed

section \<open>Properties\<close>

text \<open>A fault taken in user mode gives the current process the signal and changes nothing else;
  taken in the kernel it panics; with no process at the index it panics too.\<close>

theorem fault_marks_current_process:
  "fault s Ring0 st = Inl (Panic ExplicitPanic)
   \<and> (case map_of (ptable st) (ptable_idx st) of
        None \<Rightarrow> fault s Ring3 st = Inl (Panic ExpectFailed)
      | Some p \<Rightarrow> \<exists>st'. fault s Ring3 st = Inr st'
          \<and> map_of (ptable st') = (map_of (ptable st))(ptable_idx st \<mapsto> p\<lparr>signal_received := s\<rparr>)
          \<and> st'\<lparr>ptable := ptable st\<rparr> = st)"
  by (cases "map_of (ptable st) (ptable_idx st)")
    (simp_all add: fault_def with_process_def kill_def update_conv')

text \<open>C36. \<^verbatim>\<open>irqalloc\<close> returns the least vector from 32 on without a handler, and panics only when all
  of them have one; registering a handler there keeps every other entry of the table.\<close>

theorem irqalloc_correct:
  "(case irqalloc st of
      Inr i \<Rightarrow> 32 \<le> i \<and> i < 256 \<and> idt_table st i = None
        \<and> (\<forall>j. 32 \<le> j \<and> j < i \<longrightarrow> idt_table st j \<noteq> None)
        \<and> idt_table (register_handler i h st) = (idt_table st)(i \<mapsto> h)
    | Inl e \<Rightarrow> e = Panic ExplicitPanic \<and> (\<forall>j. 32 \<le> j \<and> j < 256 \<longrightarrow> idt_table st j \<noteq> None))"
proof (cases "find (\<lambda>i. idt_table st i = None) [32..<256]")
  case None
  then show ?thesis unfolding irqalloc_def None using find_upt_None [THEN iffD1, OF None] by simp
next
  case (Some i)
  show ?thesis unfolding irqalloc_def Some using find_upt_Some [OF Some]
    by (simp add: register_handler_def interrupts_init_def Let_def)
qed

theorem irqalloc_correct_witness:
  "let st = \<lparr>idt_table = (\<lambda>v. if v < 40 then Some h_task_sched else None), idt_clone = None,
              idt_loaded = None\<rparr>
   in irqalloc st = Inr 40 \<and> idt_table (register_handler 40 h_pin_intd st) 39 = Some h_task_sched"
proof -
  let ?st = "\<lparr>idt_table = (\<lambda>v. if v < 40 then Some h_task_sched else None), idt_clone = None,
    idt_loaded = None\<rparr>"
  note c = irqalloc_correct [of ?st h_pin_intd]
  show ?thesis
  proof (cases "irqalloc ?st")
    case (Inl e)
    with c have "\<forall>j. 32 \<le> j \<and> j < 256 \<longrightarrow> idt_table ?st j \<noteq> None" by simp
    from this [rule_format, of 40] show ?thesis by simp
  next
    case (Inr i)
    with c have "\<forall>j. 32 \<le> j \<and> j < i \<longrightarrow> idt_table ?st j \<noteq> None" by simp
    from this [rule_format, of 40] have "\<not> 40 < i" by auto
    moreover have "\<not> i < 40" using c Inr by (auto split: if_splits)
    ultimately have "i = 40" by simp
    then show ?thesis using c Inr by simp
  qed
qed

text \<open>A handler registered after the first \<^verbatim>\<open>init\<close> never reaches the processor: the static copy is
  made once, so whatever is registered later, the table loaded is the first one.\<close>

theorem registered_handler_never_loaded:
  "idt_loaded (register_handler irq h (interrupts_init st)) = idt_loaded (interrupts_init st)
   \<and> idt_loaded (interrupts_init \<lparr>idt_table = t, idt_clone = None, idt_loaded = None\<rparr>) = Some t"
  by (simp add: register_handler_def interrupts_init_def Let_def)

text \<open>In the table built at start the divide error is served by the handler of the interrupt pin
  D, because the pins' vectors are still zero, and vector 100, to which the scheduler sends its
  interrupts, has no handler: the scheduler is at vector 132.\<close>

theorem boot_table_vectors:
  "build_idt 0 0 0 0 0 = Some h_pin_intd \<and> build_idt 0 0 0 0 100 = None
   \<and> build_idt 0 0 0 0 132 = Some h_task_sched
   \<and> (\<forall>v. build_idt 0 0 0 0 v = Some h_task_sched \<longrightarrow> v = 132)"
  by (auto simp: build_idt_def split: if_splits)

theorem boot_table_vectors_witness:
  "build_idt 0 0 0 0 132 = Some h_task_sched \<and> build_idt 0 0 0 0 131 \<noteq> Some h_task_sched"
  using boot_table_vectors by fastforce



text \<open>The scheduler stops the kernel: with two or more processes and the index at zero it panics
  at once; with a single one it runs it on the first interrupt, moves the index past the end of
  the table, and panics on the second.\<close>

theorem task_sched_panics:
  assumes "ptable st = [(0, p)]" and "ptable_idx st = 0" and "main p = WithoutResult (Inr ())"
    and "2 \<le> length (ptable st2)" and "ptable_idx st2 = 0" and "ids \<noteq> []"
    and "active_lapic st = 0"
  shows "task_sched lo en ids st2 = Inl (Panic ArithOverflow)
    \<and> (\<exists>st'. task_sched lo en ids st = Inr st' \<and> ptable_idx st' = 1
         \<and> map_option state (map_of (ptable st') 0) = Some (Exited 0)
         \<and> task_sched lo en ids st' = Inl (Panic ExpectFailed))"
proof -
  have "task_sched lo en ids st2 = Inl (Panic ArithOverflow)"
    using assms(4,5) by (auto simp: task_sched_def sched_processes_def nat_sub_ck_def)
  moreover have "run_at lo en 0 st = Inr (st\<lparr>ptable := [(0, p\<lparr>state := Exited 0\<rparr>)]\<rparr>)"
    using assms(1,3) by (simp add: run_at_ok)
  then have "task_sched lo en ids st = Inr (st\<lparr>ptable := [(0, p\<lparr>state := Exited 0\<rparr>)], ptable_idx := 1,
      active_lapic := hd ids, ipis := ipis st @ [(100, ids ! (1 mod length ids))]\<rparr>)"
    using assms(1,2,6,7) by (simp add: task_sched_def sched_processes_def sched_ipi_def)
  moreover have "task_sched lo en ids (st\<lparr>ptable := [(0, p\<lparr>state := Exited 0\<rparr>)], ptable_idx := 1,
      active_lapic := hd ids, ipis := ipis st @ [(100, ids ! (1 mod length ids))]\<rparr>)
      = Inl (Panic ExpectFailed)"
    by (simp add: task_sched_def sched_processes_def run_at_def with_process_def)
  ultimately show ?thesis by simp
qed

definition example_sched :: "(unit, unit) ptable \<Rightarrow> (unit, unit) sched" where
  "example_sched pt = \<lparr>ptable = pt, ptable_idx = 0, tick_count = 0, active_lapic = 0, ipis = []\<rparr>"

theorem task_sched_panics_witness:
  "let p = example_process (WithoutResult (Inr ())) 0 in
   task_sched ref_lock_ops example_errno [1, 2] (example_sched [(0, p), (1, p)])
     = Inl (Panic ArithOverflow)
   \<and> (\<exists>st'. task_sched ref_lock_ops example_errno [1, 2] (example_sched [(0, p)]) = Inr st'
        \<and> ptable_idx st' = 1 \<and> map_option state (map_of (ptable st') 0) = Some (Exited 0)
        \<and> task_sched ref_lock_ops example_errno [1, 2] st' = Inl (Panic ExpectFailed))"
  unfolding Let_def
  by (rule task_sched_panics [where p = "example_process (WithoutResult (Inr ())) 0"])
    (simp_all add: example_sched_def example_process_def)

end
