(* ===== verification/Ahci.thy ===== *)
theory Ahci
  imports Machine
begin

text \<open>
  The AHCI driver, \<^verbatim>\<open>src/drivers/ahci/mod.rs\<close>: the registers and in-memory structures with the layout
  \<^verbatim>\<open>#[repr(C)]\<close> gives them, DMA requests and their buffers, the programming of a command, a
  port's 32 command slots, and the start of the controller.

  A size or a sector number is a natural number, with the overflow checks written out. A bit flag
  type is the list of its names and bit positions; a value of it is the integer. Every loop that
  waits for the controller takes the number of iterations it may use.
\<close>

section \<open>Flags\<close>

type_synonym flag_type = "(string \<times> nat) list"

definition flag :: "flag_type \<Rightarrow> string \<Rightarrow> u64" where
  "flag fs name = push_bit (the (map_of fs name)) 1"

definition all_flags :: "flag_type \<Rightarrow> u64" where
  "all_flags fs = foldr (\<lambda>(_, i) v. push_bit i 1 OR v) fs 0"

definition contains :: "u64 \<Rightarrow> u64 \<Rightarrow> bool" where
  "contains v f \<longleftrightarrow> v AND f = f"

definition intersects :: "u64 \<Rightarrow> u64 \<Rightarrow> bool" where
  "intersects v f \<longleftrightarrow> v AND f \<noteq> 0"

definition HbaEnclosureCtrl :: flag_type where
  "HbaEnclosureCtrl = [(''STS_MR'', 0), (''CTL_TM'', 8), (''CTL_RST'', 9), (''SUPP_LED'', 16),
     (''SUPP_SAFTE'', 17), (''SUPP_SES2'', 18), (''SUPP_SGPIO'', 19), (''ATTR_SMB'', 24),
     (''ATTR_XMT'', 25), (''ATTR_ALHD'', 26), (''ATTR_PM'', 27)]"

definition HbaCapabilities2 :: flag_type where
  "HbaCapabilities2 = [(''BOH'', 0), (''NVMP'', 1), (''APST'', 2), (''SDS'', 3), (''SADM'', 4),
     (''DESO'', 5)]"

definition HbaBohc :: flag_type where
  "HbaBohc = [(''BOS'', 0), (''OOS'', 1), (''SOOE'', 2), (''OOC'', 3), (''BB'', 4)]"

definition HbaCapabilities :: flag_type where
  "HbaCapabilities = [(''SXS'', 5), (''EMS'', 6), (''CCCS'', 7), (''PSC'', 13), (''SSC'', 14),
     (''PMD'', 15), (''FBSS'', 16), (''SPM'', 17), (''SAM'', 18), (''SCLO'', 24), (''SAL'', 25),
     (''SALP'', 26), (''SSS'', 27), (''SMPS'', 28), (''SSNTF'', 29), (''SNCQ'', 30), (''S64A'', 31)]"

definition HbaHostCont :: flag_type where
  "HbaHostCont = [(''HR'', 0), (''IE'', 1), (''MRSM'', 2), (''AE'', 31)]"

definition HbaPortIS :: flag_type where
  "HbaPortIS = [(''DHRS'', 0), (''PSS'', 1), (''DSS'', 2), (''SDBS'', 3), (''UFS'', 4), (''DPS'', 5),
     (''PCS'', 6), (''DMPS'', 7), (''PRCS'', 22), (''IPMS'', 23), (''OFS'', 24), (''INFS'', 26),
     (''IFS'', 27), (''HBDS'', 28), (''HBFS'', 29), (''TFES'', 30), (''CPDS'', 31)]"

definition HbaPortIE :: flag_type where
  "HbaPortIE = [(''DHRE'', 0), (''PSE'', 1), (''DSE'', 2), (''SDBE'', 3), (''UFE'', 4), (''DPE'', 5),
     (''PCE'', 6), (''DMPE'', 7), (''PRCE'', 22), (''IPME'', 23), (''OFE'', 24), (''INFE'', 26),
     (''IFE'', 27), (''HBDE'', 28), (''HBFE'', 29), (''TFEE'', 30), (''CPDE'', 31)]"

definition HbaPortCmd :: flag_type where
  "HbaPortCmd = [(''ST'', 0), (''SUD'', 1), (''POD'', 2), (''CLO'', 3), (''FRE'', 4), (''MPSS'', 13),
     (''FR'', 14), (''CR'', 15), (''CPS'', 16), (''PMA'', 17), (''HPCP'', 18), (''MSPC'', 19),
     (''CPD'', 20), (''ESP'', 21), (''FBSCP'', 22), (''APSTE'', 23), (''ATAPI'', 24), (''DLAE'', 25),
     (''ALPE'', 26), (''ASP'', 27)]"

definition HbaCmdHeaderFlags :: flag_type where
  "HbaCmdHeaderFlags = [(''A'', 5), (''W'', 6), (''P'', 7), (''R'', 8), (''B'', 9), (''C'', 10)]"

section \<open>Structures\<close>

text \<open>Each field with its size and its alignment.\<close>

definition HbaMemory :: "(string \<times> nat \<times> nat) list" where
  "HbaMemory = [(''host_capability'', 4, 4), (''global_host_control'', 4, 4),
     (''interrupt_status'', 4, 4), (''ports_implemented'', 4, 4), (''version'', 4, 4),
     (''ccc_control'', 4, 4), (''ccc_ports'', 4, 4), (''enclosure_management_location'', 4, 4),
     (''enclosure_management_control'', 4, 4), (''host_capabilities_extended'', 4, 4),
     (''bios_handoff_ctrl_sts'', 4, 4), (''_reserved'', 0xa0 - 0x2c, 1), (''vendor'', 0x100 - 0xa0, 1)]"

definition FisRegH2D :: "(string \<times> nat \<times> nat) list" where
  "FisRegH2D = [(''fis_type'', 1, 1), (''flags'', 1, 1), (''command'', 1, 1), (''featurel'', 1, 1),
     (''lba0'', 1, 1), (''lba1'', 1, 1), (''lba2'', 1, 1), (''device'', 1, 1),
     (''lba3'', 1, 1), (''lba4'', 1, 1), (''lba5'', 1, 1), (''featureh'', 1, 1),
     (''count'', 2, 2), (''icc'', 1, 1), (''control'', 1, 1), (''_reserved'', 4, 1)]"

definition FisRegD2H :: "(string \<times> nat \<times> nat) list" where
  "FisRegD2H = [(''fis_type'', 1, 1), (''pm'', 1, 1), (''status'', 1, 1), (''err'', 1, 1),
     (''lba0'', 1, 1), (''lba1'', 1, 1), (''lba2'', 1, 1), (''dev'', 1, 1),
     (''lba3'', 1, 1), (''lba4'', 1, 1), (''lba5'', 1, 1), (''_rsvd0'', 1, 1),
     (''count_low'', 1, 1), (''count_high'', 1, 1), (''_rsvd1'', 6, 1)]"

definition HbaPrdtEntry :: "(string \<times> nat \<times> nat) list" where
  "HbaPrdtEntry = [(''dba'', 8, 8), (''_reserved'', 4, 4), (''flags'', 4, 4)]"

definition HbaCmdTbl :: "(string \<times> nat \<times> nat) list" where
  "HbaCmdTbl = [(''cfis'', 64, 1), (''acmd'', 16, 1), (''_reserved'', 48, 1),
     (''prdt_entry'', struct_size HbaPrdtEntry, struct_align HbaPrdtEntry)]"

text \<open>\<^verbatim>\<open>HbaSataStatus\<close> wraps a \<^verbatim>\<open>u64\<close>.\<close>

definition HbaPort :: "(string \<times> nat \<times> nat) list" where
  "HbaPort = [(''clb'', 8, 8), (''fb'', 8, 8), (''is'', 4, 4), (''ie'', 4, 4), (''cmd'', 4, 4),
     (''_reserved'', 4, 4), (''tfd'', 4, 4), (''sig'', 4, 4), (''ssts'', 8, 8), (''sctl'', 4, 4),
     (''serr'', 4, 4), (''sact'', 4, 4), (''ci'', 4, 4), (''sntf'', 4, 4), (''fbs'', 4, 4),
     (''devslp'', 4, 4), (''_reserved_1'', 40, 4), (''vendor'', 16, 4)]"

definition HbaCmdHeader :: "(string \<times> nat \<times> nat) list" where
  "HbaCmdHeader = [(''flags'', 2, 2), (''prdtl'', 2, 2), (''prdbc'', 4, 4), (''ctb'', 8, 8),
     (''_reserved'', 16, 4)]"

datatype FisType = RegH2D | RegD2H | DmaInit | DmaSetup | FisData | Bist | PioSetup | DevBits

fun fis_type_code :: "FisType \<Rightarrow> u64" where
  "fis_type_code RegH2D = 0x27"
| "fis_type_code RegD2H = 0x34"
| "fis_type_code DmaInit = 0x39"
| "fis_type_code DmaSetup = 0x41"
| "fis_type_code FisData = 0x46"
| "fis_type_code Bist = 0x58"
| "fis_type_code PioSetup = 0x5f"
| "fis_type_code DevBits = 0xa1"

datatype HbaPortDd = Dd_None | PresentNotE | PresentAndE | Offline

datatype HbaPortIpm = Ipm_None | Active | Partial | Slumber | DevSleep

definition device_detection :: "('m, 'd) menv \<Rightarrow> u64 \<Rightarrow> HbaPortDd exec" where
  "device_detection env v =
     rbind (bf_get_bits (mbits env) 64 v 0 4) (\<lambda>b.
       if b = 0 then Inr Dd_None else if b = 1 then Inr PresentNotE
       else if b = 3 then Inr PresentAndE else if b = 4 then Inr Offline
       else Inl (Panic ExplicitPanic))"

definition interface_power_management :: "('m, 'd) menv \<Rightarrow> u64 \<Rightarrow> HbaPortIpm exec" where
  "interface_power_management env v =
     rbind (bf_get_bits (mbits env) 64 v 8 12) (\<lambda>b.
       if b = 0 then Inr Ipm_None else if b = 1 then Inr Active
       else if b = 2 then Inr Partial else if b = 6 then Inr Slumber
       else if b = 8 then Inr DevSleep else Inl (Panic ExplicitPanic))"

section \<open>DMA buffers and requests\<close>

datatype BuddyOrdering = Size4KiB | Size8KiB

fun raw_order :: "BuddyOrdering \<Rightarrow> nat" where
  "raw_order Size4KiB = 0"
| "raw_order Size8KiB = 2"

definition BUDDY_SIZE :: "nat list" where
  "BUDDY_SIZE = [4096, 4096 * 4, 2097152]"

definition pmm_frame :: "('m, 'd) menv \<Rightarrow> (('m, 'd) mstate, u64) act" where
  "pmm_frame env st =
     rbind (expect (kfalloc (mkm st))) (\<lambda>fa.
     rbind (allocate_frame (pphys (mpage env)) fa) (\<lambda>(f, fa').
     rbind (expect f) (\<lambda>frame. Inr (frame, st\<lparr>mkm := (mkm st)\<lparr>kfalloc := Some fa'\<rparr>\<rparr>))))"

definition pmm_alloc :: "('m, 'd) menv \<Rightarrow> BuddyOrdering \<Rightarrow> (('m, 'd) mstate, u64) act" where
  "pmm_alloc env order =
     (if \<not> raw_order order \<le> length BUDDY_SIZE then halt (Panic AssertFailed) else
      sbind (pmm_frame env) (\<lambda>phys.
      sbind (pure_exec (add_ck phys (moffset env))) (\<lambda>virt.
      sthen (case order of
               Size4KiB \<Rightarrow> mmap env phys virt
             | Size8KiB \<Rightarrow>
                 sthen (mmap env phys virt)
                 (sbind (pure_exec (add_ck phys 4096)) (\<lambda>phys2.
                  sbind (pure_exec (add_ck virt 4096)) (\<lambda>virt2. mmap env phys2 virt2))))
      (sbind (pure_exec (slice_get BUDDY_SIZE (raw_order order))) (\<lambda>fill_size.
       sthen (fill_zero env virt fill_size)
       (pure_exec (mphys_new env phys)))))))"

record dma_buffer =
  buf_start :: u64
  buf_size :: nat

definition ceil_div :: "nat \<Rightarrow> nat \<Rightarrow> nat exec" where
  "ceil_div a d =
     rbind (usize_add_ck a d) (\<lambda>s. rbind (nat_sub_ck s 1) (\<lambda>n.
       if d = 0 then Inl (Panic ArithOverflow) else Inr (n div d)))"

definition buffer_sectors :: "dma_buffer \<Rightarrow> nat exec" where
  "buffer_sectors b = ceil_div (buf_size b) 512"

datatype dma_command = DmaRead

record dma_request =
  req_sector :: nat
  req_count :: nat
  req_buffer :: "dma_buffer list"
  req_command :: dma_command

function dma_buffers :: "('m, 'd) menv \<Rightarrow> nat \<Rightarrow> (('m, 'd) mstate, dma_buffer list) act" where
  "dma_buffers env sz =
     (if sz > 0 then
        (let data_size = min sz 0x2000 in
         sbind (pmm_alloc env (if sz > 0x1000 then Size8KiB else Size4KiB)) (\<lambda>start.
         sbind (dma_buffers env (sz - data_size)) (\<lambda>bs.
           ret (\<lparr>buf_start = start, buf_size = data_size\<rparr> # bs))))
      else ret [])"
  by pat_completeness auto
termination by (relation "measure (\<lambda>(env, sz). sz)") auto

declare dma_buffers.simps [simp del]

definition dma_request_new ::
  "('m, 'd) menv \<Rightarrow> nat \<Rightarrow> nat \<Rightarrow> (('m, 'd) mstate, dma_request) act" where
  "dma_request_new env sector count =
     sbind (pure_exec (usize_mul_ck count 512)) (\<lambda>sz.
     sbind (dma_buffers env sz) (\<lambda>bs.
       ret \<lparr>req_sector = sector, req_count = count, req_buffer = bs, req_command = DmaRead\<rparr>))"

text \<open>\<^verbatim>\<open>copy_into\<close>: \<open>into\<close> is the caller's slice; the loop keeps the offset and what remains.\<close>

fun copy_loop ::
  "('m, 'd) menv \<Rightarrow> dma_buffer list \<Rightarrow> nat \<Rightarrow> nat \<Rightarrow> u8 list \<Rightarrow> (('m, 'd) mstate, u8 list) act" where
  "copy_loop env [] offset remaining into = ret into"
| "copy_loop env (b # bs) offset remaining into =
     (let count = min remaining 0x2000 in
      sbind (pure_exec (add_ck (buf_start b) (moffset env))) (\<lambda>a.
      sbind (pure_exec (virt_new (mpage env) a)) (\<lambda>a.
      sbind (read_bytes env a count) (\<lambda>data.
      sbind (if offset + count \<le> length into then ret (take offset into @ data @ drop (offset + count) into)
             else halt (Panic IndexOutOfBounds)) (\<lambda>into.
        copy_loop env bs (offset + count) (remaining - count) into)))))"

definition copy_into ::
  "('m, 'd) menv \<Rightarrow> dma_request \<Rightarrow> u8 list \<Rightarrow> (('m, 'd) mstate, u8 list) act" where
  "copy_into env req into = copy_loop env (req_buffer req) 0 (length into) into"

datatype AtaCommand =
    WriteDma | WriteDmaQueued | WriteMultiple | WriteSectors
  | ReadDma | ReadDmaQueued | ReadMultiple | ReadSectors
  | WriteDmaExt | WriteDmaQueuedExt | WriteMultipleExt | WriteSectorsExt
  | ReadDmaExt | ReadDmaQueuedExt | ReadMultipleExt | ReadSectorsExt
  | Packet | DeviceReset | Service | Nop | NopNopAutopoll | GetMediaStatus
  | FlushCache | FlushCacheExt | DataSetManagement | MediaEject
  | IdentifyPacketDevice | IdentifyDevice
  | SetFeatures | SetFeaturesEnableReleaseInt | SetFeaturesEnableServiceInt
  | SetFeaturesDisableReleaseInt | SetFeaturesDisableServiceInt

fun ata_code :: "AtaCommand \<Rightarrow> u64" where
  "ata_code WriteDma = 0xCA"
| "ata_code WriteDmaQueued = 0xCC"
| "ata_code WriteMultiple = 0xC5"
| "ata_code WriteSectors = 0x30"
| "ata_code ReadDma = 0xC8"
| "ata_code ReadDmaQueued = 0xC7"
| "ata_code ReadMultiple = 0xC4"
| "ata_code ReadSectors = 0x20"
| "ata_code WriteDmaExt = 0x35"
| "ata_code WriteDmaQueuedExt = 0x36"
| "ata_code WriteMultipleExt = 0x39"
| "ata_code WriteSectorsExt = 0x34"
| "ata_code ReadDmaExt = 0x25"
| "ata_code ReadDmaQueuedExt = 0x26"
| "ata_code ReadMultipleExt = 0x29"
| "ata_code ReadSectorsExt = 0x24"
| "ata_code Packet = 0xA0"
| "ata_code DeviceReset = 0x08"
| "ata_code Service = 0xA2"
| "ata_code Nop = 0"
| "ata_code NopNopAutopoll = 1"
| "ata_code GetMediaStatus = 0xDA"
| "ata_code FlushCache = 0xE7"
| "ata_code FlushCacheExt = 0xEA"
| "ata_code DataSetManagement = 0x06"
| "ata_code MediaEject = 0xED"
| "ata_code IdentifyPacketDevice = 0xA1"
| "ata_code IdentifyDevice = 0xEC"
| "ata_code SetFeatures = 0xEF"
| "ata_code SetFeaturesEnableReleaseInt = 0x5D"
| "ata_code SetFeaturesEnableServiceInt = 0x5E"
| "ata_code SetFeaturesDisableReleaseInt = 0xDD"
| "ata_code SetFeaturesDisableServiceInt = 0xDE"

definition is_lba48 :: "AtaCommand \<Rightarrow> bool" where
  "is_lba48 c \<longleftrightarrow> c = ReadDmaExt \<or> c = WriteDmaExt"

definition is_write :: "AtaCommand \<Rightarrow> bool" where
  "is_write c \<longleftrightarrow> c = WriteDmaExt \<or> c = WriteDma"

definition as_command :: "dma_request \<Rightarrow> AtaCommand" where
  "as_command req =
     (let lba48 = req_sector req > 0x0FFFFFFF in
      case req_command req of DmaRead \<Rightarrow> if lba48 then ReadDmaExt else ReadDma)"

definition at_offset :: "dma_request \<Rightarrow> nat \<Rightarrow> dma_buffer list exec" where
  "at_offset req offset =
     (if offset div 16 \<le> length (req_buffer req) then Inr (drop (offset div 16) (req_buffer req))
      else Inl (Panic IndexOutOfBounds))"

section \<open>Ports\<close>

definition cmd_header_at :: "('m, 'd) menv \<Rightarrow> u64 \<Rightarrow> nat \<Rightarrow> (('m, 'd) mstate, u64) act" where
  "cmd_header_at env port index =
     sbind (get_field env HbaPort port ''clb'') (\<lambda>clb.
     sbind (pure_exec (add_ck clb (moffset env))) (\<lambda>a.
     sbind (pure_exec (virt_new (mpage env) a)) (\<lambda>clb_mapped.
     sbind (pure_exec (add_ck clb_mapped (of_nat (struct_size HbaCmdHeader * index)))) (\<lambda>a.
       pure_exec (virt_new (mpage env) a)))))"

definition start_cmd :: "('m, 'd) menv \<Rightarrow> nat \<Rightarrow> u64 \<Rightarrow> (('m, 'd) mstate, unit) act" where
  "start_cmd env fuel port =
     sthen (spin_while fuel (sbind (get_field env HbaPort port ''cmd'') (\<lambda>v.
              ret (contains v (flag HbaPortCmd ''CR'')))))
     (sbind (get_field env HbaPort port ''cmd'') (\<lambda>v.
        set_field env HbaPort port ''cmd'' (v OR (flag HbaPortCmd ''FRE'' OR flag HbaPortCmd ''ST''))))"

definition stop_cmd :: "('m, 'd) menv \<Rightarrow> nat \<Rightarrow> u64 \<Rightarrow> (('m, 'd) mstate, unit) act" where
  "stop_cmd env fuel port =
     sbind (get_field env HbaPort port ''cmd'') (\<lambda>v.
     sthen (set_field env HbaPort port ''cmd''
              (v AND NOT (flag HbaPortCmd ''FRE'' OR flag HbaPortCmd ''ST'')))
     (spin_while fuel (sbind (get_field env HbaPort port ''cmd'') (\<lambda>v.
        ret (intersects v (flag HbaPortCmd ''FR'' OR flag HbaPortCmd ''CR''))))))"

text \<open>\<^verbatim>\<open>start\<close>. The calls of \<^verbatim>\<open>map_page!\<close> give the virtual address first, where the macro expects the
  physical one.\<close>

definition port_start_map :: "('m, 'd) menv \<Rightarrow> u64 \<Rightarrow> u64 \<Rightarrow> u64 \<Rightarrow> (('m, 'd) mstate, unit) act" where
  "port_start_map env page_addr frame_addr sz =
     sbind (pure_exec (add_ck page_addr sz)) (\<lambda>a.
     sbind (pure_exec (virt_new (mpage env) a)) (\<lambda>a.
     sbind (pure_exec (add_ck frame_addr sz)) (\<lambda>f.
     sbind (pure_exec (mphys_new env f)) (\<lambda>f.
       mmap env a f))))"

definition port_start_header :: "('m, 'd) menv \<Rightarrow> u64 \<Rightarrow> u64 \<Rightarrow> nat \<Rightarrow> (('m, 'd) mstate, unit) act" where
  "port_start_header env port frame_addr i =
     sbind (cmd_header_at env port i) (\<lambda>h.
     sthen (set_field env HbaCmdHeader h ''prdtl'' 8)
     (sthen (set_field env HbaCmdHeader h ''prdbc'' 0)
     (sbind (pure_exec (add_ck frame_addr (of_nat (256 * i)))) (\<lambda>a.
      sbind (pure_exec (mphys_new env a)) (\<lambda>a.
        set_field env HbaCmdHeader h ''ctb'' a)))))"

definition write_back :: "('m, 'd) menv \<Rightarrow> u64 \<Rightarrow> string \<Rightarrow> (('m, 'd) mstate, unit) act" where
  "write_back env port name = sbind (get_field env HbaPort port name) (set_field env HbaPort port name)"

definition port_start :: "('m, 'd) menv \<Rightarrow> nat \<Rightarrow> u64 \<Rightarrow> (('m, 'd) mstate, unit) act" where
  "port_start env fuel port =
     sthen (stop_cmd env fuel port)
     (sbind (pmm_alloc env Size8KiB) (\<lambda>frame_addr.
      sbind (pure_exec (add_ck (moffset env) frame_addr)) (\<lambda>page_addr.
      sthen (for_act (port_start_map env page_addr frame_addr) [0, 0x1000])
      (sthen (for_act (port_start_header env port frame_addr) [0..<32])
      (sthen (write_back env port ''clb'')
      (sthen (write_back env port ''fb'')
      (sthen (write_back env port ''is'')
      (sthen (set_field env HbaPort port ''ie'' (all_flags HbaPortIE))
      (sbind (get_field env HbaPort port ''sctl'') (\<lambda>sctl.
       sthen (set_field env HbaPort port ''sctl'' (sctl OR push_bit 8 7))
       (sthen (set_field env HbaPort port ''cmd'' (flag HbaPortCmd ''POD'' OR flag HbaPortCmd ''SUD''))
       (start_cmd env fuel port))))))))))))"

definition port_probe :: "('m, 'd) menv \<Rightarrow> nat \<Rightarrow> u64 \<Rightarrow> (('m, 'd) mstate, bool) act" where
  "port_probe env fuel port =
     sbind (get_field env HbaPort port ''ssts'') (\<lambda>status.
     sbind (pure_exec (interface_power_management env status)) (\<lambda>ipm.
     sbind (pure_exec (device_detection env status)) (\<lambda>dd.
       if dd = PresentAndE \<and> ipm = Active then sthen (port_start env fuel port) (ret True)
       else ret False)))"

section \<open>Commands\<close>

definition set_lba :: "('m, 'd) menv \<Rightarrow> u64 \<Rightarrow> nat \<Rightarrow> (('m, 'd) mstate, unit) act" where
  "set_lba env fis lba =
     (let w = of_nat lba :: u64; byte = (\<lambda>k. ucast (ucast (drop_bit k w) :: u8) :: u64) in
      if \<not> lba < 2 ^ 48 then halt (Panic AssertFailed) else
      sthen (set_field env FisRegH2D fis ''lba0'' (byte 0))
      (sthen (set_field env FisRegH2D fis ''lba1'' (byte 8))
      (sthen (set_field env FisRegH2D fis ''lba2'' (byte 16))
      (sthen (set_field env FisRegH2D fis ''lba3'' (byte 24))
      (sthen (set_field env FisRegH2D fis ''lba4'' (byte 32))
      (set_field env FisRegH2D fis ''lba5'' (byte 40)))))))"

definition set_command :: "('m, 'd) menv \<Rightarrow> u64 \<Rightarrow> bool \<Rightarrow> (('m, 'd) mstate, unit) act" where
  "set_command env fis yes =
     sbind (get_field env FisRegH2D fis ''flags'') (\<lambda>v.
     sbind (pure_exec (bf_set_bit (mbits env) 8 v 7 yes)) (set_field env FisRegH2D fis ''flags''))"

definition set_data_byte_count :: "('m, 'd) menv \<Rightarrow> u64 \<Rightarrow> nat \<Rightarrow> (('m, 'd) mstate, unit) act" where
  "set_data_byte_count env prdt count =
     sbind (get_field env HbaPrdtEntry prdt ''flags'') (\<lambda>v.
     sbind (pure_exec (bf_set_bits (mbits env) 32 v 0 21 (of_nat (count mod 2 ^ 32))))
       (set_field env HbaPrdtEntry prdt ''flags''))"

definition set_interrupt_on_completion :: "('m, 'd) menv \<Rightarrow> u64 \<Rightarrow> bool \<Rightarrow> (('m, 'd) mstate, unit) act" where
  "set_interrupt_on_completion env prdt yes =
     sbind (get_field env HbaPrdtEntry prdt ''flags'') (\<lambda>v.
     sbind (pure_exec (bf_set_bit (mbits env) 32 v 31 yes)) (set_field env HbaPrdtEntry prdt ''flags''))"

text \<open>\<^verbatim>\<open>set_command_fis_size\<close> changes the temporary that \<^verbatim>\<open>bits()\<close> returns.\<close>

definition set_command_fis_size :: "('m, 'd) menv \<Rightarrow> u64 \<Rightarrow> nat \<Rightarrow> u64 exec" where
  "set_command_fis_size env flags sz =
     rbind (bf_set_bits (mbits env) 16 flags 0 5 (of_nat (sz mod 2 ^ 16))) (\<lambda>_. Inr flags)"

definition prdt_entry_mut :: "u64 \<Rightarrow> nat \<Rightarrow> u64" where
  "prdt_entry_mut tbl i =
     tbl + of_nat (field_offset HbaCmdTbl ''prdt_entry'' + struct_size HbaPrdtEntry * i)"

definition cfis_as_h2d_mut :: "u64 \<Rightarrow> u64" where
  "cfis_as_h2d_mut tbl = tbl + of_nat (field_offset HbaCmdTbl ''cfis'')"

definition command_header_flags :: "('m, 'd) menv \<Rightarrow> AtaCommand \<Rightarrow> u64 \<Rightarrow> u64 exec" where
  "command_header_flags env command v =
     (let v = if command = WriteDmaExt \<or> command = WriteDma
              then v OR flag HbaCmdHeaderFlags ''W''
              else v AND NOT (flag HbaCmdHeaderFlags ''W'');
          v = v OR (flag HbaCmdHeaderFlags ''P'' OR flag HbaCmdHeaderFlags ''C'')
      in set_command_fis_size env v (struct_size FisRegH2D div 4))"

definition write_prdt ::
  "('m, 'd) menv \<Rightarrow> u64 \<Rightarrow> nat \<Rightarrow> nat \<times> dma_buffer \<Rightarrow> (('m, 'd) mstate, unit) act" where
  "write_prdt env tbl len_prdt p =
     (case p of (pri, dma) \<Rightarrow>
      let prdt = prdt_entry_mut tbl pri in
      sthen (set_field env HbaPrdtEntry prdt ''dba'' (buf_start dma))
      (sbind (pure_exec (nat_sub_ck (buf_size dma) 1)) (\<lambda>n.
       sthen (set_data_byte_count env prdt n)
       (sbind (pure_exec (nat_sub_ck len_prdt 1)) (\<lambda>lst.
        set_interrupt_on_completion env prdt (pri = lst))))))"

definition write_fis ::
  "('m, 'd) menv \<Rightarrow> u64 \<Rightarrow> AtaCommand \<Rightarrow> nat \<Rightarrow> nat \<Rightarrow> (('m, 'd) mstate, unit) act" where
  "write_fis env fis command sector count =
     sthen (set_field env FisRegH2D fis ''control'' 0)
     (sthen (set_field env FisRegH2D fis ''icc'' 0)
     (sthen (set_field env FisRegH2D fis ''featurel'' 0)
     (sthen (set_field env FisRegH2D fis ''featureh'' 0)
     (sthen (fill_zero env (fis + of_nat (field_offset FisRegH2D ''_reserved'')) 4)
     (sthen (set_field env FisRegH2D fis ''fis_type'' (fis_type_code RegH2D))
     (sthen (set_field env FisRegH2D fis ''device'' (push_bit 6 1))
     (sthen (set_field env FisRegH2D fis ''command'' (ata_code command))
     (sthen (set_field env FisRegH2D fis ''count'' (of_nat (count mod 2 ^ 16)))
     (sthen (set_lba env fis sector)
     (set_command env fis True))))))))))"

text \<open>The two waiting loops at the end of \<^verbatim>\<open>run_command\<close>. The first reads the task file register
  before it looks at its counter; the second leaves at a disk error.\<close>

definition port_busy :: "('m, 'd) menv \<Rightarrow> u64 \<Rightarrow> (('m, 'd) mstate, bool) act" where
  "port_busy env port =
     sbind (get_field env HbaPort port ''tfd'') (\<lambda>v.
       if v = 0x80 then ret True
       else sbind (get_field env HbaPort port ''tfd'') (\<lambda>v. ret (v = 0x08)))"

fun wait_not_busy :: "('m, 'd) menv \<Rightarrow> u64 \<Rightarrow> nat \<Rightarrow> (('m, 'd) mstate, nat) act" where
  "wait_not_busy env port 0 = sbind (port_busy env port) (\<lambda>b. ret 0)"
| "wait_not_busy env port (Suc spin) =
     sbind (port_busy env port) (\<lambda>b. if b then wait_not_busy env port spin else ret (Suc spin))"

fun wait_complete :: "('m, 'd) menv \<Rightarrow> nat \<Rightarrow> u64 \<Rightarrow> u64 \<Rightarrow> (('m, 'd) mstate, unit) act" where
  "wait_complete env 0 port slot_bit = halt Diverge"
| "wait_complete env (Suc fuel) port slot_bit =
     sbind (get_field env HbaPort port ''ci'') (\<lambda>ci.
       if ci AND slot_bit = 1 then
         sbind (get_field env HbaPort port ''is'') (\<lambda>is.
           if contains is (flag HbaPortIS ''TFES'')
           then sbind (get_field env HbaPort port ''serr'') (\<lambda>_. ret ())
           else wait_complete env fuel port slot_bit)
       else ret ())"

definition run_command ::
  "('m, 'd) menv \<Rightarrow> nat \<Rightarrow> u64 \<Rightarrow> AtaCommand \<Rightarrow> nat \<Rightarrow> nat \<Rightarrow> nat \<Rightarrow> dma_buffer list
   \<Rightarrow> (('m, 'd) mstate, unit) act" where
  "run_command env fuel port command sector count slot buffer =
     sbind (cmd_header_at env port slot) (\<lambda>header.
     sbind (get_field env HbaCmdHeader header ''flags'') (\<lambda>v.
     sbind (pure_exec (command_header_flags env command v)) (\<lambda>v.
     sthen (set_field env HbaCmdHeader header ''flags'' v)
     (sbind (pure_exec (nat_sub_ck count 1)) (\<lambda>c.
      let len_prdt = c div 16 + 1 in
      sthen (set_field env HbaCmdHeader header ''prdtl'' (of_nat (len_prdt mod 2 ^ 16)))
      (sbind (get_field env HbaCmdHeader header ''ctb'') (\<lambda>ctb.
       sbind (pure_exec (add_ck (moffset env) ctb)) (\<lambda>a.
       sbind (pure_exec (virt_new (mpage env) a)) (\<lambda>tbl.
       sthen (for_act (write_prdt env tbl len_prdt) (take len_prdt (enumerate 0 buffer)))
       (sthen (write_fis env (cfis_as_h2d_mut tbl) command sector count)
       (sbind (pure_exec (shl_ck (1 :: u32) slot)) (\<lambda>slot_bit.
        sthen (set_field env HbaPort port ''ci'' (ucast slot_bit))
        (sbind (wait_not_busy env port 100) (\<lambda>spin.
           if spin = 0 then ret ()
           else wait_complete env fuel port (ucast slot_bit)))))))))))))))"

section \<open>Requests\<close>

record ahci_port =
  port_address :: u64
  port_cmds :: "dma_request option list"
  port_free :: nat

definition ahci_port_new :: "u64 \<Rightarrow> ahci_port" where
  "ahci_port_new a = \<lparr>port_address = a, port_cmds = replicate 32 None, port_free = 32\<rparr>"

definition free_slot :: "dma_request option list \<Rightarrow> nat option" where
  "free_slot cmds = find (\<lambda>i. cmds ! i = None) [0..<length cmds]"

text \<open>\<^verbatim>\<open>AhciPortProtected::run_request\<close>: one command of at most 128 sectors after the other, each in
  a free slot. No code frees a slot.\<close>

function issue_commands ::
  "('m, 'd) menv \<Rightarrow> nat \<Rightarrow> dma_request \<Rightarrow> nat \<Rightarrow> nat \<Rightarrow> ahci_port
   \<Rightarrow> (('m, 'd) mstate, nat \<times> ahci_port) act" where
  "issue_commands env fuel req remaining offset p =
     (if remaining > 0 then
        (case free_slot (port_cmds p) of
           None \<Rightarrow> ret (offset, p)
         | Some i \<Rightarrow>
             let count = min remaining 128 in
             sbind (pure_exec (usize_add_ck (req_sector req) offset)) (\<lambda>sector.
             sbind (pure_exec (at_offset req offset)) (\<lambda>buffer.
             sthen (run_command env fuel (port_address p) (as_command req) sector count i buffer)
             (sbind (pure_exec (nat_sub_ck (port_free p) 1)) (\<lambda>n.
                issue_commands env fuel req (remaining - count) (offset + count)
                  (p\<lparr>port_cmds := (port_cmds p)[i := Some req], port_free := n\<rparr>))))))
      else ret (offset, p))"
  by pat_completeness auto
termination by (relation "measure (\<lambda>(env, fuel, req, remaining, offset, p). remaining)") auto

declare issue_commands.simps [simp del]

definition port_run_request ::
  "('m, 'd) menv \<Rightarrow> nat \<Rightarrow> dma_request \<Rightarrow> nat \<Rightarrow> ahci_port \<Rightarrow> (('m, 'd) mstate, nat \<times> ahci_port) act" where
  "port_run_request env fuel req offset p =
     sbind (pure_exec (nat_sub_ck (req_count req) offset)) (\<lambda>remaining.
       issue_commands env fuel req remaining offset p)"

text \<open>\<^verbatim>\<open>AhciPort::run_request\<close> repeats it until all sectors are issued; \<open>n\<close> bounds the repetitions.\<close>

fun request_loop ::
  "('m, 'd) menv \<Rightarrow> nat \<Rightarrow> nat \<Rightarrow> dma_request \<Rightarrow> nat \<Rightarrow> ahci_port \<Rightarrow> (('m, 'd) mstate, ahci_port) act" where
  "request_loop env fuel 0 req offset p =
     (if offset < req_count req then halt Diverge else ret p)"
| "request_loop env fuel (Suc n) req offset p =
     (if offset < req_count req then
        sbind (port_run_request env fuel req offset p) (\<lambda>(offset, p). request_loop env fuel n req offset p)
      else ret p)"

definition run_request ::
  "('m, 'd) menv \<Rightarrow> nat \<Rightarrow> nat \<Rightarrow> dma_request \<Rightarrow> ahci_port \<Rightarrow> (('m, 'd) mstate, nat option \<times> ahci_port) act" where
  "run_request env fuel n req p =
     sbind (request_loop env fuel n req 0 p) (\<lambda>p.
     sbind (pure_exec (usize_mul_ck (req_count req) 512)) (\<lambda>bytes. ret (Some bytes, p)))"

definition port_read ::
  "('m, 'd) menv \<Rightarrow> nat \<Rightarrow> nat \<Rightarrow> nat \<Rightarrow> u8 list \<Rightarrow> ahci_port
   \<Rightarrow> (('m, 'd) mstate, nat option \<times> u8 list \<times> ahci_port) act" where
  "port_read env fuel n sector buffer p =
     sbind (pure_exec (usize_add_ck (length buffer) 512)) (\<lambda>l.
     sbind (dma_request_new env sector ((l - 1) div 512)) (\<lambda>req.
     sbind (run_request env fuel n req p) (\<lambda>(result, p).
       case result of
         None \<Rightarrow> ret (None, buffer, p)
       | Some bytes \<Rightarrow> sbind (copy_into env req buffer) (\<lambda>buffer. ret (Some bytes, buffer, p)))))"

section \<open>The controller\<close>

record ahci_ctrl =
  ctrl_ports :: "ahci_port option list"
  ctrl_hba :: u64

definition ahci_ctrl_new :: ahci_ctrl where
  "ahci_ctrl_new = \<lparr>ctrl_ports = replicate 32 None, ctrl_hba = 0\<rparr>"

definition port_mut :: "u64 \<Rightarrow> nat \<Rightarrow> u64" where
  "port_mut hba i = hba + of_nat (struct_size HbaMemory + struct_size HbaPort * i)"

text \<open>The body of the loop over the 32 ports.\<close>

definition start_hba_port ::
  "('m, 'd) menv \<Rightarrow> nat \<Rightarrow> u64 \<Rightarrow> nat \<Rightarrow> ahci_ctrl \<Rightarrow> (('m, 'd) mstate, ahci_ctrl) act" where
  "start_hba_port env fuel pi i c =
     sbind (pure_exec (bf_get_bit (mbits env) 32 pi i)) (\<lambda>b.
       if b then
         sbind (port_probe env fuel (port_mut (ctrl_hba c) i)) (\<lambda>ok.
           if ok then
             sbind (pure_exec (virt_new (mpage env) (port_mut (ctrl_hba c) i))) (\<lambda>a.
               ret (c\<lparr>ctrl_ports := (ctrl_ports c)[i := Some (ahci_port_new a)]\<rparr>))
           else ret c)
       else ret c)"

fun start_hba_ports ::
  "('m, 'd) menv \<Rightarrow> nat \<Rightarrow> u64 \<Rightarrow> nat list \<Rightarrow> ahci_ctrl \<Rightarrow> (('m, 'd) mstate, ahci_ctrl) act" where
  "start_hba_ports env fuel pi [] c = ret c"
| "start_hba_ports env fuel pi (i # is) c =
     sbind (start_hba_port env fuel pi i c) (start_hba_ports env fuel pi is)"

definition start_hba :: "('m, 'd) menv \<Rightarrow> nat \<Rightarrow> ahci_ctrl \<Rightarrow> (('m, 'd) mstate, ahci_ctrl) act" where
  "start_hba env fuel c =
     (let hba = ctrl_hba c in
      sthen (set_field env HbaMemory hba ''bios_handoff_ctrl_sts''
               (flag HbaBohc ''OOC'' OR flag HbaBohc ''OOS''))
      (sbind (get_field env HbaMemory hba ''global_host_control'') (\<lambda>v.
       sthen (set_field env HbaMemory hba ''global_host_control'' (v OR flag HbaHostCont ''IE''))
       (sbind (get_field env HbaMemory hba ''version'') (\<lambda>_.
        sbind (get_field env HbaMemory hba ''ports_implemented'') (\<lambda>pi.
          start_hba_ports env fuel pi [0..<32] c))))))"

text \<open>The parsed configuration header: the sixth base address when the header is a normal one, and
  the command bits.\<close>

record pci_header =
  hdr_bar5 :: "u32 option"
  hdr_io_space :: bool
  hdr_memory_space :: bool
  hdr_bus_master :: bool

definition enable_interrupts :: "pci_header \<Rightarrow> pci_header" where
  "enable_interrupts h = h\<lparr>hdr_io_space := False, hdr_memory_space := True, hdr_bus_master := True\<rparr>"

text \<open>The test at the end of \<^verbatim>\<open>start_driver\<close>: one sector is read from every port.\<close>

fun read_test ::
  "('m, 'd) menv \<Rightarrow> nat \<Rightarrow> nat \<Rightarrow> ahci_port option list
   \<Rightarrow> (('m, 'd) mstate, ahci_port option list) act" where
  "read_test env fuel n [] = ret []"
| "read_test env fuel n (None # ps) =
     sbind (read_test env fuel n ps) (\<lambda>ps. ret (None # ps))"
| "read_test env fuel n (Some p # ps) =
     sbind (port_read env fuel n 0 (replicate 512 0) p) (\<lambda>(_, _, p).
     sbind (read_test env fuel n ps) (\<lambda>ps. ret (Some p # ps)))"

definition start_driver ::
  "('m, 'd) menv \<Rightarrow> nat \<Rightarrow> nat \<Rightarrow> pci_header \<Rightarrow> ahci_ctrl
   \<Rightarrow> (('m, 'd) mstate, pci_header \<times> ahci_ctrl) act" where
  "start_driver env fuel n h c =
     (case hdr_bar5 h of
        None \<Rightarrow> halt (Panic ExplicitPanic)
      | Some bar \<Rightarrow>
          let abar = ucast bar :: u64 in
          sbind (pure_exec (virt_new (mpage env) abar)) (\<lambda>a.
          sbind (pure_exec (add_ck (page_of (mpage env) a) (moffset env))) (\<lambda>abar_virt.
          sthen (mmap env abar abar_virt)
          (sbind (pure_exec (virt_new (mpage env) abar_virt)) (\<lambda>hba.
           sbind (start_hba env fuel (c\<lparr>ctrl_hba := hba\<rparr>)) (\<lambda>c.
           sbind (read_test env fuel n (ctrl_ports c)) (\<lambda>ps.
             ret (enable_interrupts h, c\<lparr>ctrl_ports := ps\<rparr>))))))))"

definition ahci_start ::
  "('m, 'd) menv \<Rightarrow> nat \<Rightarrow> nat \<Rightarrow> nat \<Rightarrow> pci_header \<Rightarrow> ahci_ctrl
   \<Rightarrow> (('m, 'd) mstate, pci_header \<times> ahci_ctrl) act" where
  "ahci_start env fuel n driver_count h c =
     (if driver_count = 1 then start_driver env fuel n h c else ret (h, c))"

section \<open>Layout\<close>

lemma FisRegH2D_layout [simp]:
  "field_offset FisRegH2D ''fis_type'' = 0" "field_size FisRegH2D ''fis_type'' = 1"
  "field_offset FisRegH2D ''flags'' = 1" "field_size FisRegH2D ''flags'' = 1"
  "field_offset FisRegH2D ''command'' = 2" "field_size FisRegH2D ''command'' = 1"
  "field_offset FisRegH2D ''featurel'' = 3" "field_size FisRegH2D ''featurel'' = 1"
  "field_offset FisRegH2D ''lba0'' = 4" "field_size FisRegH2D ''lba0'' = 1"
  "field_offset FisRegH2D ''lba1'' = 5" "field_size FisRegH2D ''lba1'' = 1"
  "field_offset FisRegH2D ''lba2'' = 6" "field_size FisRegH2D ''lba2'' = 1"
  "field_offset FisRegH2D ''device'' = 7" "field_size FisRegH2D ''device'' = 1"
  "field_offset FisRegH2D ''lba3'' = 8" "field_size FisRegH2D ''lba3'' = 1"
  "field_offset FisRegH2D ''lba4'' = 9" "field_size FisRegH2D ''lba4'' = 1"
  "field_offset FisRegH2D ''lba5'' = 10" "field_size FisRegH2D ''lba5'' = 1"
  "field_offset FisRegH2D ''featureh'' = 11" "field_size FisRegH2D ''featureh'' = 1"
  "field_offset FisRegH2D ''count'' = 12" "field_size FisRegH2D ''count'' = 2"
  "field_offset FisRegH2D ''icc'' = 14" "field_size FisRegH2D ''icc'' = 1"
  "field_offset FisRegH2D ''control'' = 15" "field_size FisRegH2D ''control'' = 1"
  "field_offset FisRegH2D ''_reserved'' = 16" "struct_size FisRegH2D = 20"
  by code_simp+

lemma HbaPrdtEntry_layout [simp]:
  "field_offset HbaPrdtEntry ''dba'' = 0" "field_size HbaPrdtEntry ''dba'' = 8"
  "field_offset HbaPrdtEntry ''flags'' = 12" "field_size HbaPrdtEntry ''flags'' = 4"
  "struct_size HbaPrdtEntry = 16"
  by (simp_all add: HbaPrdtEntry_def field_offset_def field_size_def align_up_def struct_size_def
      struct_align_def)

lemma HbaCmdTbl_layout [simp]:
  "field_offset HbaCmdTbl ''cfis'' = 0" "field_offset HbaCmdTbl ''prdt_entry'' = 128"
  by (simp_all add: HbaCmdTbl_def HbaPrdtEntry_def field_offset_def align_up_def struct_align_def)

lemma HbaCmdHeader_layout [simp]:
  "field_offset HbaCmdHeader ''flags'' = 0" "field_size HbaCmdHeader ''flags'' = 2"
  "field_offset HbaCmdHeader ''prdtl'' = 2" "field_size HbaCmdHeader ''prdtl'' = 2"
  "field_offset HbaCmdHeader ''prdbc'' = 4" "field_size HbaCmdHeader ''prdbc'' = 4"
  "field_offset HbaCmdHeader ''ctb'' = 8" "field_size HbaCmdHeader ''ctb'' = 8"
  "struct_size HbaCmdHeader = 32"
  by (simp_all add: HbaCmdHeader_def field_offset_def field_size_def align_up_def struct_size_def
      struct_align_def)

lemma HbaPort_layout [simp]:
  "field_offset HbaPort ''clb'' = 0" "field_size HbaPort ''clb'' = 8"
  "field_offset HbaPort ''is'' = 16" "field_size HbaPort ''is'' = 4"
  "field_offset HbaPort ''tfd'' = 32" "field_size HbaPort ''tfd'' = 4"
  "field_offset HbaPort ''serr'' = 52" "field_size HbaPort ''serr'' = 4"
  "field_offset HbaPort ''ci'' = 60" "field_size HbaPort ''ci'' = 4"
  "struct_size HbaPort = 136"
  by (simp_all add: HbaPort_def field_offset_def field_size_def align_up_def struct_size_def
      struct_align_def)

section \<open>The command FIS\<close>

text \<open>The 20 bytes of a host to device register FIS, and how its fields are read back.\<close>

definition h2d_fis :: "AtaCommand \<Rightarrow> nat \<Rightarrow> nat \<Rightarrow> u8 \<Rightarrow> u8 list" where
  "h2d_fis command sector count fl =
     (let lba = le_bytes 6 (of_nat sector :: u64); cnt = le_bytes 2 (of_nat count :: u64) in
      [0x27, set_bit 7 fl, ucast (ata_code command), 0, lba ! 0, lba ! 1, lba ! 2, 0x40,
       lba ! 3, lba ! 4, lba ! 5, 0, cnt ! 0, cnt ! 1, 0, 0, 0, 0, 0, 0])"

lemma set_command_run:
  assumes mem: "memory_at (mbus env) view base n" and n: "2 \<le> n" and bits: "bit_ops_ok (mbits env)"
  shows "\<exists>d. set_command env base True st = Inr ((), st\<lparr>mdev := d\<rparr>)
    \<and> view d = (view (mdev st))[1 := set_bit 7 (view (mdev st) ! 1)]"
proof -
  let ?x = "view (mdev st) ! 1"
  let ?d = "bus_write (mbus env) 1 (base + of_nat 1) (set_bit 7 (ucast ?x)) (mdev st)"
  have len: "length (view (mdev st)) = n" by (rule memory_atD(1) [OF mem])
  have "take 1 (drop 1 (view (mdev st))) = [?x]"
    using len n by (simp add: take_Suc hd_drop_conv_nth)
  then have "bus_read (mbus env) (Suc 0) (base + 1) (mdev st) = (ucast ?x, mdev st)"
    using memory_atD(2) [OF mem, of 1 1] n by simp
  then have "set_command env base True st = Inr ((), st\<lparr>mdev := ?d\<rparr>)"
    by (simp add: set_command_def act_simps get_field_run set_field_run bit_ops_okD(2) [OF bits])
  moreover have "ucast (set_bit 7 (ucast ?x :: u64)) = set_bit 7 ?x"
    by (rule bit_eqI) (auto simp: bit_simps dest: bit_imp_le_length)
  then have "view ?d = (view (mdev st))[1 := set_bit 7 ?x]"
    using memory_atD(3) [OF mem, of 1 1] len n
    by (simp add: patch_def le_bytes_1 upd_conv_take_nth_drop)
  ultimately show ?thesis by blast
qed

text \<open>The stores that fill the FIS, in program order, up to the command bit.\<close>

lemma write_fis_stores:
  fixes env :: "('m, 'd) menv" and base :: u64
  assumes "sector < 2 ^ 48"
  defines "W \<equiv> \<lambda>k w v d. bus_write (mbus env) w (base + of_nat k) v d"
    and "byte \<equiv> \<lambda>k. (ucast (ucast (drop_bit k (of_nat sector :: u64)) :: u8) :: u64)"
  shows "write_fis env base command sector count st = set_command env base True (st\<lparr>mdev :=
    W 10 1 (byte 40) (W 9 1 (byte 32) (W 8 1 (byte 24) (W 6 1 (byte 16)
    (W 5 1 (byte 8) (W 4 1 (byte 0) (W 12 2 (of_nat (count mod 2 ^ 16)) (W 2 1 (ata_code command)
    (W 7 1 (push_bit 6 1) (W 0 1 (fis_type_code RegH2D) (W 19 1 0 (W 18 1 0 (W 17 1 0 (W 16 1 0
    (W 11 1 0 (W 3 1 0 (W 14 1 0 (W 15 1 0 (mdev st))))))))))))))))))\<rparr>)"
proof -
  have set: "set_field env FisRegH2D base name v st
      = Inr ((), st\<lparr>mdev := W (field_offset FisRegH2D name) (field_size FisRegH2D name) v (mdev st)\<rparr>)"
    for name v st by (simp add: set_field_run W_def)
  have fill: "fill_zero env (base + 16) 4 st
      = Inr ((), st\<lparr>mdev := W 19 1 0 (W 18 1 0 (W 17 1 0 (W 16 1 0 (mdev st))))\<rparr>)" for st
    by (simp add: fill_zero_def wr_def exec_simps upt_rec add.assoc W_def)
  show ?thesis
    using assms(1) by (simp add: write_fis_def set_lba_def Let_def set fill act_simps byte_def)
qed

lemma write_fis_run:
  assumes mem: "memory_at (mbus env) view base n" and n: "20 \<le> n" and bits: "bit_ops_ok (mbits env)"
    and sector: "sector < 2 ^ 48" and count: "count < 2 ^ 16"
  shows "\<exists>d. write_fis env base command sector count st = Inr ((), st\<lparr>mdev := d\<rparr>)
    \<and> view d = h2d_fis command sector count (view (mdev st) ! 1) @ drop 20 (view (mdev st))"
proof -
  have "length (take 20 (view (mdev st))) = 20" using n memory_atD(1) [OF mem] by simp
  then obtain xs ys where view: "view (mdev st) = xs @ ys" "length xs = 20" "ys = drop 20 (view (mdev st))"
    by (metis append_take_drop_id)
  then obtain x0 x1 x2 x3 x4 x5 x6 x7 x8 x9 x10 x11 x12 x13 x14 x15 x16 x17 x18 x19
    where xs: "xs = [x0, x1, x2, x3, x4, x5, x6, x7, x8, x9, x10, x11, x12, x13, x14, x15, x16, x17, x18, x19]"
    by (auto simp: numeral_eq_Suc length_Suc_conv)
  define W where "W k w v d = bus_write (mbus env) w (base + of_nat k) v d" for k w v d
  define byte where "byte k = (ucast (ucast (drop_bit k (of_nat sector :: u64)) :: u8) :: u64)" for k
  obtain D where run: "write_fis env base command sector count st
      = set_command env base True (st\<lparr>mdev := D\<rparr>)"
    and D: "D = W 10 1 (byte 40) (W 9 1 (byte 32) (W 8 1 (byte 24) (W 6 1 (byte 16)
      (W 5 1 (byte 8) (W 4 1 (byte 0) (W 12 2 (of_nat (count mod 2 ^ 16)) (W 2 1 (ata_code command)
      (W 7 1 (push_bit 6 1) (W 0 1 (fis_type_code RegH2D) (W 19 1 0 (W 18 1 0 (W 17 1 0 (W 16 1 0
      (W 11 1 0 (W 3 1 0 (W 14 1 0 (W 15 1 0 (mdev st))))))))))))))))))"
    using write_fis_stores [OF sector] unfolding W_def byte_def by blast
  have W: "view (W k w v d) = patch (view d) k (le_bytes w v)" if "k + w \<le> 20" for k w v d
    using that n memory_atD(3) [OF mem] by (simp add: W_def)
  have bytes: "ucast (byte (8 * k)) = le_bytes 6 (of_nat sector :: u64) ! k" if "k < 6" for k
    using that by (simp add: le_bytes_def byte_def ucast_u8_u64)
  have two: "le_bytes 2 (of_nat (count mod 65536) :: u64) = [cnt ! 0, cnt ! 1]"
    if "cnt = le_bytes 2 (of_nat count :: u64)" for cnt
    using count that by (simp add: le_bytes_def upt_rec)
  have view_D: "view D = (h2d_fis command sector count x1)[1 := x1] @ ys"
    unfolding D
    using bytes [of 0] bytes [of 1] bytes [of 2] bytes [of 3] bytes [of 4] bytes [of 5]
    by (simp add: W patch_def view(1) xs le_bytes_1 two [OF refl] h2d_fis_def Let_def)
  moreover have "view (mdev st) ! 1 = x1" unfolding view(1) xs by simp
  ultimately show ?thesis
    using set_command_run [OF mem _ bits, of "st\<lparr>mdev := D\<rparr>"] n run
    by (simp add: h2d_fis_def Let_def flip: view(3))
qed

section \<open>The region descriptors\<close>

text \<open>Entry \<open>i\<close> of the table describes the buffer \<open>b\<close>, with the interrupt bit as given.\<close>

definition prdt_entry_ok :: "u8 list \<Rightarrow> nat \<Rightarrow> dma_buffer \<Rightarrow> bool \<Rightarrow> bool" where
  "prdt_entry_ok v i b irq \<longleftrightarrow>
     le_value (take 8 (drop (128 + 16 * i) v)) = unat (buf_start b)
     \<and> le_value (take 4 (drop (128 + 16 * i + 12) v)) mod 2 ^ 21 = buf_size b - 1
     \<and> bit (le_value (take 4 (drop (128 + 16 * i + 12) v))) 31 = irq"

lemma prdt_flags:
  fixes x :: u64 and irq :: bool
  assumes "sz < 2 ^ 21"
  defines "y \<equiv> (x AND NOT (mask 21)) OR of_nat sz"
  defines "z \<equiv> (if irq then set_bit 31 else unset_bit 31) (of_nat (unat y mod 2 ^ 32) :: u64)"
  shows "unat z mod 2 ^ 32 mod 2 ^ 21 = sz" and "bit (unat z mod 2 ^ 32) 31 = irq"
proof -
  have small: "take_bit 21 (of_nat sz :: u64) = of_nat sz"
    using assms(1) by (simp add: take_bit_of_nat take_bit_nat_eq_self)
  have y: "(of_nat (unat y mod 2 ^ 32) :: u64) = take_bit 32 y"
  proof -
    have "unat y mod 2 ^ 32 = unat (take_bit 32 y)"
      by (simp only: unsigned_take_bit_eq flip: take_bit_eq_mod)
    then show ?thesis by (simp only: of_nat_unat ucast_id)
  qed
  have "take_bit 21 z = take_bit 21 y"
    unfolding z_def y by (rule bit_eqI) (auto simp: bit_simps)
  also have "\<dots> = of_nat sz"
    unfolding y_def by (subst small [symmetric], rule bit_eqI) (auto simp: bit_simps)
  finally have t: "take_bit 21 z = of_nat sz" .
  have "unat z mod 2 ^ 32 mod 2 ^ 21 = unat (take_bit 21 z)"
    by (simp only: unsigned_take_bit_eq take_bit_take_bit flip: take_bit_eq_mod)
  then show "unat z mod 2 ^ 32 mod 2 ^ 21 = sz"
    using assms(1) by (simp add: t unat_of_nat)
  have "bit (unat z mod 2 ^ 32) 31 = bit z 31"
    by (simp only: flip: take_bit_eq_mod) (simp add: bit_simps)
  then show "bit (unat z mod 2 ^ 32) 31 = irq"
    unfolding z_def y by (simp add: bit_simps)
qed

lemma write_prdt_run:
  assumes mem: "memory_at (mbus env) view base n" and bits: "bit_ops_ok (mbits env)"
    and n: "128 + 16 * (i + 1) \<le> n" and sz: "0 < buf_size b" "buf_size b \<le> 2 ^ 21" and len: "0 < len"
  shows "\<exists>d x y z. write_prdt env base len (i, b) st = Inr ((), st\<lparr>mdev := d\<rparr>)
    \<and> y = ((x :: u64) AND NOT (mask 21)) OR of_nat (buf_size b - 1)
    \<and> z = (if i = len - 1 then set_bit 31 else unset_bit 31) (of_nat (unat y mod 2 ^ 32) :: u64)
    \<and> view d = patch (patch (patch (view (mdev st)) (128 + 16 * i) (le_bytes 8 (buf_start b)))
         (128 + 16 * i + 12) (le_bytes 4 y)) (128 + 16 * i + 12) (le_bytes 4 z)"
proof -
  let ?e = "128 + 16 * i" and ?v = "view (mdev st)" and ?s = "buf_size b - 1"
  have e: "?e + 8 \<le> n" "?e + 12 + 4 \<le> n" using n by simp_all
  have flags: "prdt_entry_mut base i + of_nat 12 = base + of_nat (?e + 12)"
    by (simp add: prdt_entry_mut_def add.assoc)
  define d1 where "d1 = bus_write (mbus env) 8 (base + of_nat ?e) (buf_start b) (mdev st)"
  define x :: u64 where "x = of_nat (le_value (take 4 (drop (?e + 12) (view d1))))"
  define y where "y = (x AND NOT (mask 21)) OR of_nat ?s"
  define d2 where "d2 = bus_write (mbus env) 4 (base + of_nat (?e + 12)) y d1"
  define z where "z = (if i = len - 1 then set_bit 31 else unset_bit 31) (of_nat (unat y mod 2 ^ 32) :: u64)"
  define d3 where "d3 = bus_write (mbus env) 4 (base + of_nat (?e + 12)) z d2"
  have v1: "view d1 = patch ?v ?e (le_bytes 8 (buf_start b))"
    unfolding d1_def by (rule memory_atD(3) [OF mem e(1)])
  have v2: "view d2 = patch (view d1) (?e + 12) (le_bytes 4 y)"
    unfolding d2_def by (rule memory_atD(3) [OF mem e(2)])
  have v3: "view d3 = patch (view d2) (?e + 12) (le_bytes 4 z)"
    unfolding d3_def by (rule memory_atD(3) [OF mem e(2)])
  have r1: "bus_read (mbus env) 4 (base + of_nat (?e + 12)) d1 = (x, d1)"
    unfolding x_def by (rule memory_atD(2) [OF mem e(2)])
  have lens: "length ?v = n" "length (view d1) = n" "length (view d2) = n"
    by (rule memory_atD(1) [OF mem])+
  have "take 4 (drop (?e + 12) (view d2)) = le_bytes 4 y"
    unfolding v2 using read_patch(1) [of "?e + 12" "le_bytes 4 y"] e(2) lens by (simp add: length_le_bytes)
  then have r2: "bus_read (mbus env) 4 (base + of_nat (?e + 12)) d2 = (of_nat (unat y mod 2 ^ 32), d2)"
    using memory_atD(2) [OF mem e(2)] by (simp add: le_value_le_bytes)
  have s: "take_bit 21 (of_nat ?s :: u64) = of_nat ?s"
    using sz by (simp add: take_bit_of_nat take_bit_nat_eq_self del: of_nat_diff)
  note at = r1 [folded flags, simplified] r2 [folded flags, simplified]
    d1_def d2_def [folded flags, simplified] d3_def [folded flags, simplified]
  have "set_data_byte_count env (prdt_entry_mut base i) ?s (st\<lparr>mdev := d1\<rparr>) = Inr ((), st\<lparr>mdev := d2\<rparr>)"
    using sz s by (simp add: set_data_byte_count_def act_simps get_field_run set_field_run at(1,4) y_def
        bit_ops_okD(4) [OF bits] del: of_nat_diff)
  moreover have "set_interrupt_on_completion env (prdt_entry_mut base i) (i = len - 1) (st\<lparr>mdev := d2\<rparr>)
      = Inr ((), st\<lparr>mdev := d3\<rparr>)"
    by (simp add: set_interrupt_on_completion_def act_simps get_field_run set_field_run at(2,5) z_def
        bit_ops_okD(2) [OF bits])
  moreover have "set_field env HbaPrdtEntry (prdt_entry_mut base i) ''dba'' (buf_start b) st
      = Inr ((), st\<lparr>mdev := d1\<rparr>)"
    by (simp add: set_field_run d1_def prdt_entry_mut_def)
  ultimately have "write_prdt env base len (i, b) st = Inr ((), st\<lparr>mdev := d3\<rparr>)"
    using sz(1) len by (simp add: write_prdt_def Let_def act_simps nat_sub_ck_def)
  then show ?thesis using v1 v2 v3 y_def z_def by metis
qed

lemma write_prdt_entry:
  assumes mem: "memory_at (mbus env) view base n" and bits: "bit_ops_ok (mbits env)"
    and n: "128 + 16 * (i + 1) \<le> n" and sz: "0 < buf_size b" "buf_size b \<le> 2 ^ 21" and len: "0 < len"
  shows "\<exists>d. write_prdt env base len (i, b) st = Inr ((), st\<lparr>mdev := d\<rparr>)
    \<and> prdt_entry_ok (view d) i b (i = len - 1)
    \<and> take (128 + 16 * i) (view d) = take (128 + 16 * i) (view (mdev st))
    \<and> drop (128 + 16 * (i + 1)) (view d) = drop (128 + 16 * (i + 1)) (view (mdev st))"
proof -
  let ?e = "128 + 16 * i" and ?v = "view (mdev st)"
  obtain d x y z where run: "write_prdt env base len (i, b) st = Inr ((), st\<lparr>mdev := d\<rparr>)"
    and y: "y = ((x :: u64) AND NOT (mask 21)) OR of_nat (buf_size b - 1)"
    and z: "z = (if i = len - 1 then set_bit 31 else unset_bit 31) (of_nat (unat y mod 2 ^ 32) :: u64)"
    and d: "view d = patch (patch (patch ?v ?e (le_bytes 8 (buf_start b)))
      (?e + 12) (le_bytes 4 y)) (?e + 12) (le_bytes 4 z)"
    using write_prdt_run [OF assms] by blast
  have len: "length ?v = n" by (rule memory_atD(1) [OF mem])
  have "take 4 (drop (?e + 12) (view d)) = le_bytes 4 z"
    unfolding d using read_patch(1) [of "?e + 12" "le_bytes 4 z"] n len by (simp add: length_le_bytes)
  moreover have "take 8 (drop ?e (view d)) = le_bytes 8 (buf_start b)"
    unfolding d using read_patch(1) [of ?e "le_bytes 8 (buf_start b)" ?v] n len
    by (simp add: read_patch(2) length_le_bytes)
  moreover have "buf_size b - 1 < 2 ^ 21" using sz by simp
  ultimately have "prdt_entry_ok (view d) i b (i = len - 1)"
    using prdt_flags [where sz = "buf_size b - 1" and x = x and irq = "i = len - 1"] unat_lt_2p [of "buf_start b"]
    unfolding prdt_entry_ok_def by (simp add: le_value_le_bytes y z del: of_nat_diff)
  moreover have "take ?e (view d) = take ?e ?v"
    unfolding d using n len by (intro nth_equalityI) (simp_all add: nth_patch length_le_bytes)
  moreover have "drop (128 + 16 * (i + 1)) (view d) = drop (128 + 16 * (i + 1)) ?v"
    unfolding d using n len by (intro nth_equalityI) (simp_all add: nth_patch length_le_bytes)
  ultimately show ?thesis using run by blast
qed

lemma prdt_entry_ok_cong:
  assumes "take (128 + 16 * (i + 1)) v = take (128 + 16 * (i + 1)) w"
  shows "prdt_entry_ok v i b irq = prdt_entry_ok w i b irq"
proof -
  have "take k (drop e v) = take k (drop e w)" if "e + k \<le> 128 + 16 * (i + 1)" for e k
    using arg_cong [OF assms, of "\<lambda>xs. drop e (take (e + k) xs)"] that
    by (simp add: min_absorb2 drop_take)
  then show ?thesis unfolding prdt_entry_ok_def by simp
qed

lemma write_prdt_loop:
  assumes mem: "memory_at (mbus env) view base n" and bits: "bit_ops_ok (mbits env)" and len: "0 < len"
    and "128 + 16 * (j + length bs) \<le> n"
    and "\<forall>b \<in> set bs. 0 < buf_size b \<and> buf_size b \<le> 2 ^ 21"
  shows "\<exists>d. for_act (write_prdt env base len) (enumerate j bs) st = Inr ((), st\<lparr>mdev := d\<rparr>)
    \<and> (\<forall>i < length bs. prdt_entry_ok (view d) (j + i) (bs ! i) (j + i = len - 1))
    \<and> take (128 + 16 * j) (view d) = take (128 + 16 * j) (view (mdev st))"
  using assms(4,5)
proof (induction bs arbitrary: j st)
  case Nil
  show ?case by (intro exI [of _ "mdev st"]) (simp add: act_simps)
next
  case (Cons b bs)
  obtain d1 where d1: "write_prdt env base len (j, b) st = Inr ((), st\<lparr>mdev := d1\<rparr>)"
    "prdt_entry_ok (view d1) j b (j = len - 1)"
    "take (128 + 16 * j) (view d1) = take (128 + 16 * j) (view (mdev st))"
    using write_prdt_entry [OF mem bits, of j b len st] Cons.prems len by auto
  obtain d where d: "for_act (write_prdt env base len) (enumerate (Suc j) bs) (st\<lparr>mdev := d1\<rparr>)
      = Inr ((), st\<lparr>mdev := d\<rparr>)"
    "\<forall>i < length bs. prdt_entry_ok (view d) (Suc j + i) (bs ! i) (Suc j + i = len - 1)"
    "take (128 + 16 * Suc j) (view d) = take (128 + 16 * Suc j) (view d1)"
    using Cons.IH [of "Suc j" "st\<lparr>mdev := d1\<rparr>"] Cons.prems by auto
  have "prdt_entry_ok (view d) j b (j = len - 1)"
    using prdt_entry_ok_cong [of j "view d" "view d1"] d(3) d1(2) by simp
  moreover have "take (128 + 16 * j) (view d) = take (128 + 16 * j) (view (mdev st))"
    using arg_cong [OF d(3), of "take (128 + 16 * j)"] d1(3) by (simp add: min_absorb1)
  ultimately show ?case using d1(1) d(1,2) by (auto simp: act_simps less_Suc_eq_0_disj)
qed

section \<open>Programming a command\<close>

text \<open>The hardware's side of a command in \<open>slot\<close>: the port's command list base leads to the
  command header at \<open>hdr\<close>; the header and the command table at \<open>tbl\<close> are memory, apart from each
  other and from the port's registers; the header's \<^verbatim>\<open>ctb\<close> leads to the table.\<close>

definition command_memory ::
  "('m, 'd) menv \<Rightarrow> u64 \<Rightarrow> nat \<Rightarrow> u64 \<Rightarrow> u64 \<Rightarrow> ('d \<Rightarrow> u8 list) \<Rightarrow> ('d \<Rightarrow> u8 list) \<Rightarrow> 'd \<Rightarrow> bool" where
  "command_memory env port slot hdr tbl hview tview d \<longleftrightarrow>
     (\<exists>clb c ctb. bus_read (mbus env) 8 port d = (clb, d)
        \<and> add_ck clb (moffset env) = Inr c \<and> virt_new (mpage env) c = Inr c
        \<and> add_ck c (of_nat (32 * slot)) = Inr hdr \<and> virt_new (mpage env) hdr = Inr hdr
        \<and> take 8 (drop 8 (hview d)) = le_bytes 8 ctb
        \<and> add_ck (moffset env) ctb = Inr tbl \<and> virt_new (mpage env) tbl = Inr tbl)
     \<and> memory_at (mbus env) hview hdr 32 \<and> memory_at (mbus env) tview tbl 256
     \<and> outside tbl 256 hdr 32 \<and> outside tbl 256 port 136"

text \<open>The device is not busy, and the bit of \<^verbatim>\<open>ci\<close> the driver looks at is clear.\<close>

definition port_responds :: "('m, 'd) menv \<Rightarrow> u64 \<Rightarrow> nat \<Rightarrow> bool" where
  "port_responds env port slot \<longleftrightarrow>
     (\<forall>d. fst (bus_read (mbus env) 4 (port + 32) d) \<noteq> 0x80)
     \<and> (\<forall>d. fst (bus_read (mbus env) 4 (port + 32) d) \<noteq> 0x08)
     \<and> (\<forall>d. fst (bus_read (mbus env) 4 (port + 60) d) AND 2 ^ slot \<noteq> 1)"

lemma wait_run:
  assumes mem: "memory_at (mbus env) view base n" and port: "outside base n port 136"
    and resp: "port_responds env port slot"
  shows "\<exists>d. sbind (wait_not_busy env port 100) (\<lambda>spin.
       if spin = 0 then ret () else wait_complete env (Suc fuel) port (2 ^ slot)) st
     = Inr ((), st\<lparr>mdev := d\<rparr>) \<and> view d = view (mdev st)"
proof -
  define r where "r k d = bus_read (mbus env) 4 (port + of_nat k) d" for k d
  have keep: "view (snd (r k d)) = view d" if "k + 4 \<le> 136" for k d
    unfolding r_def by (rule memory_at_elsewhere(2) [OF mem port that]) simp
  have get: "get_field env HbaPort port ''tfd'' st = Inr (fst (r 32 (mdev st)), st\<lparr>mdev := snd (r 32 (mdev st))\<rparr>)"
    "get_field env HbaPort port ''ci'' st = Inr (fst (r 60 (mdev st)), st\<lparr>mdev := snd (r 60 (mdev st))\<rparr>)" for st
    by (simp_all add: get_field_run r_def split: prod.split)
  have not: "fst (r 32 d) \<noteq> 128" "fst (r 32 d) \<noteq> 8" "fst (r 60 d) AND 2 ^ slot \<noteq> 1" for d
    using resp by (simp_all add: port_responds_def r_def)
  let ?d = "snd (r 60 (snd (r 32 (snd (r 32 (mdev st))))))"
  have busy: "port_busy env port st = Inr (False, st\<lparr>mdev := snd (r 32 (snd (r 32 (mdev st))))\<rparr>)"
    by (simp add: port_busy_def act_simps get not)
  have "wait_not_busy env port (Suc k) st
      = Inr (Suc k, st\<lparr>mdev := snd (r 32 (snd (r 32 (mdev st))))\<rparr>)" for k
    by (simp add: act_simps busy)
  from this [of 99]
  have "wait_not_busy env port 100 st = Inr (100, st\<lparr>mdev := snd (r 32 (snd (r 32 (mdev st))))\<rparr>)"
    by simp
  then show ?thesis
    by (intro exI [of _ ?d]) (simp add: act_simps get not keep)
qed

lemma header_flags_run:
  assumes "bit_ops_ok (mbits env)"
  shows "\<exists>w. command_header_flags env command v = Inr w \<and> take_bit 5 w = take_bit 5 v
    \<and> bit w 6 = (command = WriteDmaExt \<or> command = WriteDma) \<and> bit w 7 \<and> bit w 10"
proof -
  have f: "flag HbaCmdHeaderFlags ''W'' = push_bit 6 1" "flag HbaCmdHeaderFlags ''P'' = push_bit 7 1"
    "flag HbaCmdHeaderFlags ''C'' = push_bit 10 1"
    by (simp_all add: flag_def HbaCmdHeaderFlags_def)
  have five: "bf_set_bits (mbits env) 16 x 0 5 5 = Inr ((x AND NOT (mask 5)) OR 5)" for x
    using bit_ops_okD(4) [OF assms, of 0 5 16 5 x] by (simp add: take_bit_eq_mod)
  have low: "take_bit 5 (x OR push_bit k 1) = take_bit 5 x"
    "take_bit 5 (x AND NOT (push_bit k 1)) = take_bit 5 x" if "5 \<le> k" for x :: u64 and k
    using that by (auto intro!: bit_eqI simp: bit_simps)
  have "take_bit 5 (x OR (push_bit 7 1 OR push_bit 10 1)) = take_bit 5 x" for x :: u64
    using low(1) [of 10 "x OR push_bit 7 1"] low(1) [of 7 x] by (simp add: or.assoc)
  moreover note low [of 6 v]
  ultimately show ?thesis
    unfolding command_header_flags_def f
    by (simp add: Let_def set_command_fis_size_def five bit_simps
        del: push_bit_of_1)
qed

lemma command_setup:
  assumes mem: "command_memory env port slot hdr tbl hview tview (mdev st)"
    and bits: "bit_ops_ok (mbits env)" and slot: "slot < 32" and count: "0 < count"
  shows "\<exists>d. tview d = tview (mdev st)
    \<and> run_command env fuel port command sector count slot buffer st =
      sthen (for_act (write_prdt env tbl ((count - 1) div 16 + 1))
               (take ((count - 1) div 16 + 1) (enumerate 0 buffer)))
      (sthen (write_fis env tbl command sector count)
      (sthen (set_field env HbaPort port ''ci'' (2 ^ slot))
      (sbind (wait_not_busy env port 100) (\<lambda>spin.
         if spin = 0 then ret () else wait_complete env fuel port (2 ^ slot))))) (st\<lparr>mdev := d\<rparr>)"
proof -
  let ?d = "mdev st" and ?len = "(count - 1) div 16 + 1"
  from mem obtain clb c ctb where clb: "bus_read (mbus env) 8 port ?d = (clb, ?d)"
      "add_ck clb (moffset env) = Inr c" "virt_new (mpage env) c = Inr c"
      "add_ck c (of_nat (32 * slot)) = Inr hdr" "virt_new (mpage env) hdr = Inr hdr"
    and ctb: "take 8 (drop 8 (hview ?d)) = le_bytes 8 ctb"
      "add_ck (moffset env) ctb = Inr tbl" "virt_new (mpage env) tbl = Inr tbl"
    and hm: "memory_at (mbus env) hview hdr 32" and tm: "memory_at (mbus env) tview tbl 256"
    and out: "outside tbl 256 hdr 32" by (auto simp: command_memory_def)
  have hdr: "cmd_header_at env port slot st = Inr (hdr, st)"
    using clb by (simp add: cmd_header_at_def act_simps get_field_run)
  obtain w where w: "command_header_flags env command (of_nat (le_value (take 2 (hview ?d)))) = Inr w"
    using header_flags_run [OF bits] by blast
  define d1 where "d1 = bus_write (mbus env) 2 hdr w ?d"
  define d2 where "d2 = bus_write (mbus env) 2 (hdr + of_nat 2) (of_nat (?len mod 2 ^ 16)) d1"
  have flags: "bus_read (mbus env) 2 hdr ?d = (of_nat (le_value (take 2 (hview ?d))), ?d)"
    using memory_at_numeral(1) [OF hm] by simp
  have view: "hview d2 = patch (patch (hview ?d) 0 (le_bytes 2 w)) 2 (le_bytes 2 (of_nat (?len mod 2 ^ 16) :: u64))"
    unfolding d2_def d1_def using memory_atD(3) [OF hm, of 0 2] memory_atD(3) [OF hm, of 2 2] by simp
  have "take 8 (drop 8 (hview d2)) = le_bytes 8 ctb"
    unfolding view ctb(1) [symmetric] using memory_atD(1) [OF hm] by (simp add: read_patch(2) length_le_bytes)
  then have "bus_read (mbus env) 8 (hdr + 8) d2 = (ctb, d2)"
    using memory_at_numeral(2) [OF hm, of _ 8 d2] unat_lt_2p [of ctb] by (simp add: le_value_le_bytes)
  moreover have "tview d2 = tview ?d"
    unfolding d2_def d1_def using memory_at_elsewhere(1) [OF tm out, of 0 2]
      memory_at_elsewhere(1) [OF tm out, of 2 2] by simp
  moreover have "ucast (push_bit slot 1 :: u32) = (2 ^ slot :: u64)"
    using slot by (auto intro!: bit_eqI simp: bit_simps)
  moreover have "bus_write (mbus env) 2 (hdr + 2) (of_nat (Suc ((count - Suc 0) div 16) mod 65536)) d1 = d2"
    by (simp add: d2_def)
  ultimately show ?thesis using count slot
    by (intro exI [of _ d2])
      (simp add: run_command_def act_simps hdr get_field_run set_field_run flags w nat_sub_ck_def Let_def
        d1_def [symmetric] ctb shl_ck_def cfis_as_h2d_mut_def cong: if_cong)
qed

section \<open>A concrete machine\<close>

definition ahci_env :: "(unit, u64 \<Rightarrow> u8) menv" where
  "ahci_env = \<lparr>
     mpage = \<lparr>pphys = ref_phys_ops, virt_new = (\<lambda>a. Inr a), page_of = page_down,
       page_range = (\<lambda>b e. []),
       map_to = (\<lambda>mp fa p f fl. (Some (PageAlreadyMapped f), mp, fa)),
       unmap = (\<lambda>mp p. (None, mp))\<rparr>,
     mflags = \<lparr>pf_present = 1, pf_writable = 2, pf_no_cache = 16, pf_write_through = 8\<rparr>,
     moffset = 0, mbus = zero_registers {0x10020, 0x1003c} plain_bus, mbits = ref_bit_ops,
     mphys_new = (\<lambda>a. Inr a)\<rparr>"

definition ahci_state :: "(unit, u64 \<Rightarrow> u8) mstate" where
  "ahci_state = \<lparr>mkm = \<lparr>kmapper = Some (), kfalloc = Some (falloc_new example_map)\<rparr>,
     mdev = (\<lambda>a. if a = 9 then 0x10 else 0)\<rparr>"

lemma example_command_memory:
  "command_memory ahci_env 0x10000 0 0 0x1000 (plain_view 0 32) (plain_view 0x1000 256)
     (mdev ahci_state)"
proof -
  have no: "of_nat k \<noteq> x" if "k < unat x" for k and x :: u64
    using that unat_lt_2p [of x] by (auto simp: unat_of_nat)
  have "memory_at (mbus ahci_env) (plain_view 0 32) 0 32"
    "memory_at (mbus ahci_env) (plain_view 0x1000 256) 0x1000 256"
    unfolding ahci_env_def
    by (auto intro!: memory_at_zero_registers plain_memory_at dest: no [rotated] simp: no)
  moreover have "take 8 (drop 8 (plain_view 0 32 (mdev ahci_state))) = le_bytes 8 (0x1000 :: u64)"
    by (simp add: plain_view_def ahci_state_def le_bytes_def upt_rec)
  moreover have "bus_read (mbus ahci_env) 8 0x10000 (mdev ahci_state) = (0, mdev ahci_state)"
    by (simp add: ahci_env_def zero_registers_def plain_bus_def ahci_state_def upt_rec)
  ultimately show ?thesis
    unfolding command_memory_def by (auto simp: ahci_env_def add_ck_def outside_def)
qed

lemma example_port_responds: "port_responds ahci_env 0x10000 0"
  by (simp add: port_responds_def ahci_env_def zero_registers_def)

lemma h2d_fis_decode:
  assumes "sector < 2 ^ 48" and "count < 2 ^ 16" and f_def: "f = h2d_fis command sector count fl"
  shows "le_value [f ! 4, f ! 5, f ! 6, f ! 8, f ! 9, f ! 10] = sector"
    and "le_value [f ! 12, f ! 13] = count"
proof -
  have "[f ! 4, f ! 5, f ! 6, f ! 8, f ! 9, f ! 10] = le_bytes 6 (of_nat sector :: u64)"
    by (simp add: f_def h2d_fis_def Let_def le_bytes_def upt_rec)
  then show "le_value [f ! 4, f ! 5, f ! 6, f ! 8, f ! 9, f ! 10] = sector"
    using assms(1) by (simp only: le_value_le_bytes) (simp add: unat_of_nat)
  have "[f ! 12, f ! 13] = le_bytes 2 (of_nat count :: u64)"
    by (simp add: f_def h2d_fis_def Let_def le_bytes_def upt_rec)
  then show "le_value [f ! 12, f ! 13] = count"
    using assms(2) by (simp only: le_value_le_bytes) (simp add: unat_of_nat)
qed

lemma prdt_entry_ok_drop:
  assumes "drop 20 v = drop 20 w"
  shows "prdt_entry_ok v i b irq = prdt_entry_ok w i b irq"
proof -
  have "drop e v = drop e w" if "20 \<le> e" for e
    using arg_cong [OF assms, of "drop (e - 20)"] that by simp
  then show ?thesis by (simp add: prdt_entry_ok_def)
qed

lemma command_table:
  fixes tview :: "'d \<Rightarrow> u8 list" and st :: "('m, 'd) mstate"
  assumes mem: "command_memory env port slot hdr tbl hview tview (mdev st)"
    and bits: "bit_ops_ok (mbits env)" and resp: "port_responds env port slot"
    and slot: "slot < 32" and count: "0 < count" "count \<le> 128" and sector: "sector < 2 ^ 48"
    and sizes: "\<forall>b \<in> set buffer. 0 < buf_size b \<and> buf_size b \<le> 2 ^ 21"
  shows "\<exists>d w. run_command env (Suc fuel) port command sector count slot buffer st = Inr ((), st\<lparr>mdev := d\<rparr>)
    \<and> tview d = h2d_fis command sector count (w ! 1) @ drop 20 w
    \<and> (\<forall>i < min ((count - 1) div 16 + 1) (length buffer).
         prdt_entry_ok w i (buffer ! i) (i = (count - 1) div 16))"
proof -
  let ?n = "(count - 1) div 16 + 1"
  let ?bs = "take ?n buffer"
  from mem have tm: "memory_at (mbus env) tview tbl 256" and port: "outside tbl 256 port 136"
    by (auto simp: command_memory_def)
  obtain d1 where d1: "tview d1 = tview (mdev st)"
    and run: "run_command env (Suc fuel) port command sector count slot buffer st =
      sthen (for_act (write_prdt env tbl ?n) (take ?n (enumerate 0 buffer)))
      (sthen (write_fis env tbl command sector count)
      (sthen (set_field env HbaPort port ''ci'' (2 ^ slot))
      (sbind (wait_not_busy env port 100) (\<lambda>spin.
         if spin = 0 then ret () else wait_complete env (Suc fuel) port (2 ^ slot))))) (st\<lparr>mdev := d1\<rparr>)"
    using command_setup [OF mem bits slot count(1)] by blast
  have enum: "take ?n (enumerate 0 buffer) = enumerate 0 ?bs"
    by (simp add: enumerate_eq_zip take_zip min_def)
  have "?n \<le> 8" using count by simp
  then have fits: "128 + 16 * (0 + length ?bs) \<le> 256" by (simp add: min_def)
  obtain d2 where d2: "for_act (write_prdt env tbl ?n) (enumerate 0 ?bs) (st\<lparr>mdev := d1\<rparr>)
      = Inr ((), st\<lparr>mdev := d2\<rparr>)"
    "\<forall>i < length ?bs. prdt_entry_ok (tview d2) i (?bs ! i) (i = ?n - 1)"
    using write_prdt_loop [OF tm bits _ fits, of ?n "st\<lparr>mdev := d1\<rparr>"] sizes
    by (auto dest: in_set_takeD)
  obtain d3 where d3: "write_fis env tbl command sector count (st\<lparr>mdev := d2\<rparr>) = Inr ((), st\<lparr>mdev := d3\<rparr>)"
    "tview d3 = h2d_fis command sector count (tview d2 ! 1) @ drop 20 (tview d2)"
    using write_fis_run [OF tm _ bits sector, of count command "st\<lparr>mdev := d2\<rparr>"] count by auto
  define d4 where "d4 = bus_write (mbus env) 4 (port + of_nat 60) (2 ^ slot) d3"
  have d4: "tview d4 = tview d3"
    unfolding d4_def by (rule memory_at_elsewhere(1) [OF tm port]) simp_all
  obtain d where d: "sbind (wait_not_busy env port 100) (\<lambda>spin.
       if spin = 0 then ret () else wait_complete env (Suc fuel) port (2 ^ slot)) (st\<lparr>mdev := d4\<rparr>)
     = Inr ((), st\<lparr>mdev := d\<rparr>)" "tview d = tview d4"
    using wait_run [OF tm port resp, of fuel "st\<lparr>mdev := d4\<rparr>"] by auto
  have "run_command env (Suc fuel) port command sector count slot buffer st = Inr ((), st\<lparr>mdev := d\<rparr>)"
    unfolding run enum using d2(1) d3(1) d(1) by (simp add: act_simps set_field_run d4_def)
  moreover have "tview d = h2d_fis command sector count (tview d2 ! 1) @ drop 20 (tview d2)"
    using d(2) d4 d3(2) by simp
  moreover have "\<forall>i < min ?n (length buffer). prdt_entry_ok (tview d2) i (buffer ! i) (i = (count - 1) div 16)"
    using d2(2) by (simp add: min.commute)
  ultimately show ?thesis by blast
qed

section \<open>Allocation of buffers\<close>

text \<open>The boot loader has mapped all of physical memory at the offset: mapping a page of it again is
  refused and changes nothing.\<close>

definition direct_map_ok :: "('m, 'd) menv \<Rightarrow> bool" where
  "direct_map_ok env \<longleftrightarrow> phys_ops_ok (pphys (mpage env))
     \<and> (\<forall>a. unat a < 2 ^ 47 \<longrightarrow> virt_new (mpage env) a = Inr a)
     \<and> (\<forall>a. unat a < 2 ^ 52 \<longrightarrow> mphys_new env a = Inr a)
     \<and> (\<forall>mp fa p f fl. \<exists>e. e \<noteq> FrameAllocationFailed \<and> map_to (mpage env) mp fa p f fl = (Some e, mp, fa))"

text \<open>The memory manager is set up, and every usable frame and the one after it can be addressed
  through the offset.\<close>

definition frames_reachable :: "('m, 'd) menv \<Rightarrow> mem_region list \<Rightarrow> bool" where
  "frames_reachable env regions \<longleftrightarrow> memory_map_ok regions
     \<and> (\<forall>f \<in> set (usable_addrs regions). unat f + unat (moffset env) + 4096 < 2 ^ 47)"

definition fill_dev :: "'d bus_ops \<Rightarrow> u64 \<Rightarrow> nat \<Rightarrow> 'd \<Rightarrow> 'd" where
  "fill_dev bus a n d = fold (\<lambda>i. bus_write bus 1 (a + of_nat i) 0) [0..<n] d"

lemma fill_zero_run: "fill_zero env a n st = Inr ((), st\<lparr>mdev := fill_dev (mbus env) a n (mdev st)\<rparr>)"
proof (induction n)
  case (Suc n)
  have "fill_zero env a (Suc n) st = rbind (fill_zero env a n st) (\<lambda>(_, s). wr env 1 (a + of_nat n) 0 s)"
    by (simp add: fill_zero_def for_act_append act_simps)
      (auto simp: wr_def rbind_def split: sum.splits)
  then show ?case using Suc by (simp add: fill_dev_def wr_def)
qed (simp add: fill_zero_def fill_dev_def act_simps)

lemma fill_dev_view:
  assumes mem: "memory_at bus view a n" and "k \<le> n"
  shows "view (fill_dev bus a k d) = replicate k 0 @ drop k (view d)"
  using assms(2)
proof (induction k)
  case (Suc k)
  have "view (fill_dev bus a (Suc k) d) = patch (view (fill_dev bus a k d)) k (le_bytes 1 (0 :: u64))"
    unfolding fill_dev_def using memory_atD(3) [OF mem, of k 1] Suc.prems by simp
  also have "\<dots> = replicate k 0 @ [0] @ drop 1 (drop k (view d))"
    using Suc by (simp add: patch_def le_bytes_1)
  finally show ?case by (simp add: replicate_append_same flip: replicate_Suc)
qed (simp add: fill_dev_def)

lemma mmap_refused:
  assumes "direct_map_ok env" and "unat phys < 2 ^ 52" and "unat virt < 2 ^ 47"
    and "kmapper (mkm st) \<noteq> None" and "kfalloc (mkm st) \<noteq> None"
  shows "mmap env phys virt st = Inr ((), st)"
proof -
  obtain mp fa where km: "kmapper (mkm st) = Some mp" "kfalloc (mkm st) = Some fa" using assms(4,5) by blast
  obtain e where "e \<noteq> FrameAllocationFailed" "map_to (mpage env) mp fa (page_of (mpage env) virt)
      (page_down phys) (default_flags (mflags env)) = (Some e, mp, fa)"
    using assms(1) unfolding direct_map_ok_def by metis
  moreover have "(mkm st)\<lparr>kmapper := Some mp, kfalloc := Some fa\<rparr> = mkm st" using km by simp
  ultimately show ?thesis
    using assms(1-3) km unfolding direct_map_ok_def phys_ops_ok_def
    by (cases e) (simp_all add: mmap_def map_page_def)
qed

definition advance :: "nat \<Rightarrow> ('m, 'd) mstate \<Rightarrow> ('m, 'd) mstate" where
  "advance n st = st\<lparr>mkm := (mkm st)\<lparr>kfalloc := map_option (\<lambda>fa. fa\<lparr>fnext := fnext fa + n\<rparr>) (kfalloc (mkm st))\<rparr>\<rparr>"

lemma advance_simps [simp]:
  "mdev (advance n st) = mdev st" "kmapper (mkm (advance n st)) = kmapper (mkm st)"
  "kfalloc (mkm (advance n st)) = map_option (\<lambda>fa. fa\<lparr>fnext := fnext fa + n\<rparr>) (kfalloc (mkm st))"
  "advance m ((advance n st)\<lparr>mdev := d\<rparr>) = (advance (n + m) st)\<lparr>mdev := d\<rparr>"
  by (cases "kfalloc (mkm st)"; simp add: advance_def add.assoc)+

lemma pmm_alloc_run:
  assumes env: "direct_map_ok env" "frames_reachable env (fmap fa)"
    and km: "kmapper (mkm st) \<noteq> None" "kfalloc (mkm st) = Some fa"
    and left: "fnext fa < length (usable_addrs (fmap fa))"
  defines "f \<equiv> usable_addrs (fmap fa) ! fnext fa"
  shows "pmm_alloc env order st = Inr (f, (advance 1 st)\<lparr>mdev :=
    fill_dev (mbus env) (f + moffset env) (case order of Size4KiB \<Rightarrow> 4096 | Size8KiB \<Rightarrow> 2097152) (mdev st)\<rparr>)"
proof -
  have mem: "f \<in> set (usable_addrs (fmap fa))" using left by (simp add: f_def)
  have f: "unat f + unat (moffset env) + 4096 < 2 ^ 47" "unat f < 2 ^ 52"
    using env(2) mem memory_map_addrs(2) by (auto simp: frames_reachable_def)
  have inv: "falloc_inv (pphys (mpage env)) fa"
    using env by (simp add: falloc_inv_def direct_map_ok_def frames_reachable_def)
  have frame: "pmm_frame env st = Inr (f, advance 1 st)"
    using km left allocate_frame_eq [OF inv left] by (simp add: pmm_frame_def advance_def f_def)
  have u: "unat (f + moffset env) = unat f + unat (moffset env)"
    "unat (f + 4096) = unat f + 4096" "unat (f + moffset env + 4096) = unat f + unat (moffset env) + 4096"
    using f by (simp_all add: unat_word_ariths)
  have ck: "add_ck f (moffset env) = Inr (f + moffset env)" "add_ck f 4096 = Inr (f + 4096)"
    "add_ck (f + moffset env) 4096 = Inr (f + moffset env + 4096)"
    using f u by (simp_all add: add_ck_def)
  have map1: "mmap env f (f + moffset env) (advance (Suc 0) st) = Inr ((), advance (Suc 0) st)"
    "mmap env (f + 4096) (f + moffset env + 4096) (advance (Suc 0) st) = Inr ((), advance (Suc 0) st)"
    using f u km by (auto intro!: mmap_refused [OF env(1)] simp: advance_def)
  have "mphys_new env f = Inr f" using env(1) f(2) by (simp add: direct_map_ok_def)
  then show ?thesis
    by (cases order) (simp_all add: pmm_alloc_def BUDDY_SIZE_def act_simps frame ck map1 slice_get_def
        fill_zero_run)
qed

lemma map_buffers:
  assumes "length fs = length ns"
  shows "map buf_size (map2 (\<lambda>f n. \<lparr>buf_start = f, buf_size = n\<rparr>) fs ns) = ns
    \<and> map buf_start (map2 (\<lambda>f n. \<lparr>buf_start = f, buf_size = n\<rparr>) fs ns) = fs"
  using assms by (induction fs ns rule: list_induct2) auto

text \<open>A transfer of \<open>sz\<close> bytes is cut into pieces of 8192 bytes.\<close>

definition chunks :: "nat \<Rightarrow> nat list" where
  "chunks sz = replicate (sz div 8192) 8192 @ (if sz mod 8192 = 0 then [] else [sz mod 8192])"

lemma chunks_step: "0 < sz \<Longrightarrow> chunks sz = min sz 8192 # chunks (sz - min sz 8192)"
proof (cases "8192 \<le> sz")
  case True
  then have "sz div 8192 = Suc ((sz - 8192) div 8192)" "sz mod 8192 = (sz - 8192) mod 8192"
    by (simp_all add: le_div_geq le_mod_geq)
  with True show ?thesis by (simp add: chunks_def min_def)
qed (simp add: chunks_def min_def)

lemma chunks_0 [simp]: "chunks 0 = []"
  by (simp add: chunks_def)

lemma sum_chunks: "sum_list (chunks sz) = sz"
  by (auto simp: chunks_def sum_list_replicate dest: mod_0_imp_dvd)

lemma dma_buffers_run:
  assumes env: "direct_map_ok env"
    and "frames_reachable env (fmap fa)" and "kmapper (mkm st) \<noteq> None" "kfalloc (mkm st) = Some fa"
    and "fnext fa + length (chunks sz) \<le> length (usable_addrs (fmap fa))"
  shows "\<exists>d. dma_buffers env sz st = Inr (map2 (\<lambda>f n. \<lparr>buf_start = f, buf_size = n\<rparr>)
      (take (length (chunks sz)) (falloc_remaining fa)) (chunks sz),
      (advance (length (chunks sz)) st)\<lparr>mdev := d\<rparr>)"
  using assms(2-)
proof (induction sz arbitrary: st fa rule: less_induct)
  case (less sz)
  show ?case
  proof (cases "sz = 0")
    case True
    have "st = (advance 0 st)\<lparr>mdev := mdev st\<rparr>" using less.prems(3) by (simp add: advance_def)
    with True show ?thesis by (subst dma_buffers.simps) (auto simp: act_simps)
  next
    case False
    define m where "m = min sz 8192"
    have m: "sz - m < sz" and ch: "chunks sz = m # chunks (sz - m)"
      using False chunks_step [of sz] by (auto simp: m_def)
    let ?us = "usable_addrs (fmap fa)" and ?fa = "fa\<lparr>fnext := fnext fa + 1\<rparr>"
    have lt: "fnext fa < length ?us" using less.prems(4) ch by simp
    obtain d1 where d1: "pmm_alloc env (if sz > 4096 then Size8KiB else Size4KiB) st
        = Inr (?us ! fnext fa, (advance 1 st)\<lparr>mdev := d1\<rparr>)"
      using pmm_alloc_run [OF env less.prems(1-3) lt] by blast
    obtain d2 where d2: "dma_buffers env (sz - m) ((advance 1 st)\<lparr>mdev := d1\<rparr>)
        = Inr (map2 (\<lambda>f n. \<lparr>buf_start = f, buf_size = n\<rparr>)
            (take (length (chunks (sz - m))) (falloc_remaining ?fa)) (chunks (sz - m)),
            (advance (length (chunks (sz - m))) ((advance 1 st)\<lparr>mdev := d1\<rparr>))\<lparr>mdev := d2\<rparr>)"
      using less.IH [OF m, of ?fa "(advance 1 st)\<lparr>mdev := d1\<rparr>"] less.prems ch by auto
    have "falloc_remaining fa = ?us ! fnext fa # falloc_remaining ?fa"
      using lt by (simp add: falloc_remaining_def Cons_nth_drop_Suc)
    with d1 d2 False show ?thesis
      by (subst dma_buffers.simps) (auto simp: act_simps Let_def ch simp flip: m_def)
  qed
qed

lemma ahci_env_direct: "direct_map_ok ahci_env"
  by (simp add: direct_map_ok_def ahci_env_def ref_phys_ops_ok)

lemma ahci_env_frames: "frames_reachable ahci_env example_map"
  by (simp add: frames_reachable_def example_map_ok example_map_addrs ahci_env_def)

lemma ahci_state_kmem:
  "kmapper (mkm ahci_state) \<noteq> None" "kfalloc (mkm ahci_state) = Some (falloc_new example_map)"
  by (simp_all add: ahci_state_def)

section \<open>Properties\<close>

text \<open>C3. \<^verbatim>\<open>run_command\<close> on a port that answers returns, and leaves in the command table a host to
  device register FIS that decodes to the requested command, sector and count, with the command
  bit set, and one region descriptor per buffer, up to one for every 16 sectors, each with its
  buffer's address and length and only the last with the interrupt bit.\<close>

theorem run_command_programs:
  fixes tview :: "'d \<Rightarrow> u8 list" and st :: "('m, 'd) mstate"
  assumes mem: "command_memory env port slot hdr tbl hview tview (mdev st)"
    and bits: "bit_ops_ok (mbits env)" and resp: "port_responds env port slot"
    and slot: "slot < 32" and count: "0 < count" "count \<le> 128" and sector: "sector < 2 ^ 48"
    and sizes: "\<forall>b \<in> set buffer. 0 < buf_size b \<and> buf_size b \<le> 2 ^ 21"
  shows "\<exists>d. run_command env (Suc fuel) port command sector count slot buffer st = Inr ((), st\<lparr>mdev := d\<rparr>)
    \<and> (let v = tview d; n = (count - 1) div 16 + 1 in
        v ! 0 = 0x27 \<and> bit (v ! 1) 7 \<and> v ! 2 = ucast (ata_code command) \<and> v ! 7 = 0x40
        \<and> le_value [v ! 4, v ! 5, v ! 6, v ! 8, v ! 9, v ! 10] = sector
        \<and> le_value [v ! 12, v ! 13] = count
        \<and> (\<forall>i < min n (length buffer). prdt_entry_ok v i (buffer ! i) (i = n - 1)))"
proof -
  obtain d w where d: "run_command env (Suc fuel) port command sector count slot buffer st
      = Inr ((), st\<lparr>mdev := d\<rparr>)"
    and v: "tview d = h2d_fis command sector count (w ! 1) @ drop 20 w"
    and w: "\<forall>i < min ((count - 1) div 16 + 1) (length buffer).
      prdt_entry_ok w i (buffer ! i) (i = (count - 1) div 16)"
    using command_table [OF assms] by metis
  let ?f = "h2d_fis command sector count (w ! 1)"
  have len: "length (h2d_fis command sector count x) = 20" for x by (simp add: h2d_fis_def Let_def)
  have nth: "tview d ! i = ?f ! i" if "i < 20" for i using that len by (simp add: v nth_append)
  have "count < 2 ^ 16" using count by simp
  note dec = h2d_fis_decode [OF sector this refl, of command "w ! 1"]
  have "prdt_entry_ok (tview d) i b irq = prdt_entry_ok w i b irq" for i b irq
    by (rule prdt_entry_ok_drop) (simp add: v len)
  with d w dec show ?thesis
    by (intro exI [of _ d]) (simp add: Let_def nth h2d_fis_def bit_simps)
qed

theorem run_command_programs_witness:
  "\<exists>d. run_command ahci_env 1 0x10000 ReadDma 0x12345678 17 0
       [\<lparr>buf_start = 0x200000, buf_size = 8192\<rparr>, \<lparr>buf_start = 0x300000, buf_size = 512\<rparr>] ahci_state
     = Inr ((), ahci_state\<lparr>mdev := d\<rparr>)
     \<and> (let v = plain_view 0x1000 256 d in
          le_value [v ! 4, v ! 5, v ! 6, v ! 8, v ! 9, v ! 10] = 0x12345678
          \<and> prdt_entry_ok v 1 \<lparr>buf_start = 0x300000, buf_size = 512\<rparr> True)"
proof -
  have bits: "bit_ops_ok (mbits ahci_env)" by (simp add: ahci_env_def ref_bit_ops_ok)
  note run = run_command_programs [OF example_command_memory bits example_port_responds, where
      count = 17 and sector = "0x12345678" and fuel = 0 and command = ReadDma and
      buffer = "[\<lparr>buf_start = 0x200000, buf_size = 8192\<rparr>, \<lparr>buf_start = 0x300000, buf_size = 512\<rparr>]"]
  show ?thesis by (rule ex_forward [OF run]) (auto simp: Let_def)
qed



text \<open>Every buffer of a request is one frame of 4096 bytes, but all except the last are used for
  8192 bytes: when the allocator's next frame is the adjacent one, the second half of a buffer is
  the first half of the next.\<close>

theorem dma_buffers_overlap:
  assumes "direct_map_ok env" "frames_reachable env (fmap fa)"
    and "kmapper (mkm st) \<noteq> None" "kfalloc (mkm st) = Some fa"
    and "fnext fa + length (chunks (count * 512)) \<le> length (usable_addrs (fmap fa))" "count * 512 < 2 ^ 64"
    and i: "i + 1 < length (chunks (count * 512))"
    and adj: "falloc_remaining fa ! (i + 1) = falloc_remaining fa ! i + 4096"
  shows "\<exists>req st'. dma_request_new env sector count st = Inr (req, st')
    \<and> buf_size (req_buffer req ! i) = 8192
    \<and> buf_start (req_buffer req ! (i + 1)) = buf_start (req_buffer req ! i) + 4096"
proof -
  let ?c = "chunks (count * 512)"
  let ?bs = "map2 (\<lambda>f n. \<lparr>buf_start = f, buf_size = n\<rparr>) (take (length ?c) (falloc_remaining fa)) ?c"
  obtain d where d: "dma_buffers env (count * 512) st = Inr (?bs, (advance (length ?c) st)\<lparr>mdev := d\<rparr>)"
    using dma_buffers_run [OF assms(1-5)] by blast
  have "length (take (length ?c) (falloc_remaining fa)) = length ?c"
    using assms(5) by (simp add: falloc_remaining_def)
  then have "buf_size (?bs ! i) = ?c ! i" "buf_start (?bs ! (i + 1)) = buf_start (?bs ! i) + 4096"
    using i adj by simp_all
  moreover have "?c ! i = 8192"
    using i by (auto simp: chunks_def nth_append split: if_splits)
  ultimately show ?thesis
    using d assms(6) by (simp add: dma_request_new_def act_simps usize_mul_ck_def del: nth_map nth_zip)
qed

theorem dma_buffers_overlap_witness:
  "\<exists>req st'. dma_request_new ahci_env 0 17 ahci_state = Inr (req, st')
     \<and> buf_size (req_buffer req ! 0) = 8192
     \<and> buf_start (req_buffer req ! 1) = buf_start (req_buffer req ! 0) + 4096"
proof -
  have c: "chunks 8704 = [8192, 512]" by (simp add: chunks_def)
  show ?thesis
    using dma_buffers_overlap [OF ahci_env_direct _ ahci_state_kmem, of 17 0 0] ahci_env_frames
    by (auto simp: c falloc_new_def example_map_addrs falloc_remaining_def)
qed

text \<open>\<^verbatim>\<open>pmm_alloc\<close> for 8 KiB takes one frame and then writes zeros over two megabytes from it on:
  \<^verbatim>\<open>Size8KiB\<close> is the number 2, and the third entry of \<^verbatim>\<open>BUDDY_SIZE\<close> is the size of a huge page.\<close>

theorem pmm_alloc_overwrites:
  assumes "direct_map_ok env" "frames_reachable env (fmap fa)"
    and "kmapper (mkm st) \<noteq> None" "kfalloc (mkm st) = Some fa"
    and "fnext fa < length (usable_addrs (fmap fa))"
    and f: "f = usable_addrs (fmap fa) ! fnext fa"
    and mem: "memory_at (mbus env) view (f + moffset env) 2097152"
  shows "\<exists>st'. pmm_alloc env Size8KiB st = Inr (f, st')
    \<and> kfalloc (mkm st') = Some (fa\<lparr>fnext := fnext fa + 1\<rparr>)
    \<and> (\<forall>i < 2097152. view (mdev st') ! i = 0)"
proof -
  have "view (fill_dev (mbus env) (f + moffset env) 2097152 (mdev st)) ! i = 0" if "i < 2097152" for i
    unfolding fill_dev_view [OF mem order_refl] nth_append length_replicate
    using that by (simp only: if_True nth_replicate)
  then show ?thesis using pmm_alloc_run [OF assms(1-5), of Size8KiB] assms(4) by (simp add: f)
qed

theorem pmm_alloc_overwrites_witness:
  "\<exists>st'. pmm_alloc (ahci_env\<lparr>mbus := plain_bus\<rparr>) Size8KiB ahci_state = Inr (0x1000, st')
     \<and> plain_view 0x1000 2097152 (mdev st') ! 2000000 = 0"
proof -
  let ?env = "ahci_env\<lparr>mbus := plain_bus\<rparr>"
  have env: "direct_map_ok ?env" "frames_reachable ?env (fmap (falloc_new example_map))"
    using ahci_env_direct ahci_env_frames
    by (simp_all add: direct_map_ok_def frames_reachable_def falloc_new_def)
  have mem: "memory_at (mbus ?env) (plain_view 0x1000 2097152) (0x1000 + moffset ?env) 2097152"
    by (simp add: plain_memory_at ahci_env_def)
  have next_frame: "fnext (falloc_new example_map) < length (usable_addrs (fmap (falloc_new example_map)))"
    "0x1000 = usable_addrs (fmap (falloc_new example_map)) ! fnext (falloc_new example_map)"
    by (simp_all add: falloc_new_def example_map_addrs)
  show ?thesis
    by (rule ex_forward [OF pmm_alloc_overwrites [OF env ahci_state_kmem next_frame mem]]) auto
qed

end
