(* ===== verification/Ahci_Requests.thy ===== *)
theory Ahci_Requests
  imports Ahci
begin

text \<open>
  What the AHCI driver does with a port over its life. A port has 32 command slots; every command
  takes one, and none is ever freed, so a port transfers at most 32 commands of 128 sectors and
  then spins forever. \<open>run_all\<close> is a client that runs one request after the other. The second part
  is the copy of the buffers into the caller's slice, the third the layout of the registers.
\<close>

section \<open>Slots\<close>

definition port_inv :: "ahci_port \<Rightarrow> bool" where
  "port_inv p \<longleftrightarrow> length (port_cmds p) = 32 \<and> port_free p = length (filter Option.is_none (port_cmds p))"

fun run_all ::
  "('m, 'd) menv \<Rightarrow> nat \<Rightarrow> nat \<Rightarrow> dma_request list \<Rightarrow> ahci_port \<Rightarrow> (('m, 'd) mstate, ahci_port) act" where
  "run_all env fuel n [] p = ret p"
| "run_all env fuel n (req # reqs) p =
     sbind (run_request env fuel n req p) (\<lambda>(_, p). run_all env fuel n reqs p)"

lemma filter_none_update:
  "i < length xs \<Longrightarrow> xs ! i = None \<Longrightarrow>
   Suc (length (filter Option.is_none (xs[i := Some y]))) = length (filter Option.is_none xs)"
proof (induction xs arbitrary: i)
  case (Cons x xs)
  then show ?case by (cases i) auto
qed simp

lemma free_slot_Some:
  assumes "free_slot cmds = Some i"
  shows "i < length cmds" and "cmds ! i = None"
  using assms find_upt_Some [of "\<lambda>i. cmds ! i = None" 0 "length cmds" i] by (auto simp: free_slot_def)

lemma free_slot_None: "free_slot cmds = None \<longleftrightarrow> length (filter Option.is_none cmds) = 0"
  unfolding free_slot_def find_upt_None
  by (simp add: filter_empty_conv all_set_conv_all_nth Option.is_none_def)

lemma port_inv_new: "port_inv (ahci_port_new a)"
  by (simp add: port_inv_def ahci_port_new_def)

lemma port_inv_use:
  assumes "port_inv p" and "free_slot (port_cmds p) = Some i"
  shows "0 < port_free p" and "port_inv (p\<lparr>port_cmds := (port_cmds p)[i := Some req], port_free := port_free p - 1\<rparr>)"
  using assms filter_none_update [OF free_slot_Some [OF assms(2)], of req]
  by (auto simp: port_inv_def)

lemma issue_commands_inv:
  assumes "issue_commands env fuel req remaining offset p st = Inr ((offset', p'), st')" and "port_inv p"
  shows "port_inv p' \<and> port_free p' \<le> port_free p \<and> offset \<le> offset' \<and> offset' \<le> offset + remaining
    \<and> offset' - offset \<le> 128 * (port_free p - port_free p')
    \<and> (offset' < offset + remaining \<longrightarrow> port_free p' = 0)"
  using assms
proof (induction remaining arbitrary: offset p st rule: less_induct)
  case (less remaining)
  show ?case
  proof (cases "remaining > 0 \<and> free_slot (port_cmds p) \<noteq> None")
    case False
    then show ?thesis
      using less.prems free_slot_None [of "port_cmds p"]
      by (subst (asm) issue_commands.simps) (auto simp: act_simps port_inv_def split: if_splits)
  next
    case True
    then obtain i where i: "free_slot (port_cmds p) = Some i" by blast
    note use_slot = port_inv_use [OF less.prems(2) i]
    let ?c = "min remaining 128"
    let ?p = "p\<lparr>port_cmds := (port_cmds p)[i := Some req], port_free := port_free p - 1\<rparr>"
    obtain st1 where "issue_commands env fuel req (remaining - ?c) (offset + ?c) ?p st1
        = Inr ((offset', p'), st')"
      using less.prems(1) True i use_slot(1)
      by (subst (asm) issue_commands.simps)
        (auto simp: act_simps Let_def nat_sub_ck_def rbind_eq_Inr_iff)
    from less.IH [OF _ this use_slot(2)] True use_slot(1) show ?thesis
      by (auto simp: min_def split: if_splits)
  qed
qed

lemma request_loop_inv:
  assumes "request_loop env fuel n req offset p st = Inr (p', st')" and "port_inv p"
  shows "port_inv p' \<and> port_free p' \<le> port_free p
    \<and> req_count req - offset \<le> 128 * (port_free p - port_free p')"
  using assms
proof (induction n arbitrary: offset p st)
  case 0
  then show ?case by (auto simp: act_simps split: if_splits)
next
  case (Suc n)
  show ?case
  proof (cases "offset < req_count req")
    case True
    then obtain off1 p1 st1 where
      one: "issue_commands env fuel req (req_count req - offset) offset p st = Inr ((off1, p1), st1)"
      and rest: "request_loop env fuel n req off1 p1 st1 = Inr (p', st')"
      using Suc.prems(1) by (auto simp: act_simps port_run_request_def nat_sub_ck_def rbind_eq_Inr_iff)
    from issue_commands_inv [OF one Suc.prems(2)] Suc.IH [OF rest] show ?thesis by auto
  qed (use Suc.prems in \<open>auto simp: act_simps\<close>)
qed

lemma run_all_inv:
  assumes "run_all env fuel n reqs p st = Inr (p', st')" and "port_inv p"
  shows "port_inv p' \<and> port_free p' \<le> port_free p
    \<and> sum_list (map req_count reqs) \<le> 128 * (port_free p - port_free p')"
  using assms
proof (induction reqs arbitrary: p st)
  case (Cons req reqs)
  then obtain p1 st1 where one: "request_loop env fuel n req 0 p st = Inr (p1, st1)"
    and rest: "run_all env fuel n reqs p1 st1 = Inr (p', st')"
    by (auto simp: act_simps run_request_def rbind_eq_Inr_iff)
  from request_loop_inv [OF one Cons.prems(2)] Cons.IH [OF rest] show ?case by auto
qed (simp add: act_simps)

lemma request_loop_exhausted:
  assumes "port_inv p" and "port_free p = 0" and "offset < req_count req"
  shows "request_loop env fuel n req offset p st = Inl Diverge"
proof (induction n)
  case (Suc n)
  have "free_slot (port_cmds p) = None" using assms(1,2) by (simp add: free_slot_None port_inv_def)
  then have "issue_commands env fuel req (req_count req - offset) offset p st = Inr ((offset, p), st)"
    using assms(3) by (subst issue_commands.simps) (simp add: act_simps)
  then show ?case using assms(3) Suc by (simp add: act_simps port_run_request_def nat_sub_ck_def)
qed (use assms(3) in \<open>simp add: act_simps\<close>)

section \<open>Copying\<close>

text \<open>Reading single bytes of memory does not change the machine: \<open>m\<close> is what is there.\<close>

definition readable :: "('m, 'd) menv \<Rightarrow> (u64 \<Rightarrow> u8) \<Rightarrow> 'd \<Rightarrow> bool" where
  "readable env m d \<longleftrightarrow> (\<forall>a. bus_read (mbus env) 1 a d = (ucast (m a), d))"

lemma read_bytes_run:
  assumes "readable env m (mdev st)"
  shows "read_bytes env a n st = Inr (map (\<lambda>i. m (a + of_nat i)) [0..<n], st)"
proof (induction n arbitrary: a)
  case (Suc n)
  have "rd env 1 a st = Inr (ucast (m a), st)" using assms by (simp add: rd_def readable_def)
  then show ?case using Suc [of "a + 1"]
    by (simp add: act_simps ucast_u8_u64 upt_conv_Cons map_Suc_upt [symmetric] o_def add.assoc del: upt_Suc)
qed (simp add: act_simps)

text \<open>The slice after the copy: byte \<open>i\<close> from the buffer that holds it, the others as before.\<close>

definition copied :: "u64 \<Rightarrow> (u64 \<Rightarrow> u8) \<Rightarrow> dma_buffer list \<Rightarrow> nat \<Rightarrow> u8 list \<Rightarrow> u8 list" where
  "copied off m bs offset into = map (\<lambda>i. if offset \<le> i \<and> (i - offset) div 8192 < length bs
     then m (buf_start (bs ! ((i - offset) div 8192)) + off + of_nat ((i - offset) mod 8192))
     else into ! i) [0..<length into]"

lemma copied_step:
  assumes "offset + remaining = length into" and "c = min remaining 8192"
  shows "copied off m bs (offset + c)
      (take offset into @ map (\<lambda>i. m (buf_start b + off + of_nat i)) [0..<c] @ drop (offset + c) into)
    = copied off m (b # bs) offset into"
    (is "?l = ?r")
proof (rule nth_equalityI)
  show "length ?l = length ?r" using assms by (simp add: copied_def)
next
  fix i assume "i < length ?l"
  then have i: "i < length into" using assms by (simp add: copied_def)
  consider "i < offset" | "offset \<le> i" "i < offset + c" | "offset + c \<le> i" by linarith
  then show "?l ! i = ?r ! i"
  proof cases
    case 1
    then show ?thesis using i assms by (simp add: copied_def nth_append)
  next
    case 2
    then have "i - offset < c" "c \<le> 8192" using assms(2) by auto
    then show ?thesis using i 2 assms(1) by (simp add: copied_def nth_append)
  next
    case 3
    then have c: "c = 8192" using i assms by (simp add: min_def split: if_splits)
    with 3 have ge: "8192 \<le> i - offset" by simp
    then have "(i - offset) div 8192 = Suc ((i - (offset + c)) div 8192)"
      "(i - offset) mod 8192 = (i - (offset + c)) mod 8192"
      by (simp_all add: c le_div_geq le_mod_geq)
    then show ?thesis using i 3 ge assms(1) c by (simp add: copied_def nth_append)
  qed
qed

lemma copy_loop_run:
  assumes "readable env m (mdev st)"
    and "\<forall>b \<in> set bs. unat (buf_start b) + unat (moffset env) < 2 ^ 47"
    and virt: "\<And>a. unat a < 2 ^ 47 \<Longrightarrow> virt_new (mpage env) a = Inr a"
    and "offset + remaining = length into"
  shows "copy_loop env bs offset remaining into st = Inr (copied (moffset env) m bs offset into, st)"
  using assms(2,4)
proof (induction bs arbitrary: offset remaining into)
  case Nil
  then show ?case by (simp add: act_simps copied_def map_nth)
next
  case (Cons b bs)
  let ?c = "min remaining 8192" and ?a = "buf_start b + moffset env"
  let ?data = "map (\<lambda>i. m (?a + of_nat i)) [0..<?c]"
  let ?into = "take offset into @ ?data @ drop (offset + ?c) into"
  have fits: "offset + ?c \<le> length into" using Cons.prems(2) by simp
  have "add_ck (buf_start b) (moffset env) = Inr ?a" "unat ?a < 2 ^ 47"
    using Cons.prems(1) by (simp_all add: add_ck_def unat_word_ariths)
  then have step: "copy_loop env (b # bs) offset remaining into st
      = copy_loop env bs (offset + ?c) (remaining - ?c) ?into st"
    using fits by (simp add: act_simps Let_def read_bytes_run [OF assms(1)] virt)
  have "copy_loop env bs (offset + ?c) (remaining - ?c) ?into st
      = Inr (copied (moffset env) m bs (offset + ?c) ?into, st)"
    using Cons.prems by (intro Cons.IH) auto
  moreover have "copied (moffset env) m bs (offset + ?c) ?into = copied (moffset env) m (b # bs) offset into"
    by (rule copied_step) (use Cons.prems(2) in auto)
  ultimately show ?case using step by simp
qed

section \<open>Properties\<close>

text \<open>C5. A port serves at most 4096 sectors in its life: whatever requests it is given, if they all
  return then together they ask for no more than 32 commands of 128 sectors.\<close>

theorem port_lifetime_bound:
  assumes "run_all env fuel n reqs (ahci_port_new a) st = Inr (p, st')"
  shows "sum_list (map req_count reqs) \<le> 4096"
proof -
  have "sum_list (map req_count reqs) \<le> 128 * (port_free (ahci_port_new a) - port_free p)"
    using run_all_inv [OF assms port_inv_new] by simp
  also have "\<dots> \<le> 128 * 32" by (intro mult_le_mono) (simp_all add: ahci_port_new_def)
  finally show ?thesis by simp
qed

definition one_sector :: dma_request where
  "one_sector = \<lparr>req_sector = 7, req_count = 1, req_buffer = [\<lparr>buf_start = 0x200000, buf_size = 512\<rparr>],
     req_command = DmaRead\<rparr>"

lemma one_sector_runs:
  "\<exists>p st'. run_all ahci_env 1 1 [one_sector] (ahci_port_new 0x10000) ahci_state = Inr (p, st')"
proof -
  have bits: "bit_ops_ok (mbits ahci_env)" by (simp add: ahci_env_def ref_bit_ops_ok)
  obtain d where "run_command ahci_env (Suc 0) 0x10000 ReadDma 7 1 0 [\<lparr>buf_start = 0x200000, buf_size = 512\<rparr>]
      ahci_state = Inr ((), ahci_state\<lparr>mdev := d\<rparr>)"
    using command_table [OF example_command_memory bits example_port_responds, where
      count = 1 and sector = 7 and fuel = 0 and command = ReadDma and
      buffer = "[\<lparr>buf_start = 0x200000, buf_size = 512\<rparr>]"] by auto
  moreover have "free_slot (port_cmds (ahci_port_new 0x10000)) = Some 0"
    by (simp add: free_slot_def ahci_port_new_def upt_conv_Cons)
  ultimately show ?thesis
    by (simp add: one_sector_def act_simps run_request_def port_run_request_def nat_sub_ck_def
        usize_add_ck_def usize_mul_ck_def at_offset_def as_command_def Let_def issue_commands.simps
        ahci_port_new_def)
qed

theorem port_lifetime_bound_witness: "sum_list (map req_count [one_sector]) \<le> 4096"
  using one_sector_runs port_lifetime_bound [where reqs = "[one_sector]"] by blast

text \<open>Once a port has used its 32 slots every further request spins forever, holding no progress:
  no number of repetitions lets it return.\<close>

theorem exhausted_port_never_returns:
  assumes "port_inv p" and "port_free p = 0" and "0 < req_count req"
  shows "run_request env fuel n req p st = Inl Diverge"
  by (simp add: run_request_def act_simps request_loop_exhausted [OF assms])

theorem exhausted_port_never_returns_witness:
  "run_request ahci_env 1 1000 one_sector
     \<lparr>port_address = 0x10000, port_cmds = replicate 32 (Some one_sector), port_free = 0\<rparr> ahci_state = Inl Diverge"
  by (rule exhausted_port_never_returns) (simp_all add: port_inv_def one_sector_def)

text \<open>C15. \<^verbatim>\<open>copy_into\<close> fills the caller's slice from the buffers in order, 8192 bytes each, keeps the bytes
  beyond the last buffer, and never panics.\<close>

theorem copy_into_correct:
  assumes "readable env m (mdev st)"
    and "\<forall>b \<in> set (req_buffer req). unat (buf_start b) + unat (moffset env) < 2 ^ 47"
    and "\<forall>a. unat a < 2 ^ 47 \<longrightarrow> virt_new (mpage env) a = Inr a"
  shows "\<exists>into'. copy_into env req into st = Inr (into', st) \<and> length into' = length into
    \<and> (\<forall>i < length into. into' ! i = (if i div 8192 < length (req_buffer req)
         then m (buf_start (req_buffer req ! (i div 8192)) + moffset env + of_nat (i mod 8192))
         else into ! i))"
  using copy_loop_run [OF assms(1,2), of 0 "length into" into] assms(3)
  by (simp add: copy_into_def copied_def)

theorem copy_into_correct_witness:
  "\<exists>into'. copy_into (ahci_env\<lparr>mbus := plain_bus\<rparr>) (one_sector\<lparr>req_buffer := [\<lparr>buf_start = 8, buf_size = 512\<rparr>]\<rparr>)
      [1, 1, 1] ahci_state = Inr (into', ahci_state) \<and> into' = [0, 0x10, 0]"
proof -
  let ?env = "ahci_env\<lparr>mbus := plain_bus\<rparr>"
    and ?req = "one_sector\<lparr>req_buffer := [\<lparr>buf_start = 8, buf_size = 512\<rparr>]\<rparr>"
  have r: "readable ?env (mdev ahci_state) (mdev ahci_state)"
    by (simp add: readable_def plain_bus_def)
  obtain into' where "copy_into ?env ?req [1, 1, 1] ahci_state = Inr (into', ahci_state)"
    and len: "length into' = 3" and "\<forall>i < 3. into' ! i = mdev ahci_state (8 + of_nat i)"
    using copy_into_correct [OF r, of ?req "[1, 1, 1]"] by (auto simp: ahci_env_def)
  then show ?thesis
    by (auto simp: ahci_state_def numeral_3_eq_3 length_Suc_conv less_Suc_eq all_conj_distrib)
qed

text \<open>The port registers of the AHCI specification (revision 1.3.1, section 3.3) the structure names;
  ports are \<open>0x80\<close> bytes apart.\<close>

definition ahci_registers :: "(string \<times> nat) list" where
  "ahci_registers = [(''clb'', 0x00), (''fb'', 0x08), (''is'', 0x10), (''ie'', 0x14), (''cmd'', 0x18),
     (''tfd'', 0x20), (''sig'', 0x24), (''ssts'', 0x28), (''sctl'', 0x2C), (''serr'', 0x30),
     (''sact'', 0x34), (''ci'', 0x38), (''sntf'', 0x3C), (''fbs'', 0x40), (''devslp'', 0x44)]"

text \<open>The registers of a port up to the status register are where the hardware has them; every one
  behind it is four bytes too far, because the status register is declared 64 bits wide, so that
  the command issue register \<^verbatim>\<open>ci\<close> names the hardware's \<^verbatim>\<open>sntf\<close>; and port \<open>i\<close> is looked for \<open>8 * i\<close> bytes
  behind its place.\<close>

theorem port_registers_misplaced:
  "map (\<lambda>(name, spec). int (field_offset HbaPort name) - int spec) ahci_registers
     = replicate 8 0 @ replicate 7 4
   \<and> field_offset HbaPort ''ci'' = the (map_of ahci_registers ''sntf'')
   \<and> port_mut hba i = hba + 0x100 + of_nat (0x80 * i) + of_nat (8 * i)"
proof -
  have "map (\<lambda>(name, spec). int (field_offset HbaPort name) - int spec) ahci_registers
      = replicate 8 0 @ replicate 7 4" by code_simp
  moreover have "struct_size HbaMemory = 256" by code_simp
  ultimately show ?thesis
    by (simp add: port_mut_def ahci_registers_def add.assoc)
qed

text \<open>The length of the command FIS is never put into the command header:
  \<^verbatim>\<open>set_command_fis_size\<close> works on a copy, so whatever the low five bits were they stay; the write,
  prefetch and clear flags are set as intended.\<close>

theorem command_fis_length_never_set:
  assumes "bit_ops_ok (mbits env)"
  shows "\<exists>w. command_header_flags env command v = Inr w \<and> take_bit 5 w = take_bit 5 v
    \<and> bit w 6 = is_write command \<and> bit w 7 \<and> bit w 10"
  using header_flags_run [OF assms] unfolding is_write_def by blast

theorem command_fis_length_never_set_witness:
  "\<exists>w. command_header_flags ahci_env ReadDmaExt 0 = Inr w \<and> take_bit 5 w = 0 \<and> \<not> bit w 6"
  using command_fis_length_never_set [of ahci_env ReadDmaExt 0] ref_bit_ops_ok
  by (auto simp: ahci_env_def is_write_def)

end
