(* ===== verification/Pci.thy ===== *)
theory Pci
  imports Bitmap Interrupts Ahci_Requests Pci_Kinds
begin

text \<open>
  The PCI subsystem, \<^verbatim>\<open>src/drivers/pci_impl.rs\<close>: the scan of the configuration space, the routing of MSI-X interrupts, the table of drivers and the set-up of a
  device. What the crates provide is a parameter: \<open>mcfg\<close> is \<^verbatim>\<open>PciConfigRegions::physical_address\<close> of
  the \<^verbatim>\<open>acpi\<close> crate, \<open>pcics_ops\<close> the parsed headers and capabilities of the \<^verbatim>\<open>pcics\<close> crate, and
  \<open>apic_env\<close> what the local APIC and its base register hold. \<^verbatim>\<open>aml_route\<close> and the start of a driver
  are arguments of \<open>init_device\<close>.

  The scan reaches bus 0 only, keeps one device of each kind, and the AHCI driver starts only
  while it is the only driver registered.
\<close>

section \<open>The scan\<close>

text \<open>\<^verbatim>\<open>i.to_be_bytes()\<close> gives segment, bus, device and function.\<close>

definition mcfg_brute_force_inner ::
  "(u16 \<Rightarrow> u8 \<Rightarrow> u8 \<Rightarrow> u8 \<Rightarrow> u64 option) option \<Rightarrow> nat \<Rightarrow> nat \<Rightarrow> u64 option list" where
  "mcfg_brute_force_inner mcfg lo hi =
     map (\<lambda>i. let b = be_bytes 4 (of_nat i :: u32) in
       case mcfg of
         Some physical_address \<Rightarrow> physical_address (ucast (b ! 0)) (b ! 1) (b ! 2) (b ! 3)
       | None \<Rightarrow> None) [lo..<hi]"

record 'h pcics_ops =
  parse_header :: "u8 list \<Rightarrow> 'h option"
  class_base :: "'h \<Rightarrow> u8"
  class_sub :: "'h \<Rightarrow> u8"
  header_vendor :: "'h \<Rightarrow> u16"
  capabilities_pointer :: "'h \<Rightarrow> u8"
  base_addresses :: "'h \<Rightarrow> u32 list option"
  msix_capability :: "u8 list \<Rightarrow> 'h \<Rightarrow> (nat \<times> nat option \<times> u32) option"
  set_interrupt_disable :: "'h \<Rightarrow> 'h"

definition kind_of :: "'h pcics_ops \<Rightarrow> 'h \<Rightarrow> DeviceKind" where
  "kind_of ops h = device_kind_new (ucast (class_base ops h)) (ucast (class_sub ops h))"

text \<open>Mapping the configuration space of a function and reading the 256 bytes of its header.\<close>

definition read_header ::
  "('m, 'd) menv \<Rightarrow> 'h pcics_ops \<Rightarrow> u64 \<Rightarrow> (('m, 'd) mstate, u64 \<times> u8 list \<times> 'h) act" where
  "read_header env ops addr =
     sbind (pure_exec (virt_new (mpage env) addr)) (\<lambda>a.
     sbind (pure_exec (add_ck (page_of (mpage env) a) (moffset env))) (\<lambda>virt.
     sthen (mmap env addr virt)
     (sbind (read_bytes env virt 256) (\<lambda>raw.
      sbind (pure_exec (unwrap (parse_header ops raw))) (\<lambda>h. ret (virt, raw, h))))))"

fun scan_loop ::
  "('m, 'd) menv \<Rightarrow> 'h pcics_ops \<Rightarrow> u64 list \<Rightarrow> DeviceKind list \<Rightarrow> u64 list
   \<Rightarrow> (('m, 'd) mstate, u64 list) act" where
  "scan_loop env ops [] kinds found = ret found"
| "scan_loop env ops (addr # as) kinds found =
     sbind (read_header env ops addr) (\<lambda>(_, _, h).
       let kind = kind_of ops h in
       if kind = Unknown then scan_loop env ops as kinds found
       else if kind \<in> set kinds then scan_loop env ops as kinds found
       else scan_loop env ops as (kinds @ [kind]) (found @ [addr]))"

text \<open>\<open>opt0\<close> is \<^verbatim>\<open>cfg!(opt_level = "0")\<close>; \<^verbatim>\<open>flatten\<close> drops the missing addresses.\<close>

definition mcfg_brute_force ::
  "('m, 'd) menv \<Rightarrow> 'h pcics_ops \<Rightarrow> bool \<Rightarrow> (u16 \<Rightarrow> u8 \<Rightarrow> u8 \<Rightarrow> u8 \<Rightarrow> u64 option) option
   \<Rightarrow> (('m, 'd) mstate, u64 list) act" where
  "mcfg_brute_force env ops opt0 mcfg =
     scan_loop env ops
       (List.map_filter id (mcfg_brute_force_inner mcfg 0 (if opt0 then 0x1000 else 0xffff))) [] []"

section \<open>MSI-X messages\<close>

definition Message :: "(string \<times> nat \<times> nat) list" where
  "Message = [(''addr_low'', 4, 4), (''addr_high'', 4, 4), (''data'', 4, 4), (''mask'', 4, 4)]"

record apic_env =
  lapic_id :: u32
  xapic_base :: u64

definition is_masked :: "('m, 'd) menv \<Rightarrow> u64 \<Rightarrow> (('m, 'd) mstate, bool) act" where
  "is_masked env msg =
     sbind (get_field env Message msg ''mask'') (\<lambda>v. pure_exec (bf_get_bit (mbits env) 32 v 0))"

definition set_mask :: "('m, 'd) menv \<Rightarrow> u64 \<Rightarrow> bool \<Rightarrow> (('m, 'd) mstate, unit) act" where
  "set_mask env msg mask_on =
     sbind (get_field env Message msg ''mask'') (\<lambda>v.
     sbind (pure_exec (bf_set_bit (mbits env) 32 v 0 mask_on)) (\<lambda>v.
     sthen (set_field env Message msg ''mask'' v)
     (sbind (get_field env Message msg ''mask'') (\<lambda>v.
      sbind (pure_exec (bf_set_bit (mbits env) 32 v 30 mask_on)) (set_field env Message msg ''mask'')))))"

definition message_data :: "('m, 'd) menv \<Rightarrow> nat \<Rightarrow> nat \<Rightarrow> u64 exec" where
  "message_data env irq mode =
     rbind (bf_set_bits (mbits env) 32 0 0 8 (of_nat irq)) (\<lambda>d.
     rbind (bf_set_bits (mbits env) 32 d 8 11 (of_nat mode)) (\<lambda>d.
     rbind (bf_set_bit (mbits env) 32 d 14 False) (\<lambda>d.
     rbind (bf_set_bit (mbits env) 32 d 15 False) (\<lambda>d.
       bf_set_bits (mbits env) 32 d 16 32 0))))"

definition message_address :: "('m, 'd) menv \<Rightarrow> apic_env \<Rightarrow> u64 exec" where
  "message_address env ap =
     rbind (bf_set_bits (mbits env) 32 0 12 20 (ucast (lapic_id ap))) (\<lambda>a.
     rbind (bf_get_bits (mbits env) 64 (xapic_base ap) 20 32) (\<lambda>b.
       bf_set_bits (mbits env) 32 a 20 32 (ucast (ucast b :: u32))))"

definition route_irq ::
  "('m, 'd) menv \<Rightarrow> apic_env \<Rightarrow> u64 \<Rightarrow> nat \<Rightarrow> nat \<Rightarrow> (('m, 'd) mstate, unit) act" where
  "route_irq env ap msg irq mode =
     sbind (pure_exec (message_data env irq mode)) (\<lambda>data.
     sbind (pure_exec (message_address env ap)) (\<lambda>addr.
     sthen (set_field env Message msg ''data'' data)
     (sthen (set_field env Message msg ''addr_low'' addr)
     (set_field env Message msg ''addr_high'' (ucast (ucast (moffset env) :: u32))))))"

section \<open>Drivers and devices\<close>

datatype pci_driver = AhciDriver | XhciDriver

text \<open>\<^verbatim>\<open>FOSSPciDeviceHandle::handles\<close> of the two drivers.\<close>

fun handles_device :: "pci_driver \<Rightarrow> Vendor \<Rightarrow> DeviceKind \<Rightarrow> bool" where
  "handles_device AhciDriver v k \<longleftrightarrow> k = SataController"
| "handles_device XhciDriver v k \<longleftrightarrow> k = UsbController"

text \<open>\<^verbatim>\<open>PCI_TABLE\<close> and \<^verbatim>\<open>PCI_DRIVER_COUNT\<close>.\<close>

record 'h pci_table =
  pci_devices :: "pci_driver list"
  raw_headers :: "u8 list list"
  pci_headers :: "'h list"
  driver_count :: nat

definition pci_table_new :: "'h pci_table" where
  "pci_table_new = \<lparr>pci_devices = [], raw_headers = [], pci_headers = [], driver_count = 0\<rparr>"

definition register_headers :: "u8 list \<Rightarrow> 'h \<Rightarrow> 'h pci_table \<Rightarrow> 'h pci_table" where
  "register_headers raw h t = t\<lparr>raw_headers := raw_headers t @ [raw], pci_headers := pci_headers t @ [h]\<rparr>"

definition register_device_driver :: "pci_driver \<Rightarrow> 'h pci_table \<Rightarrow> 'h pci_table" where
  "register_device_driver d t =
     (let ds = pci_devices t @ [d] in t\<lparr>pci_devices := ds, driver_count := length ds\<rparr>)"

record ('m, 'd, 'h) pci_world =
  w_machine :: "('m, 'd) mstate"
  w_idt :: idt_state
  w_table :: "'h pci_table"

definition on_machine :: "(('m, 'd) mstate, 'a) act \<Rightarrow> (('m, 'd, 'h, 'z) pci_world_scheme, 'a) act" where
  "on_machine m w = rbind (m (w_machine w)) (\<lambda>(x, s). Inr (x, w\<lparr>w_machine := s\<rparr>))"

definition on_table :: "('h pci_table \<Rightarrow> 'h pci_table) \<Rightarrow> (('m, 'd, 'h, 'z) pci_world_scheme, unit) act" where
  "on_table f w = Inr ((), w\<lparr>w_table := f (w_table w)\<rparr>)"

definition msi_x_handler :: idt_handler where
  "msi_x_handler = h_registered 0"

text \<open>One entry of the message table: a vector is allocated, the message routed to it, the handler
  registered. \<^verbatim>\<open>IrqMode::Fixed\<close> is 0.\<close>

definition route_entry ::
  "('m, 'd) menv \<Rightarrow> apic_env \<Rightarrow> u64 \<Rightarrow> nat \<Rightarrow> (('m, 'd, 'h, 'z) pci_world_scheme, unit) act" where
  "route_entry env ap table i w =
     rbind (irqalloc (w_idt w)) (\<lambda>irq.
     rbind (on_machine (route_irq env ap (table + of_nat (struct_size Message * i)) irq 0) w) (\<lambda>(_, w).
       Inr ((), w\<lparr>w_idt := register_handler irq msi_x_handler (w_idt w)\<rparr>)))"

definition msix_bar :: "'h pcics_ops \<Rightarrow> 'h \<Rightarrow> nat option \<Rightarrow> u64 exec" where
  "msix_bar ops h bir =
     (case base_addresses ops h of
        None \<Rightarrow> Inr 0
      | Some bars \<Rightarrow>
          (case bir of
             Some i \<Rightarrow> rbind (slice_get bars i) (\<lambda>b. Inr (ucast b))
           | None \<Rightarrow> Inl (Panic ExplicitPanic)))"

text \<open>\<open>xhci\<close> is \<^verbatim>\<open>xhci_init\<close>. The enable bit of the capability and the interrupt bit of the command
  register are set in the parsed copies only; the header copy is what the driver is started with.\<close>

definition setup_msix ::
  "('m, 'd) menv \<Rightarrow> 'h pcics_ops \<Rightarrow> apic_env \<Rightarrow> (('m, 'd, 'h, 'z) pci_world_scheme, unit) act \<Rightarrow> u64 \<Rightarrow> 'h
   \<Rightarrow> nat \<times> nat option \<times> u32 \<Rightarrow> (('m, 'd, 'h, 'z) pci_world_scheme, 'h) act" where
  "setup_msix env ops ap xhci header_addr h cap =
     (case cap of (table_len, bir, bar_offset) \<Rightarrow>
      sbind (pure_exec (msix_bar ops h bir)) (\<lambda>bar.
      sbind (pure_exec (add_ck header_addr bar)) (\<lambda>a.
      sbind (pure_exec (add_ck a (ucast bar_offset))) (\<lambda>table.
      sthen (for_act (route_entry env ap table) [0..<table_len])
      (sthen (if kind_of ops h = UsbController then xhci else ret ())
        (ret (set_interrupt_disable ops h)))))))"

fun start_drivers ::
  "(pci_driver \<Rightarrow> 'h \<Rightarrow> (('m, 'd, 'h, 'z) pci_world_scheme, 'h) act) \<Rightarrow> Vendor \<Rightarrow> DeviceKind \<Rightarrow> pci_driver list
   \<Rightarrow> 'h \<Rightarrow> (('m, 'd, 'h, 'z) pci_world_scheme, unit) act" where
  "start_drivers start v k [] h = ret ()"
| "start_drivers start v k (d # ds) h =
     (if handles_device d v k then sbind (start d h) (\<lambda>h. start_drivers start v k ds h)
      else start_drivers start v k ds h)"

text \<open>The body of the loop of \<^verbatim>\<open>init\<close>. \<open>aml\<close> is \<^verbatim>\<open>aml_route\<close>, \<open>start\<close> the \<^verbatim>\<open>start\<close> method of a driver.\<close>

definition init_device ::
  "('m, 'd) menv \<Rightarrow> 'h pcics_ops \<Rightarrow> apic_env \<Rightarrow> ('h \<Rightarrow> (('m, 'd, 'h, 'z) pci_world_scheme, unit) act)
   \<Rightarrow> (('m, 'd, 'h, 'z) pci_world_scheme, unit) act
   \<Rightarrow> (pci_driver \<Rightarrow> 'h \<Rightarrow> (('m, 'd, 'h, 'z) pci_world_scheme, 'h) act) \<Rightarrow> u64
   \<Rightarrow> (('m, 'd, 'h, 'z) pci_world_scheme, unit) act" where
  "init_device env ops ap aml xhci start dev =
     sbind (on_machine (read_header env ops dev)) (\<lambda>(header_addr, raw, h).
     sthen (on_table (register_headers raw h))
     (sthen (aml h)
     (sthen (if kind_of ops h = SataController then on_table (register_device_driver AhciDriver) else ret ())
     (sbind (if capabilities_pointer ops h \<noteq> 0
             then (case msix_capability ops raw h of
                     None \<Rightarrow> ret h
                   | Some cap \<Rightarrow> setup_msix env ops ap xhci header_addr h cap)
             else ret h)
     (\<lambda>h w. start_drivers start (vendor_new (ucast (header_vendor ops h))) (kind_of ops h)
            (pci_devices (w_table w)) h w)))))"

definition pci_init ::
  "('m, 'd) menv \<Rightarrow> 'h pcics_ops \<Rightarrow> apic_env \<Rightarrow> bool \<Rightarrow> (u16 \<Rightarrow> u8 \<Rightarrow> u8 \<Rightarrow> u8 \<Rightarrow> u64 option) option
   \<Rightarrow> (('m, 'd, 'h, 'z) pci_world_scheme, unit) act \<Rightarrow> ('h \<Rightarrow> (('m, 'd, 'h, 'z) pci_world_scheme, unit) act)
   \<Rightarrow> (('m, 'd, 'h, 'z) pci_world_scheme, unit) act
   \<Rightarrow> (pci_driver \<Rightarrow> 'h \<Rightarrow> (('m, 'd, 'h, 'z) pci_world_scheme, 'h) act) \<Rightarrow> (('m, 'd, 'h, 'z) pci_world_scheme, unit) act" where
  "pci_init env ops ap opt0 mcfg aml_setup aml xhci start =
     (if mcfg = None then halt (Panic ExplicitPanic)
      else sthen aml_setup
        (sbind (on_machine (mcfg_brute_force env ops opt0 mcfg))
          (for_act (init_device env ops ap aml xhci start))))"

section \<open>Scanning\<close>

lemma be_bytes_small:
  assumes "i < 65536"
  shows "be_bytes 4 (of_nat i :: u32) = [0, 0, of_nat (i div 256), of_nat (i mod 256)]"
proof -
  have u: "unat (of_nat i :: u32) = i" using assms by (simp add: unat_of_nat)
  have b: "(ucast (drop_bit k (of_nat i :: u32)) :: u8) = of_nat (i div 2 ^ k)" for k
  proof -
    have "unat (drop_bit k (of_nat i :: u32)) = i div 2 ^ k"
      using assms by (simp add: unsigned_drop_bit_eq u take_bit_nat_eq_self flip: drop_bit_eq_div)
    then show ?thesis by (metis of_nat_unat)
  qed
  have "(of_nat (i mod 256) :: u8) = of_nat i"
    by (simp add: word_of_nat_eq_iff take_bit_eq_mod)
  then show ?thesis
    using assms b [of 0] b [of 8] b [of 16] b [of 24] by (simp add: be_bytes_def le_bytes_def upt_rec)
qed

text \<open>The scan as a function of the kinds of the functions found: the first of each known kind.\<close>

fun first_of_kind :: "('a \<Rightarrow> DeviceKind) \<Rightarrow> DeviceKind list \<Rightarrow> 'a list \<Rightarrow> 'a list" where
  "first_of_kind k kinds [] = []"
| "first_of_kind k kinds (a # as) =
     (if k a = Unknown \<or> k a \<in> set kinds then first_of_kind k kinds as
      else a # first_of_kind k (kinds @ [k a]) as)"

lemma first_of_kind_props:
  "distinct (map k (first_of_kind k kinds as))
   \<and> set (map k (first_of_kind k kinds as)) = k ` set as - insert Unknown (set kinds)
   \<and> set (first_of_kind k kinds as) \<subseteq> set as"
proof (induction as arbitrary: kinds)
  case (Cons a as)
  show ?case using Cons [of kinds] Cons [of "kinds @ [k a]"] by auto
qed simp

text \<open>The configuration space of every function scanned is readable memory below \<open>2 ^ 47\<close>, and its
  header parses as \<open>hdr\<close> says.\<close>

definition config_space_ok ::
  "('m, 'd) menv \<Rightarrow> 'h pcics_ops \<Rightarrow> ('m, 'd) mstate \<Rightarrow> (u64 \<Rightarrow> 'h) \<Rightarrow> u64 set \<Rightarrow> bool" where
  "config_space_ok env ops st hdr addrs \<longleftrightarrow> direct_map_ok env
     \<and> (\<forall>a. page_of (mpage env) a = page_down a)
     \<and> kmapper (mkm st) \<noteq> None \<and> kfalloc (mkm st) \<noteq> None
     \<and> (\<exists>m. readable env m (mdev st)
        \<and> (\<forall>a \<in> addrs. unat a + unat (moffset env) < 2 ^ 47
             \<and> parse_header ops (map (\<lambda>i. m (page_down a + moffset env + of_nat i)) [0..<256]) = Some (hdr a)))"

lemma read_header_run:
  assumes "config_space_ok env ops st hdr addrs" and "a \<in> addrs"
  shows "\<exists>raw. read_header env ops a st = Inr ((page_down a + moffset env, raw, hdr a), st)"
proof -
  obtain m where m: "readable env m (mdev st)" and a: "unat a + unat (moffset env) < 2 ^ 47"
    and h: "parse_header ops (map (\<lambda>i. m (page_down a + moffset env + of_nat i)) [0..<256]) = Some (hdr a)"
    using assms unfolding config_space_ok_def by blast
  from assms(1) have env: "direct_map_ok env" "page_of (mpage env) a = page_down a"
    and km: "kmapper (mkm st) \<noteq> None" "kfalloc (mkm st) \<noteq> None"
    unfolding config_space_ok_def by blast+
  let ?v = "page_down a + moffset env"
  have le: "unat (page_down a) \<le> unat a" by (simp add: unat_page_down)
  then have v: "add_ck (page_down a) (moffset env) = Inr ?v" "unat ?v < 2 ^ 47"
    using a by (simp_all add: add_ck_def unat_word_ariths)
  have new: "virt_new (mpage env) a = Inr a" using env(1) a by (simp add: direct_map_ok_def)
  have map1: "mmap env a ?v st = Inr ((), st)"
    using a v(2) by (intro mmap_refused [OF env(1) _ _ km]) simp_all
  show ?thesis
    unfolding read_header_def
    by (simp only: act_simps new env(2) v(1) map1 read_bytes_run [OF m] h unwrap_simps rbind_Inr prod.case) blast
qed

lemma scan_loop_run:
  assumes "config_space_ok env ops st hdr addrs" and "set as \<subseteq> addrs"
  shows "scan_loop env ops as kinds found st
    = Inr (found @ first_of_kind (\<lambda>a. kind_of ops (hdr a)) kinds as, st)"
  using assms(2)
proof (induction as arbitrary: kinds found)
  case (Cons a as)
  obtain raw where "read_header env ops a st = Inr ((page_down a + moffset env, raw, hdr a), st)"
    using read_header_run [OF assms(1), of a] Cons.prems by auto
  with Cons show ?case by (simp add: act_simps Let_def)
qed (simp add: act_simps)

section \<open>Routing\<close>

lemma Message_layout [simp]:
  "field_offset Message ''addr_low'' = 0" "field_size Message ''addr_low'' = 4"
  "field_offset Message ''addr_high'' = 4" "field_size Message ''addr_high'' = 4"
  "field_offset Message ''data'' = 8" "field_size Message ''data'' = 4"
  "struct_size Message = 16"
  by code_simp+

lemma message_data_run:
  assumes ops: "bit_ops_ok (mbits env)" and irq: "irq < 256" and mode: "mode < 8"
  shows "message_data env irq mode = Inr (of_nat (irq + 256 * mode))"
proof -
  define i m :: u64 where "i = of_nat irq" and "m = of_nat mode"
  have t: "take_bit 8 i = i" "take_bit 3 m = m"
    using irq mode by (simp_all add: i_def m_def take_bit_of_nat take_bit_nat_eq_self)
  have low: "\<not> bit i n" if "8 \<le> n" for n
    using that arg_cong [OF t(1), of "\<lambda>x. bit x n"] by (simp add: bit_take_bit_iff)
  have small: "\<not> bit m n" if "3 \<le> n" for n
    using that arg_cong [OF t(2), of "\<lambda>x. bit x n"] by (simp add: bit_take_bit_iff)
  define d where "d = i OR push_bit 8 m"
  have high: "\<not> bit d n" if "11 \<le> n" for n using low small that by (auto simp: d_def bit_simps)
  have s1: "bf_set_bits (mbits env) 32 0 0 8 i = Inr i"
    by (subst bit_ops_okD(4) [OF ops]) (simp_all add: t)
  have s2: "bf_set_bits (mbits env) 32 i 8 11 m = Inr d"
    by (subst bit_ops_okD(4) [OF ops]) (auto intro!: bit_eqI simp: t low bit_simps d_def)
  have "unset_bit k d = d" if "11 \<le> k" for k
    by (rule bit_eqI) (use high that in \<open>auto simp: bit_unset_bit_iff\<close>)
  then have s3: "bf_set_bit (mbits env) 32 d 14 False = Inr d" "bf_set_bit (mbits env) 32 d 15 False = Inr d"
    using bit_ops_okD(2) [OF ops, of 14 32 d False] bit_ops_okD(2) [OF ops, of 15 32 d False] by simp_all
  have "d AND NOT (push_bit 16 (mask 16)) = d"
    by (rule bit_eqI) (use high in \<open>auto simp: bit_and_iff bit_not_iff bit_push_bit_iff\<close>)
  then have s4: "bf_set_bits (mbits env) 32 d 16 32 0 = Inr d"
    using bit_ops_okD(4) [OF ops, of 16 32 32 0 d] by simp
  have "i + push_bit 8 m = d"
    unfolding d_def by (rule disjunctive_add) (use low in \<open>auto simp: bit_push_bit_iff\<close>)
  then have "d = of_nat (irq + 256 * mode)" by (simp add: i_def m_def push_bit_eq_mult mult.commute)
  moreover have "message_data env irq mode = Inr d"
    unfolding message_data_def i_def [symmetric] m_def [symmetric] by (simp add: s1 s2 s3 s4)
  ultimately show ?thesis by simp
qed

text \<open>The address: the local APIC's identifier from bit 12 on, bits 20 to 31 of its base above.\<close>

lemma message_address_run:
  assumes ops: "bit_ops_ok (mbits env)" and ident: "unat (lapic_id ap) < 256"
  shows "message_address env ap
    = Inr (of_nat (4096 * unat (lapic_id ap) + 2 ^ 20 * (unat (xapic_base ap) div 2 ^ 20 mod 2 ^ 12)))"
proof -
  define i x :: u64 where "i = ucast (lapic_id ap)" and "x = take_bit 12 (drop_bit 20 (xapic_base ap))"
  have i_nat: "i = of_nat (unat (lapic_id ap))" by (simp add: i_def)
  then have t: "take_bit 8 i = i" "take_bit 12 x = x"
    using ident by (simp_all add: x_def take_bit_of_nat take_bit_nat_eq_self del: of_nat_unat)
  have i: "\<not> bit i n" if "8 \<le> n" for n
    using that arg_cong [OF t(1), of "\<lambda>x. bit x n"] by (simp add: bit_take_bit_iff)
  define d where "d = push_bit 12 i OR push_bit 20 x"
  have s1: "bf_set_bits (mbits env) 32 0 12 20 i = Inr (push_bit 12 i)"
    by (subst bit_ops_okD(4) [OF ops]) (simp_all add: t)
  have g: "bf_get_bits (mbits env) 64 (xapic_base ap) 20 32 = Inr x"
    using bit_ops_okD(3) [OF ops, of 20 32 64 "xapic_base ap"] by (simp add: x_def)
  have "push_bit 12 i AND NOT (push_bit 20 (mask 12)) = push_bit 12 i"
    by (rule bit_eqI) (use i in \<open>auto simp: bit_and_iff bit_not_iff bit_push_bit_iff\<close>)
  then have s2: "bf_set_bits (mbits env) 32 (push_bit 12 i) 20 32 x = Inr d"
    using bit_ops_okD(4) [OF ops, of 20 32 32 x "push_bit 12 i"] t(2) by (simp add: d_def)
  have u: "(ucast (ucast x :: u32) :: u64) = x"
    by (rule bit_eqI) (auto simp: x_def bit_simps)
  have "push_bit 12 i + push_bit 20 x = d"
    unfolding d_def by (rule disjunctive_add) (use i in \<open>auto simp: bit_push_bit_iff\<close>)
  moreover have "unat x = take_bit 12 (drop_bit 20 (unat (xapic_base ap)))"
    using unat_lt_2p [of "xapic_base ap"]
    by (simp add: x_def unsigned_take_bit_eq unsigned_drop_bit_eq take_bit_nat_eq_self)
  then have "x = of_nat (unat (xapic_base ap) div 2 ^ 20 mod 2 ^ 12)"
    unfolding take_bit_eq_mod drop_bit_eq_div by (metis of_nat_unat ucast_id)
  moreover note i_nat
  ultimately have "d = of_nat (4096 * unat (lapic_id ap) + 2 ^ 20 * (unat (xapic_base ap) div 2 ^ 20 mod 2 ^ 12))"
    by (simp add: push_bit_eq_mult mult.commute del: of_nat_unat)
  moreover have "message_address env ap = Inr d"
    unfolding message_address_def i_def [symmetric] by (simp add: s1 g s2 u)
  ultimately show ?thesis by simp
qed

lemma route_irq_run:
  fixes msg :: u64
  assumes "bit_ops_ok (mbits env)" and "unat (lapic_id ap) < 256" and "irq < 256" and "mode < 8"
  defines "W \<equiv> \<lambda>k v d. bus_write (mbus env) 4 (msg + of_nat k) v d"
  shows "route_irq env ap msg irq mode st = Inr ((), st\<lparr>mdev :=
    W 4 (ucast (ucast (moffset env) :: u32))
     (W 0 (of_nat (4096 * unat (lapic_id ap) + 2 ^ 20 * (unat (xapic_base ap) div 2 ^ 20 mod 2 ^ 12)))
      (W 8 (of_nat (irq + 256 * mode)) (mdev st)))\<rparr>)"
  by (simp add: route_irq_def act_simps set_field_run W_def message_data_run [OF assms(1,3,4)]
      message_address_run [OF assms(1,2)])

lemma irqalloc_free:
  assumes "\<exists>v. 32 \<le> v \<and> v < 256 \<and> idt_table st v = None"
  obtains i where "irqalloc st = Inr i" "32 \<le> i" "i < 256" "idt_table st i = None"
proof (cases "find (\<lambda>i. idt_table st i = None) [32..<256]")
  case None
  then show ?thesis using assms find_upt_None [of "\<lambda>i. idt_table st i = None" 32 256] by blast
next
  case (Some i)
  then show ?thesis
    using that [of i] find_upt_Some [OF Some] by (simp add: irqalloc_def)
qed

definition free_vectors :: "idt_state \<Rightarrow> nat set" where
  "free_vectors st = {v. 32 \<le> v \<and> v < 256 \<and> idt_table st v = None}"

lemma finite_free_vectors [simp]: "finite (free_vectors st)"
  by (rule finite_subset [of _ "{..<256}"]) (auto simp: free_vectors_def)

lemma register_handler_table:
  "idt_table (register_handler i h st) = (idt_table st)(i \<mapsto> h)"
  by (simp add: register_handler_def interrupts_init_def Let_def)

text \<open>While messages are routed, the table differs from the one at the start only in vectors that
  were free then and have the message handler now.\<close>

definition msix_inv ::
  "('m, 'd) menv \<Rightarrow> apic_env \<Rightarrow> ('m, 'd, 'h, 'z) pci_world_scheme \<Rightarrow> ('m, 'd, 'h, 'z) pci_world_scheme
   \<Rightarrow> bool" where
  "msix_inv env ap w0 w \<longleftrightarrow> bit_ops_ok (mbits env) \<and> unat (lapic_id ap) < 256
     \<and> (\<forall>v. idt_table (w_idt w) v = idt_table (w_idt w0) v
          \<or> 32 \<le> v \<and> v < 256 \<and> idt_table (w_idt w0) v = None
            \<and> idt_table (w_idt w) v = Some msi_x_handler)
     \<and> (\<exists>d i. w = w0\<lparr>w_machine := (w_machine w0)\<lparr>mdev := d\<rparr>, w_idt := i\<rparr>)"

interpretation vectors: name_source
  "\<lambda>i w. rbind (route_entry env ap table i w) (\<lambda>(_, w). Inr w)" "\<lambda>w. free_vectors (w_idt w)"
  "msix_inv env ap w0" for env ap table w0
proof unfold_locales
  fix w k
  assume inv: "msix_inv env ap w0 w" and "free_vectors (w_idt w) \<noteq> {}"
  then obtain i where i: "irqalloc (w_idt w) = Inr i" "32 \<le> i" "i < 256" "idt_table (w_idt w) i = None"
    using irqalloc_free [of "w_idt w"] by (auto simp: free_vectors_def)
  obtain d where d: "route_irq env ap (table + of_nat (struct_size Message * k)) i 0 (w_machine w)
      = Inr ((), (w_machine w)\<lparr>mdev := d\<rparr>)"
    using route_irq_run [of env ap i 0] inv i(3) by (auto simp: msix_inv_def)
  let ?w = "w\<lparr>w_machine := (w_machine w)\<lparr>mdev := d\<rparr>, w_idt := register_handler i msi_x_handler (w_idt w)\<rparr>"
  have "route_entry env ap table k w = Inr ((), ?w)"
    using d i(1) by (simp add: route_entry_def on_machine_def del: Message_layout)
  moreover have "free_vectors (w_idt ?w) = free_vectors (w_idt w) - {i}" "i \<in> free_vectors (w_idt w)"
    using i by (auto simp: free_vectors_def register_handler_table)
  moreover have "idt_table (w_idt w0) i = None"
    using inv i(4) unfolding msix_inv_def by (metis option.distinct(1))
  moreover have "\<exists>d i. ?w = w0\<lparr>w_machine := (w_machine w0)\<lparr>mdev := d\<rparr>, w_idt := i\<rparr>"
    using inv unfolding msix_inv_def by force
  ultimately have "msix_inv env ap w0 ?w"
    using inv i unfolding msix_inv_def by (simp add: register_handler_table)
  note steps = \<open>route_entry env ap table k w = Inr ((), ?w)\<close>
    \<open>free_vectors (w_idt ?w) = free_vectors (w_idt w) - {i}\<close> \<open>i \<in> free_vectors (w_idt w)\<close> this
  then show "\<exists>n s'. rbind (route_entry env ap table k w) (\<lambda>(_, w). Inr w) = Inr s'
      \<and> n \<in> free_vectors (w_idt w) \<and> free_vectors (w_idt s') = free_vectors (w_idt w) - {n}
      \<and> msix_inv env ap w0 s'"
    using steps by (intro exI [of _ i] exI [of _ ?w]) (simp add: rbind_def)
qed simp

lemma route_entries:
  assumes env: "bit_ops_ok (mbits env)" "unat (lapic_id ap) < 256"
    and "length is \<le> card (free_vectors (w_idt w))"
  shows "\<exists>irqs w'. for_act (route_entry env ap table) is w = Inr ((), w')
    \<and> length irqs = length is \<and> distinct irqs \<and> set irqs \<subseteq> free_vectors (w_idt w)
    \<and> idt_table (w_idt w') = (\<lambda>v. if v \<in> set irqs then Some msi_x_handler else idt_table (w_idt w) v)
    \<and> (\<exists>d i. w' = w\<lparr>w_machine := (w_machine w)\<lparr>mdev := d\<rparr>, w_idt := i\<rparr>)"
proof -
  have "\<exists>d i. w = w\<lparr>w_machine := (w_machine w)\<lparr>mdev := d\<rparr>, w_idt := i\<rparr>"
    by (intro exI [of _ "mdev (w_machine w)"] exI [of _ "w_idt w"]) simp
  then have "msix_inv env ap w w" using env by (simp add: msix_inv_def)
  from vectors.take_all [OF this assms(3), of table] obtain irqs w' where
    run: "for_each (\<lambda>i w. rbind (route_entry env ap table i w) (\<lambda>(_, w). Inr w)) is w = Inr w'"
    and irqs: "length irqs = length is" "distinct irqs" "set irqs \<subseteq> free_vectors (w_idt w)"
    and free: "free_vectors (w_idt w') = free_vectors (w_idt w) - set irqs"
    and inv: "msix_inv env ap w w'" by blast
  have "idt_table (w_idt w') v = (if v \<in> set irqs then Some msi_x_handler else idt_table (w_idt w) v)" for v
  proof -
    have "v \<in> free_vectors (w_idt w') \<longleftrightarrow> v \<in> free_vectors (w_idt w) \<and> v \<notin> set irqs"
      using free by blast
    moreover have "v \<in> set irqs \<longrightarrow> v \<in> free_vectors (w_idt w)" using irqs(3) by blast
    moreover have "idt_table (w_idt w') v = idt_table (w_idt w) v
        \<or> 32 \<le> v \<and> v < 256 \<and> idt_table (w_idt w) v = None \<and> idt_table (w_idt w') v = Some msi_x_handler"
      using inv unfolding msix_inv_def by blast
    ultimately show ?thesis by (auto simp: free_vectors_def)
  qed
  moreover have "\<exists>d i. w' = w\<lparr>w_machine := (w_machine w)\<lparr>mdev := d\<rparr>, w_idt := i\<rparr>"
    using inv by (simp add: msix_inv_def)
  ultimately show ?thesis
    using irqs run by (intro exI [of _ irqs] exI [of _ w']) (simp add: for_act_for_each rbind_def fun_eq_iff)
qed

section \<open>Properties\<close>

text \<open>The scan of the configuration space asks for bus 0 of segment 0 only: the number it takes
  apart into segment, bus, device and function stays below \<open>2 ^ 16\<close>.\<close>

theorem scan_reaches_bus_zero_only:
  "mcfg_brute_force_inner (Some pa) 0 0xffff
     = map (\<lambda>i. pa 0 0 (of_nat (i div 256)) (of_nat (i mod 256))) [0..<0xffff]"
  unfolding mcfg_brute_force_inner_def
  by (rule map_cong [OF refl]) (simp add: be_bytes_small Let_def del: of_nat_mod upt_Suc)


text \<open>C20. A message is routed to the vector it is given, with the delivery mode above it, and to the
  local APIC's address with its identifier; the high half of the address becomes the low half of
  the offset of physical memory. The mask is left alone.\<close>

theorem route_irq_writes_message:
  assumes mem: "memory_at (mbus env) view msg 16"
    and run: "bit_ops_ok (mbits env)" "unat (lapic_id ap) < 256" "irq < 256" "mode < 8"
  shows "\<exists>d. route_irq env ap msg irq mode st = Inr ((), st\<lparr>mdev := d\<rparr>)
    \<and> le_value (take 4 (view d))
        = 4096 * unat (lapic_id ap) + 2 ^ 20 * (unat (xapic_base ap) div 2 ^ 20 mod 2 ^ 12)
    \<and> le_value (take 4 (drop 4 (view d))) = unat (moffset env) mod 2 ^ 32
    \<and> le_value (take 4 (drop 8 (view d))) = irq + 256 * mode
    \<and> drop 12 (view d) = drop 12 (view (mdev st))"
proof -
  let ?a = "4096 * unat (lapic_id ap) + 2 ^ 20 * (unat (xapic_base ap) div 2 ^ 20 mod 2 ^ 12)"
  let ?hi = "ucast (ucast (moffset env) :: u32) :: u64"
  let ?v = "patch (patch (patch (view (mdev st)) 8 (le_bytes 4 (of_nat (irq + 256 * mode) :: u64)))
    0 (le_bytes 4 (of_nat ?a :: u64))) 4 (le_bytes 4 ?hi)"
  obtain d where d: "route_irq env ap msg irq mode st = Inr ((), st\<lparr>mdev := d\<rparr>)" and v: "view d = ?v"
    using route_irq_run [OF run, of msg st] memory_atD(3) [OF mem, of 8 4] memory_atD(3) [OF mem, of 0 4]
      memory_atD(3) [OF mem, of 4 4] by auto
  have len: "length (view (mdev st)) = 16" by (rule memory_atD(1) [OF mem])
  have "unat (xapic_base ap) div 2 ^ 20 mod 2 ^ 12 < 4096" by simp
  then have a: "?a < 2 ^ 32" using run(2) by simp
  have split: "drop 8 (patch (patch xs 0 as) 4 bs) = drop 8 xs"
    "take 4 (patch (patch xs 0 as) 4 bs) = as" "take 4 (drop 4 (patch (patch xs 0 as) 4 bs)) = bs"
    if "length xs = 16" "length as = 4" "length bs = 4" for xs as bs :: "u8 list"
    using that by (simp_all add: patch_def)
  have "unat ?hi = unat (moffset env) mod 2 ^ 32"
    by (simp add: unsigned_ucast_eq take_bit_eq_mod unat_mod)
  moreover have "drop 12 ?v = drop 12 (view (mdev st))"
    using len by (simp add: patch_def length_le_bytes)
  moreover have "take 4 (drop 8 ?v) = le_bytes 4 (of_nat (irq + 256 * mode) :: u64)"
    using len by (subst split(1)) (simp_all add: patch_def length_le_bytes)
  moreover have "take 4 ?v = le_bytes 4 (of_nat ?a :: u64)" "take 4 (drop 4 ?v) = le_bytes 4 ?hi"
    using len by (intro split; simp add: length_le_bytes)+
  moreover have "irq + 256 * mode < 2 ^ 32" using run(3,4) by simp
  ultimately show ?thesis
    using d a by (intro exI [of _ d]) (simp add: v le_value_le_bytes unat_of_nat del: of_nat_add of_nat_mult)
qed

theorem route_irq_writes_message_witness:
  "\<exists>d. route_irq (ahci_env\<lparr>mbus := plain_bus\<rparr>) \<lparr>lapic_id = 3, xapic_base = 0xFEE00900\<rparr> 0x2000 33 0 ahci_state
       = Inr ((), ahci_state\<lparr>mdev := d\<rparr>)
     \<and> le_value (take 4 (plain_view 0x2000 16 d)) = 0xFEE03000
     \<and> le_value (take 4 (drop 8 (plain_view 0x2000 16 d))) = 33"
proof -
  let ?env = "ahci_env\<lparr>mbus := plain_bus\<rparr>" and ?ap = "\<lparr>lapic_id = 3, xapic_base = 0xFEE00900\<rparr>"
  have mem: "memory_at (mbus ?env) (plain_view 0x2000 16) 0x2000 16" by (simp add: plain_memory_at)
  have bits: "bit_ops_ok (mbits ?env)" by (simp add: ahci_env_def ref_bit_ops_ok)
  note run = route_irq_writes_message [OF mem bits, where ap = ?ap and irq = 33 and mode = 0 and st = ahci_state]
  show ?thesis by (rule ex_forward [OF run]) simp_all
qed


section \<open>An example\<close>

text \<open>One function, at \<open>0x1000\<close>, all of whose header is zero.\<close>

definition example_pcics :: "u8 list pcics_ops" where
  "example_pcics = \<lparr>parse_header = Some, class_base = (\<lambda>h. h ! 11), class_sub = (\<lambda>h. h ! 10),
     header_vendor = (\<lambda>h. 0), capabilities_pointer = (\<lambda>h. h ! 52), base_addresses = (\<lambda>h. Some (replicate 6 0)),
     msix_capability = (\<lambda>raw h. None), set_interrupt_disable = id\<rparr>"

definition example_pci_env :: "(unit, u64 \<Rightarrow> u8) menv" where
  "example_pci_env = ahci_env\<lparr>mbus := plain_bus\<rparr>"

lemma example_scanned:
  "set (List.map_filter id (mcfg_brute_force_inner (Some (\<lambda>_ _ _ _. Some 0x1000)) 0 (if opt0 then 0x1000 else 0xffff)))
     = {0x1000}"
  by (auto simp: mcfg_brute_force_inner_def map_filter_def Let_def image_constant_conv)

lemma example_config_space:
  "config_space_ok example_pci_env example_pcics (ahci_state\<lparr>mdev := \<lambda>_. 0\<rparr>) (\<lambda>_. replicate 256 0) {0x1000}"
proof -
  have "readable example_pci_env (\<lambda>_. 0) (\<lambda>_. 0)"
    by (simp add: readable_def example_pci_env_def plain_bus_def)
  moreover have "direct_map_ok example_pci_env"
    by (simp add: direct_map_ok_def example_pci_env_def ahci_env_def ref_phys_ops_ok)
  moreover have "page_of (mpage example_pci_env) a = page_down a" "moffset example_pci_env = 0" for a
    by (simp_all add: example_pci_env_def ahci_env_def)
  ultimately show ?thesis
    by (auto simp: config_space_ok_def ahci_state_kmem example_pcics_def map_replicate_const
        intro!: exI [of _ "\<lambda>_. 0"])
qed



end
