(* ===== verification/Trb.thy ===== *)
theory Trb
  imports Machine
begin

text \<open>
  Transfer request blocks, \<^verbatim>\<open>src/drivers/xhci/mod.rs\<close>: the type a block carries in its fourth word
  (\<^verbatim>\<open>TrbAnalyzer::get_type\<close>) and the conversions into \<^verbatim>\<open>TrbKind\<close>. The structures of the blocks
  belong to the \<^verbatim>\<open>xhci\<close> crate; a reference to one is a value of the type variable \<open>'p\<close>. The names of
  the crate's \<^verbatim>\<open>TrbType\<close> get the prefix \<open>Trb\<close>, those of the three kinds \<open>Cmd\<close>, \<open>Event\<close> and
  \<open>Transfer\<close>, because the source uses the same names for all of them.
\<close>

datatype (plugins only:) TrbType =
    TrbNormal | TrbSetupStage | TrbDataStage | TrbStatusStage | TrbIsoch
  | TrbLink | TrbEventData | TrbNoopTransfer | TrbEnableSlot | TrbDisableSlot
  | TrbAddressDevice | TrbConfigureEndpoint | TrbEvaluateContext | TrbResetEndpoint | TrbStopEndpoint
  | TrbSetTrDequeuePointer | TrbResetDevice | TrbForceEvent | TrbNegotiateBandwidth | TrbSetLatencyToleranceValue
  | TrbGetPortBandwidth | TrbForceHeader | TrbNoopCommand | TrbGetExtendedProperty | TrbSetExtendedProperty
  | TrbTransferEvent | TrbCommandCompletion | TrbPortStatusChange | TrbBandwidthRequest | TrbDoorbell
  | TrbHostController | TrbDeviceNotification | TrbMfindexWrap

text \<open>The three kinds of transfer request blocks, each with a reference to the block.\<close>

datatype (plugins only:) 'p CommandKind =
    CmdAddressDevice 'p | CmdConfigureEndpoint 'p | CmdDisableSlot 'p | CmdEnableSlot 'p
  | CmdEvaluateContext 'p | CmdForceEvent 'p | CmdForceHeader 'p | CmdGetExtendedProperty 'p
  | CmdGetPortBandwidth 'p | CmdNegotiateBandwidth 'p | CmdNoop 'p | CmdResetDevice 'p
  | CmdResetEndpoint 'p | CmdSetExtendedProperty 'p | CmdSetLatencyToleranceValue 'p | CmdSetTrDequeuePointer 'p
  | CmdStopEndpoint 'p

datatype (plugins only:) 'p EventKind =
    EventBandwidthRequest 'p | EventCommandCompletion 'p | EventDeviceNotification 'p | EventDoorbell 'p
  | EventHostController 'p | EventMfindexWrap 'p | EventPortStatusChange 'p | EventTransferEvent 'p

datatype (plugins only:) 'p TransferKind =
    TransferDataStage 'p | TransferEventData 'p | TransferIsoch 'p | TransferNoop 'p
  | TransferNormal 'p | TransferSetupStage 'p | TransferStatusStage 'p

datatype (plugins only:) 'p TrbKind =
    TrbCommand "'p CommandKind" | TrbEvent "'p EventKind" | TrbTransfer "'p TransferKind" | TrbLinked 'p

definition trb_types :: "(nat \<times> TrbType) list" where
  "trb_types = [
     (1, TrbNormal), (2, TrbSetupStage), (3, TrbDataStage), (4, TrbStatusStage),
     (5, TrbIsoch), (6, TrbLink), (7, TrbEventData), (8, TrbNoopTransfer),
     (9, TrbEnableSlot), (10, TrbDisableSlot), (11, TrbAddressDevice), (12, TrbConfigureEndpoint),
     (13, TrbEvaluateContext), (14, TrbResetEndpoint), (15, TrbStopEndpoint), (16, TrbSetTrDequeuePointer),
     (17, TrbResetDevice), (18, TrbForceEvent), (19, TrbNegotiateBandwidth), (20, TrbSetLatencyToleranceValue),
     (21, TrbGetPortBandwidth), (22, TrbForceHeader), (23, TrbNoopCommand), (24, TrbGetExtendedProperty),
     (25, TrbSetExtendedProperty), (32, TrbTransferEvent), (33, TrbCommandCompletion), (34, TrbPortStatusChange),
     (35, TrbBandwidthRequest), (36, TrbDoorbell), (37, TrbHostController), (38, TrbDeviceNotification),
     (39, TrbMfindexWrap)]"

fun trb_kind_of_type :: "TrbType \<Rightarrow> 'p \<Rightarrow> 'p TrbKind" where
  "trb_kind_of_type TrbNormal p = TrbTransfer (TransferNormal p)"
| "trb_kind_of_type TrbSetupStage p = TrbTransfer (TransferSetupStage p)"
| "trb_kind_of_type TrbDataStage p = TrbTransfer (TransferDataStage p)"
| "trb_kind_of_type TrbStatusStage p = TrbTransfer (TransferStatusStage p)"
| "trb_kind_of_type TrbIsoch p = TrbTransfer (TransferIsoch p)"
| "trb_kind_of_type TrbLink p = TrbLinked p"
| "trb_kind_of_type TrbEventData p = TrbTransfer (TransferEventData p)"
| "trb_kind_of_type TrbNoopTransfer p = TrbTransfer (TransferNoop p)"
| "trb_kind_of_type TrbEnableSlot p = TrbCommand (CmdEnableSlot p)"
| "trb_kind_of_type TrbDisableSlot p = TrbCommand (CmdDisableSlot p)"
| "trb_kind_of_type TrbAddressDevice p = TrbCommand (CmdAddressDevice p)"
| "trb_kind_of_type TrbConfigureEndpoint p = TrbCommand (CmdConfigureEndpoint p)"
| "trb_kind_of_type TrbEvaluateContext p = TrbCommand (CmdEvaluateContext p)"
| "trb_kind_of_type TrbResetEndpoint p = TrbCommand (CmdResetEndpoint p)"
| "trb_kind_of_type TrbStopEndpoint p = TrbCommand (CmdStopEndpoint p)"
| "trb_kind_of_type TrbSetTrDequeuePointer p = TrbCommand (CmdSetTrDequeuePointer p)"
| "trb_kind_of_type TrbResetDevice p = TrbCommand (CmdResetDevice p)"
| "trb_kind_of_type TrbForceEvent p = TrbCommand (CmdForceEvent p)"
| "trb_kind_of_type TrbNegotiateBandwidth p = TrbCommand (CmdNegotiateBandwidth p)"
| "trb_kind_of_type TrbSetLatencyToleranceValue p = TrbCommand (CmdSetLatencyToleranceValue p)"
| "trb_kind_of_type TrbGetPortBandwidth p = TrbCommand (CmdGetPortBandwidth p)"
| "trb_kind_of_type TrbForceHeader p = TrbCommand (CmdForceHeader p)"
| "trb_kind_of_type TrbNoopCommand p = TrbCommand (CmdNoop p)"
| "trb_kind_of_type TrbGetExtendedProperty p = TrbCommand (CmdGetExtendedProperty p)"
| "trb_kind_of_type TrbSetExtendedProperty p = TrbCommand (CmdSetExtendedProperty p)"
| "trb_kind_of_type TrbTransferEvent p = TrbEvent (EventTransferEvent p)"
| "trb_kind_of_type TrbCommandCompletion p = TrbEvent (EventCommandCompletion p)"
| "trb_kind_of_type TrbPortStatusChange p = TrbEvent (EventPortStatusChange p)"
| "trb_kind_of_type TrbBandwidthRequest p = TrbEvent (EventBandwidthRequest p)"
| "trb_kind_of_type TrbDoorbell p = TrbEvent (EventDoorbell p)"
| "trb_kind_of_type TrbHostController p = TrbEvent (EventHostController p)"
| "trb_kind_of_type TrbDeviceNotification p = TrbEvent (EventDeviceNotification p)"
| "trb_kind_of_type TrbMfindexWrap p = TrbEvent (EventMfindexWrap p)"

definition get_type :: "bit_ops \<Rightarrow> u32 list \<Rightarrow> TrbType exec" where
  "get_type ops trb =
     rbind (slice_get trb 3) (\<lambda>w.
     rbind (bf_get_bits ops 32 (ucast w) 10 16) (\<lambda>code.
       case map_of trb_types (unat code) of
         Some t \<Rightarrow> Inr t
       | None \<Rightarrow> Inl (Panic UnreachableCode)))"

definition trb_kind_from :: "bit_ops \<Rightarrow> u32 list \<Rightarrow> 'p \<Rightarrow> 'p TrbKind exec" where
  "trb_kind_from ops trb p = rbind (get_type ops trb) (\<lambda>t. Inr (trb_kind_of_type t p))"

section \<open>Properties\<close>

fun trb_class :: "'p TrbKind \<Rightarrow> nat set" where
  "trb_class (TrbTransfer k) = {1, 2, 3, 4, 5, 7, 8}"
| "trb_class (TrbLinked p) = {6}"
| "trb_class (TrbCommand k) = {9..25}"
| "trb_class (TrbEvent k) = {32..39}"

definition trb_code :: "u32 list \<Rightarrow> nat" where
  "trb_code trb = unat (trb ! 3) div 1024 mod 64"

lemma trb_code_bits:
  assumes "bit_ops_ok ops" and "length trb = 4"
  shows "bf_get_bits ops 32 (ucast (trb ! 3)) 10 16 = Inr (of_nat (trb_code trb))"
proof -
  let ?w = "ucast (trb ! 3) :: u64"
  have "bf_get_bits ops 32 ?w 10 16 = Inr (take_bit 6 (drop_bit 10 ?w))"
    using bit_ops_okD(3) [OF assms(1), of 10 16 32 ?w] by simp
  moreover have "take_bit 6 (drop_bit 10 n) = n div 1024 mod 64" for n :: nat
    by (simp add: take_bit_eq_mod drop_bit_eq_div)
  then have "unat (take_bit 6 (drop_bit 10 ?w)) = trb_code trb"
    using unat_lt_2p [of "trb ! 3"]
    by (simp add: trb_code_def unsigned_take_bit_eq unsigned_drop_bit_eq unsigned_ucast_eq
        take_bit_nat_eq_self)
  ultimately show ?thesis by (metis of_nat_unat ucast_id)
qed

lemma trb_types_classified:
  "\<forall>(c, t) \<in> set trb_types. c \<in> trb_class (trb_kind_of_type t p)"
  by (simp add: trb_types_def)

lemma trb_types_codes: "fst ` set trb_types = {1..25} \<union> {32..39}"
proof -
  have "map fst trb_types = [1..<26] @ [32..<40]" by (simp add: trb_types_def upt_rec)
  then have "set (map fst trb_types) = set ([1..<26] @ [32..<40])" by (simp only:)
  also have "\<dots> = {1..25} \<union> {32..39}" by auto
  finally show ?thesis by simp
qed



end
