(* ===== verification/Xhci.thy ===== *)
theory Xhci
  imports Pci Trb
begin

text \<open>
  The USB host controller, \<^verbatim>\<open>src/drivers/xhci/mod.rs\<close> and \<^verbatim>\<open>mass_storage.rs\<close>: \<^verbatim>\<open>XhciImpl::new\<close>,
  \<^verbatim>\<open>init\<close> and \<^verbatim>\<open>probe\<close>, the registration \<^verbatim>\<open>xhci_init\<close>, and the mass storage driver.

  The registers belong to the \<^verbatim>\<open>xhci\<close> crate: \<open>xhci_ops\<close> reads and writes them on the state \<open>'x\<close> of
  the controller and has the crate's field accessors as functions of the raw value; \<open>'p\<close> is the
  value of a port register set. The machine of \<open>Machine\<close> supplies frames, pages and memory.
  Log messages and the register reads that are only printed are left out.

  \<^item> \<open>xhci_start_programs\<close>: a controller that answers is stopped, reset, given its tables and started,
    and with its ports off the whole start returns.
  \<^item> \<open>xhci_port_reset_never_returns\<close>: the loop that waits for the reset of a port looks at a copy of
    the register, so one enabled port is enough for the start to wait forever.
\<close>

section \<open>Registers\<close>

datatype xreg =
    Usbcmd | Usbsts | Hcsparams1 | Hcsparams2 | Hccparams2 | Config | Dcbaap | Crcr
  | Doorbell nat | Erstsz nat | Erdp nat | Erstba nat | Imod nat | Iman nat

record ('x, 'p) xhci_ops =
  x_read :: "xreg \<Rightarrow> 'x \<Rightarrow> u64 \<times> 'x"
  x_write :: "xreg \<Rightarrow> u64 \<Rightarrow> 'x \<Rightarrow> 'x"
  x_port_read :: "nat \<Rightarrow> 'x \<Rightarrow> 'p \<times> 'x"
  x_port_write :: "nat \<Rightarrow> 'p \<Rightarrow> 'x \<Rightarrow> 'x"
  x_port_count :: nat
  device_size :: nat
  controller_not_ready :: "u64 \<Rightarrow> bool"
  hc_halted :: "u64 \<Rightarrow> bool"
  run_stop :: "u64 \<Rightarrow> bool"
  set_run_stop :: "u64 \<Rightarrow> u64"
  clear_run_stop :: "u64 \<Rightarrow> u64"
  set_host_controller_reset :: "u64 \<Rightarrow> u64"
  set_interrupter_enable :: "u64 \<Rightarrow> u64"
  number_of_device_slots :: "u64 \<Rightarrow> u8"
  number_of_ports :: "u64 \<Rightarrow> u8"
  number_of_interrupts :: "u64 \<Rightarrow> u16"
  configuration_information_capability :: "u64 \<Rightarrow> bool"
  set_configuration_information_enable :: "u64 \<Rightarrow> u64"
  set_max_device_slots_enabled :: "u8 \<Rightarrow> u64 \<Rightarrow> u64"
  set_dcbaap :: "u64 \<Rightarrow> u64 \<Rightarrow> u64"
  set_command_ring_pointer :: "u64 \<Rightarrow> u64 \<Rightarrow> u64"
  set_erstsz :: "u16 \<Rightarrow> u64 \<Rightarrow> u64"
  set_event_ring_dequeue_pointer :: "u64 \<Rightarrow> u64 \<Rightarrow> u64"
  set_erstba :: "u64 \<Rightarrow> u64 \<Rightarrow> u64"
  set_interrupt_moderation_interval :: "u16 \<Rightarrow> u64 \<Rightarrow> u64"
  set_interrupt_moderation_counter :: "u16 \<Rightarrow> u64 \<Rightarrow> u64"
  set_0_interrupt_pending :: "u64 \<Rightarrow> u64"
  set_interrupt_enable :: "u64 \<Rightarrow> u64"
  max_scratchpad_buffers :: "u64 \<Rightarrow> u32"
  set_doorbell_target :: "u8 \<Rightarrow> u64 \<Rightarrow> u64"
  set_port_power :: "'p \<Rightarrow> 'p"
  clear_hardware_lpm_enable :: "'p \<Rightarrow> 'p"
  port_enabled_disabled :: "'p \<Rightarrow> bool"
  set_0_port_enabled_disabled :: "'p \<Rightarrow> 'p"
  set_port_reset :: "'p \<Rightarrow> 'p"
  port_reset :: "'p \<Rightarrow> bool"
  port_power :: "'p \<Rightarrow> bool"
  current_connect_status :: "'p \<Rightarrow> bool"

record ('m, 'd, 'x) xhci_world =
  xm :: "('m, 'd) mstate"
  xc :: 'x

definition xread :: "('x, 'p) xhci_ops \<Rightarrow> xreg \<Rightarrow> (('m, 'd, 'x) xhci_world, u64) act" where
  "xread ops r w = (case x_read ops r (xc w) of (v, c) \<Rightarrow> Inr (v, w\<lparr>xc := c\<rparr>))"

definition xwrite :: "('x, 'p) xhci_ops \<Rightarrow> xreg \<Rightarrow> u64 \<Rightarrow> (('m, 'd, 'x) xhci_world, unit) act" where
  "xwrite ops r v w = Inr ((), w\<lparr>xc := x_write ops r v (xc w)\<rparr>)"

definition xupdate :: "('x, 'p) xhci_ops \<Rightarrow> xreg \<Rightarrow> (u64 \<Rightarrow> u64) \<Rightarrow> (('m, 'd, 'x) xhci_world, unit) act" where
  "xupdate ops r f = sbind (xread ops r) (\<lambda>v. xwrite ops r (f v))"

definition xport_read :: "('x, 'p) xhci_ops \<Rightarrow> nat \<Rightarrow> (('m, 'd, 'x) xhci_world, 'p) act" where
  "xport_read ops i w = (case x_port_read ops i (xc w) of (v, c) \<Rightarrow> Inr (v, w\<lparr>xc := c\<rparr>))"

definition xport_update :: "('x, 'p) xhci_ops \<Rightarrow> nat \<Rightarrow> ('p \<Rightarrow> 'p) \<Rightarrow> (('m, 'd, 'x) xhci_world, unit) act" where
  "xport_update ops i f =
     sbind (xport_read ops i) (\<lambda>p w. Inr ((), w\<lparr>xc := x_port_write ops i (f p) (xc w)\<rparr>))"

definition xmem :: "(('m, 'd) mstate, 'a) act \<Rightarrow> (('m, 'd, 'x) xhci_world, 'a) act" where
  "xmem m w = rbind (m (xm w)) (\<lambda>(x, s). Inr (x, w\<lparr>xm := s\<rparr>))"

definition xalloc :: "('m, 'd) menv \<Rightarrow> nat \<Rightarrow> (('m, 'd, 'x) xhci_world, u64) act" where
  "xalloc env tsize = xmem (\<lambda>s.
     rbind (addralloc (mpage env) (mflags env) (moffset env) tsize (mkm s)) (\<lambda>(a, km).
       Inr (a, s\<lparr>mkm := km\<rparr>)))"

section \<open>The controller\<close>

text \<open>\<^verbatim>\<open>XhciImpl::new\<close>. \<open>registers_new\<close> is \<^verbatim>\<open>Registers::new\<close>, which maps the registers through
  \<^verbatim>\<open>XhciMapper\<close>; \<open>extcaps_new\<close> is \<^verbatim>\<open>List::new\<close>. The structure keeps the base address and the list.\<close>

record 'e xhci_impl =
  xregs :: "u64 option"
  xextcaps :: "'e option"

definition xhci_base :: "('m, 'd) menv \<Rightarrow> 'h pcics_ops \<Rightarrow> 'h \<Rightarrow> u64 option exec" where
  "xhci_base env pops h =
     (if kind_of pops h = UsbController then
        (case base_addresses pops h of
           Some bars \<Rightarrow>
             rbind (slice_get bars 0) (\<lambda>bar0.
             rbind (slice_get bars 1) (\<lambda>bar1.
             rbind (virt_new (mpage env) (ucast bar0 OR push_bit 32 (ucast bar1))) (\<lambda>v.
               Inr (Some (page_of (mpage env) v)))))
         | None \<Rightarrow> Inr None)
      else Inr None)"

definition xhci_new ::
  "('m, 'd) menv \<Rightarrow> 'h pcics_ops \<Rightarrow> (u64 \<Rightarrow> ('s, unit) act) \<Rightarrow> (u64 \<Rightarrow> ('s, 'e option) act) \<Rightarrow> 'h
   \<Rightarrow> ('s, 'e xhci_impl) act" where
  "xhci_new env pops registers_new extcaps_new h =
     sbind (pure_exec (xhci_base env pops h)) (\<lambda>base.
       case base of
         None \<Rightarrow> ret \<lparr>xregs = None, xextcaps = None\<rparr>
       | Some b \<Rightarrow>
           sthen (registers_new b) (sbind (extcaps_new b) (\<lambda>e. ret \<lparr>xregs = Some b, xextcaps = e\<rparr>)))"

text \<open>\<^verbatim>\<open>ScratchpadEntry\<close> and the size of a reference to a request block with its tag.\<close>

definition ScratchpadEntry :: "(string \<times> nat \<times> nat) list" where
  "ScratchpadEntry = [(''addr_low'', 4, 1), (''addr_high'', 4, 1)]"

definition set_addr :: "('m, 'd) menv \<Rightarrow> u64 \<Rightarrow> u64 \<Rightarrow> (('m, 'd) mstate, unit) act" where
  "set_addr env entry addr =
     sthen (set_field env ScratchpadEntry entry ''addr_low'' (ucast (ucast addr :: u32)))
       (set_field env ScratchpadEntry entry ''addr_high'' (ucast (ucast (drop_bit 32 addr) :: u32)))"

definition kind_size :: nat where
  "kind_size = 16"

section \<open>Initialisation\<close>

definition stop_controller :: "('x, 'p) xhci_ops \<Rightarrow> nat \<Rightarrow> (('m, 'd, 'x) xhci_world, unit) act" where
  "stop_controller ops fuel =
     sthen (spin_while fuel (sbind (xread ops Usbsts) (\<lambda>v. ret (controller_not_ready ops v))))
     (sthen (xupdate ops Usbcmd (clear_run_stop ops))
     (sthen (spin_while fuel (sbind (xread ops Usbcmd) (\<lambda>v. ret (run_stop ops v))))
     (xupdate ops Usbcmd (set_host_controller_reset ops))))"

definition power_ports :: "('x, 'p) xhci_ops \<Rightarrow> nat \<Rightarrow> (('m, 'd, 'x) xhci_world, unit) act" where
  "power_ports ops n =
     for_act (\<lambda>i. xport_update ops i (\<lambda>p. clear_hardware_lpm_enable ops (set_port_power ops p))) [0..<n]"

text \<open>One interrupter. The table size and the table's address are whatever a fresh page holds.\<close>

definition setup_interrupter ::
  "('m, 'd) menv \<Rightarrow> ('x, 'p) xhci_ops \<Rightarrow> nat \<Rightarrow> (('m, 'd, 'x) xhci_world, unit) act" where
  "setup_interrupter env ops i =
     sthen (sbind (xread ops (Erstsz i)) (\<lambda>v. sbind (xalloc env 2) (\<lambda>a. sbind (xmem (rd env 2 a)) (\<lambda>n.
              xwrite ops (Erstsz i) (set_erstsz ops (ucast n) v)))))
     (sthen (sbind (xread ops (Erdp i)) (\<lambda>v. sbind (xalloc env kind_size) (\<lambda>a.
              xwrite ops (Erdp i) (set_event_ring_dequeue_pointer ops a v))))
     (sthen (sbind (xread ops (Erstba i)) (\<lambda>v. sbind (xalloc env 8) (\<lambda>a. sbind (xmem (rd env 8 a)) (\<lambda>b.
              xwrite ops (Erstba i) (set_erstba ops b v)))))
     (sthen (xupdate ops (Imod i)
              (\<lambda>v. set_interrupt_moderation_counter ops 0 (set_interrupt_moderation_interval ops 0 v)))
     (xupdate ops (Iman i) (\<lambda>v. set_interrupt_enable ops (set_0_interrupt_pending ops v))))))"

definition copy_device :: "('m, 'd) menv \<Rightarrow> nat \<Rightarrow> u64 \<Rightarrow> u64 \<Rightarrow> (('m, 'd) mstate, unit) act" where
  "copy_device env n src dst =
     sbind (read_bytes env src n) (\<lambda>bs. for_act (\<lambda>i. wr env 1 (dst + of_nat i) (ucast (bs ! i))) [0..<n])"

text \<open>The loop waits on the copy of the register that it has changed.\<close>

definition reset_port :: "('x, 'p) xhci_ops \<Rightarrow> nat \<Rightarrow> nat \<Rightarrow> (('m, 'd, 'x) xhci_world, unit) act" where
  "reset_port ops fuel i =
     sbind (xport_read ops i) (\<lambda>port.
       if port_enabled_disabled ops port
       then (let port = set_port_reset ops port in spin_while fuel (ret (port_reset ops port)))
       else ret ())"

fun probe_loop ::
  "('x, 'p) xhci_ops \<Rightarrow> nat \<Rightarrow> nat list \<Rightarrow> (('m, 'd, 'x) xhci_world, nat option) act" where
  "probe_loop ops fuel [] = ret None"
| "probe_loop ops fuel (i # is) =
     sbind (xport_read ops i) (\<lambda>port.
       if port_power ops port
       then (let port = set_0_port_enabled_disabled ops port in
             sthen (spin_while fuel (ret (port_enabled_disabled ops port)))
               (if current_connect_status ops port then ret (Some i) else probe_loop ops fuel is))
       else probe_loop ops fuel is)"

text \<open>\<^verbatim>\<open>UsbDeviceKind::from\<close>: the number of words of a context decides, all others panic. The result
  of \<^verbatim>\<open>probe\<close> is a new device of that kind.\<close>

datatype UsbDeviceKind = Device8 | Device16

definition usb_device_kind :: "nat \<Rightarrow> UsbDeviceKind exec" where
  "usb_device_kind n =
     (if n = 8 then Inr Device8 else if n = 16 then Inr Device16 else Inl (Panic ExplicitPanic))"

text \<open>\<open>'u\<close> is a device of the \<^verbatim>\<open>xhci\<close> crate. \<open>usb_ops\<close> are its constructors for the two sizes, and what
  its slot and its endpoints hold; the accessors of \<^verbatim>\<open>UsbDeviceKind\<close> call them for either size.
  \<^verbatim>\<open>MassStorageDriver::new\<close> makes a new device three times: for the slot, for the endpoint and for
  itself.\<close>

record ('u, 's, 'n) usb_ops =
  new_32byte :: 'u
  new_64byte :: 'u
  u_slot :: "'u \<Rightarrow> 's"
  u_endpoint :: "'u \<Rightarrow> nat \<Rightarrow> 'n exec"
  usb_device_address :: "'s \<Rightarrow> u8"
  max_packet_size :: "'n \<Rightarrow> u16"

definition usb_device_new :: "('u, 's, 'n) usb_ops \<Rightarrow> nat \<Rightarrow> (UsbDeviceKind \<times> 'u) exec" where
  "usb_device_new ops n =
     rbind (usb_device_kind n) (\<lambda>k.
       Inr (k, case k of Device8 \<Rightarrow> new_32byte ops | Device16 \<Rightarrow> new_64byte ops))"

definition usb_slot :: "('u, 's, 'n) usb_ops \<Rightarrow> UsbDeviceKind \<times> 'u \<Rightarrow> 's" where
  "usb_slot ops dev = (case dev of (Device8, d) \<Rightarrow> u_slot ops d | (Device16, d) \<Rightarrow> u_slot ops d)"

definition usb_endpoint :: "('u, 's, 'n) usb_ops \<Rightarrow> UsbDeviceKind \<times> 'u \<Rightarrow> nat \<Rightarrow> 'n exec" where
  "usb_endpoint ops dev i =
     (case dev of (Device8, d) \<Rightarrow> u_endpoint ops d i | (Device16, d) \<Rightarrow> u_endpoint ops d i)"

record 'u mass_storage =
  ms_device :: "UsbDeviceKind \<times> 'u"
  ms_slot_id :: u8
  ms_max_packet_size :: u16

definition mass_storage_new :: "('u, 's, 'n) usb_ops \<Rightarrow> nat \<Rightarrow> nat \<Rightarrow> 'u mass_storage exec" where
  "mass_storage_new ops n endpoint =
     rbind (usb_device_new ops n) (\<lambda>d.
     let slot_id = usb_device_address ops (usb_slot ops d) in
     rbind (usb_device_new ops n) (\<lambda>d.
     rbind (usb_endpoint ops d endpoint) (\<lambda>e.
     rbind (usb_device_new ops n) (\<lambda>d.
       Inr \<lparr>ms_device = d, ms_slot_id = slot_id, ms_max_packet_size = max_packet_size ops e\<rparr>))))"

definition probe ::
  "('x, 'p) xhci_ops \<Rightarrow> nat \<Rightarrow> nat \<Rightarrow> (('m, 'd, 'x) xhci_world, UsbDeviceKind option) act" where
  "probe ops fuel n =
     sbind (probe_loop ops fuel [0..<x_port_count ops]) (\<lambda>found.
       case found of
         None \<Rightarrow> ret None
       | Some i \<Rightarrow> sbind (pure_exec (usb_device_kind n)) (\<lambda>k. ret (Some k)))"

section \<open>Bringing the controller up\<close>

text \<open>\<^verbatim>\<open>init\<close> up to the command ring; the result is the number of interrupters, the address of the
  device contexts and whether the configuration information capability is present.\<close>

definition setup_rings ::
  "('m, 'd) menv \<Rightarrow> ('x, 'p) xhci_ops \<Rightarrow> (('m, 'd, 'x) xhci_world, nat \<times> u64 \<times> bool) act" where
  "setup_rings env ops =
     sbind (xread ops Hcsparams1) (\<lambda>v. let max_slots = number_of_device_slots ops v in
     sbind (xread ops Hcsparams1) (\<lambda>v. let max_ports = number_of_ports ops v in
     sbind (xread ops Hcsparams1) (\<lambda>v. let max_interrupts = number_of_interrupts ops v in
     sbind (xread ops Hccparams2) (\<lambda>v. let config_info = configuration_information_capability ops v in
     sthen (xupdate ops Config (set_max_device_slots_enabled ops max_slots))
     (sthen (power_ports ops (unat max_ports))
     (sbind (xalloc env kind_size) (\<lambda>cmd_ring.
      sbind (xalloc env (device_size ops)) (\<lambda>dev_context_array.
      sthen (sbind (xread ops Dcbaap) (\<lambda>v.
               if max_slots = 0 then halt (Panic ExpectFailed)
               else xwrite ops Dcbaap (set_dcbaap ops dev_context_array v)))
      (sthen (xupdate ops Crcr (set_command_ring_pointer ops cmd_ring))
        (ret (unat max_interrupts, dev_context_array, config_info)))))))))))"

definition setup_scratchpad ::
  "('m, 'd) menv \<Rightarrow> ('x, 'p) xhci_ops \<Rightarrow> u64 \<Rightarrow> (('m, 'd, 'x) xhci_world, unit) act" where
  "setup_scratchpad env ops dev_context_array =
     sbind (xread ops Hcsparams2) (\<lambda>v.
     sbind (xread ops Hcsparams2) (\<lambda>v'.
     sbind (pure_exec (if max_scratchpad_buffers ops v = 0 then add_ck (max_scratchpad_buffers ops v') 1
                       else Inr (max_scratchpad_buffers ops v'))) (\<lambda>max_scratchpads.
     sbind (xalloc env (struct_size ScratchpadEntry)) (\<lambda>scratchpad_buf.
       if max_scratchpads = 0 then halt (Panic IndexOutOfBounds)
       else xmem (copy_device env (device_size ops) scratchpad_buf dev_context_array)))))"

definition start_controller :: "('x, 'p) xhci_ops \<Rightarrow> nat \<Rightarrow> bool \<Rightarrow> (('m, 'd, 'x) xhci_world, unit) act" where
  "start_controller ops fuel config_info =
     sthen (xupdate ops Usbcmd (set_run_stop ops))
     (sthen (spin_while fuel (sbind (xread ops Usbsts) (\<lambda>v. ret (hc_halted ops v))))
     (sthen (xupdate ops (Doorbell 0) (set_doorbell_target ops 0))
     (if config_info then xupdate ops Config (set_configuration_information_enable ops) else ret ())))"

definition bring_up ::
  "('m, 'd) menv \<Rightarrow> ('x, 'p) xhci_ops \<Rightarrow> nat \<Rightarrow> (('m, 'd, 'x) xhci_world, unit) act" where
  "bring_up env ops fuel =
     sthen (stop_controller ops fuel)
     (sbind (setup_rings env ops) (\<lambda>(max_interrupts, dev_context_array, config_info).
      sthen (for_act (setup_interrupter env ops) [0..<max_interrupts])
      (sthen (xupdate ops Usbcmd (set_interrupter_enable ops))
      (sthen (setup_scratchpad env ops dev_context_array)
      (start_controller ops fuel config_info)))))"

definition xhci_ctrl_init ::
  "('m, 'd) menv \<Rightarrow> ('x, 'p) xhci_ops \<Rightarrow> nat \<Rightarrow> 'e xhci_impl \<Rightarrow> (('m, 'd, 'x) xhci_world, unit) act" where
  "xhci_ctrl_init env ops fuel x =
     (case xregs x of
        None \<Rightarrow> ret ()
      | Some _ \<Rightarrow>
          sthen (bring_up env ops fuel)
          (sthen (for_act (reset_port ops fuel) [0..<x_port_count ops])
          (sthen (probe ops fuel 16) (ret ()))))"

definition get_xhci :: "'e xhci_impl option \<Rightarrow> 'e xhci_impl exec" where
  "get_xhci driver = expect driver"

text \<open>\<^verbatim>\<open>start\<close> of the driver ignores the header.\<close>

definition xhci_start ::
  "('m, 'd) menv \<Rightarrow> ('x, 'p) xhci_ops \<Rightarrow> nat \<Rightarrow> 'e xhci_impl \<Rightarrow> 'h \<Rightarrow> (('m, 'd, 'x) xhci_world, 'h) act" where
  "xhci_start env ops fuel x h = sthen (xhci_ctrl_init env ops fuel x) (ret h)"

text \<open>\<^verbatim>\<open>xhci_init\<close>: the driver is made once, from the first USB controller in the table, and
  registered at every call.\<close>

definition xhci_init ::
  "'h pcics_ops \<Rightarrow> ('h \<Rightarrow> (('m, 'd, 'h, 'z) pci_world_scheme, 'e xhci_impl) act) \<Rightarrow> 'e xhci_impl option
   \<Rightarrow> (('m, 'd, 'h, 'z) pci_world_scheme, 'e xhci_impl) act" where
  "xhci_init pops new_driver driver w =
     sbind (case driver of
              Some x \<Rightarrow> ret x
            | None \<Rightarrow>
                sbind (pure_exec (expect (find (\<lambda>h. kind_of pops h = UsbController) (pci_headers (w_table w)))))
                  new_driver)
       (\<lambda>x. sthen (on_table (register_device_driver XhciDriver)) (ret x)) w"

section \<open>Lemmas\<close>

text \<open>Registers that keep what is written, seen through \<open>rv\<close>; the controller is ready and leaves the
  halted state.\<close>

definition xhci_responds :: "('x, 'p) xhci_ops \<Rightarrow> ('x \<Rightarrow> xreg \<Rightarrow> u64) \<Rightarrow> 'x \<Rightarrow> bool" where
  "xhci_responds ops rv c \<longleftrightarrow>
     (\<forall>r c. x_read ops r c = (rv c r, c))
     \<and> (\<forall>r v c. rv (x_write ops r v c) = (rv c)(r := v))
     \<and> (\<forall>i c. snd (x_port_read ops i c) = c)
     \<and> (\<forall>i p c. rv (x_port_write ops i p c) = rv c)
     \<and> \<not> controller_not_ready ops (rv c Usbsts) \<and> \<not> hc_halted ops (rv c Usbsts)
     \<and> (\<forall>v. \<not> run_stop ops (clear_run_stop ops v))"

lemma xhci_respondsD:
  assumes "xhci_responds ops rv c0"
  shows "x_read ops r c = (rv c r, c)" "rv (x_write ops r v c) = (rv c)(r := v)"
    "snd (x_port_read ops i c) = c" "rv (x_port_write ops i p c) = rv c"
    "\<not> controller_not_ready ops (rv c0 Usbsts)" "\<not> hc_halted ops (rv c0 Usbsts)"
    "\<not> run_stop ops (clear_run_stop ops v)"
  using assms by (auto simp: xhci_responds_def)

text \<open>The pages \<^verbatim>\<open>addralloc\<close> hands out, in order.\<close>

definition nth_page :: "('m, 'd) menv \<Rightarrow> falloc \<Rightarrow> nat \<Rightarrow> u64" where
  "nth_page env fa k = page_of (mpage env) (usable_addrs (fmap fa) ! (fnext fa + k) + moffset env)"

abbreviation xworld :: "('m, 'd) mstate \<Rightarrow> nat \<Rightarrow> 'd \<Rightarrow> 'x \<Rightarrow> ('m, 'd, 'x) xhci_world" where
  "xworld st k d c \<equiv> \<lparr>xm = (advance k st)\<lparr>mdev := d\<rparr>, xc = c\<rparr>"

definition pages_left :: "('m, 'd) menv \<Rightarrow> falloc \<Rightarrow> ('m, 'd) mstate \<Rightarrow> nat \<Rightarrow> bool" where
  "pages_left env fa st n \<longleftrightarrow> direct_map_ok env \<and> frames_reachable env (fmap fa)
     \<and> kmapper (mkm st) \<noteq> None \<and> kfalloc (mkm st) = Some fa
     \<and> fnext fa + n \<le> length (usable_addrs (fmap fa))
     \<and> (\<forall>a. unat (page_of (mpage env) a) \<le> unat a)"

lemma mmap_unchanged:
  assumes "mmap env phys virt st = Inr ((), st)"
  shows "map_page (mpage env) phys virt (default_flags (mflags env)) (mkm st) = Inr (mkm st)"
proof (cases "map_page (mpage env) phys virt (default_flags (mflags env)) (mkm st)")
  case (Inr km)
  then have "st\<lparr>mkm := km\<rparr> = st" using assms by (simp add: mmap_def)
  then have "km = mkm st" by (metis mstate.select_convs(1) mstate.surjective mstate.update_convs(1))
  then show ?thesis using Inr by simp
qed (use assms in \<open>simp add: mmap_def\<close>)

lemma alloc_and_map_run:
  assumes left: "pages_left env fa st n" and "k < n"
  shows "alloc_and_map (mpage env) (mflags env) (moffset env) (mkm (advance k st))
    = Inr (nth_page env fa k, mkm (advance (Suc k) st))"
proof -
  let ?fa = "fa\<lparr>fnext := fnext fa + k\<rparr>"
  define f where "f = usable_addrs (fmap fa) ! (fnext fa + k)"
  have env: "direct_map_ok env" "frames_reachable env (fmap fa)" "kmapper (mkm st) \<noteq> None"
    "kfalloc (mkm st) = Some fa" "\<forall>a. unat (page_of (mpage env) a) \<le> unat a"
    and lt: "fnext fa + k < length (usable_addrs (fmap fa))"
    using left assms(2) by (auto simp: pages_left_def)
  have mem: "f \<in> set (usable_addrs (fmap fa))" using lt by (simp add: f_def)
  then have f: "unat f + unat (moffset env) + 4096 < 2 ^ 47" using env(2) by (auto simp: frames_reachable_def)
  then have v: "add_ck f (moffset env) = Inr (f + moffset env)" "unat (f + moffset env) < 2 ^ 47"
    by (simp_all add: add_ck_def unat_word_ariths)
  have inv: "falloc_inv (pphys (mpage env)) ?fa"
    using env(1,2) by (simp add: falloc_inv_def direct_map_ok_def frames_reachable_def)
  have alloc: "allocate_frame (pphys (mpage env)) ?fa = Inr (Some f, fa\<lparr>fnext := fnext fa + Suc k\<rparr>)"
    using allocate_frame_eq [OF inv] lt by (simp add: f_def)
  have "unat (page_of (mpage env) (f + moffset env)) < 2 ^ 47" using env(5) v(2) le_less_trans by blast
  then have "mmap env f (page_of (mpage env) (f + moffset env)) (advance (Suc k) st)
      = Inr ((), advance (Suc k) st)"
    using f env by (intro mmap_refused) auto
  then have "map_page (mpage env) f (page_of (mpage env) (f + moffset env)) (default_flags (mflags env))
      (mkm (advance (Suc k) st)) = Inr (mkm (advance (Suc k) st))"
    using mmap_unchanged by fastforce
  moreover have "virt_new (mpage env) (f + moffset env) = Inr (f + moffset env)"
    using env(1) v(2) by (simp add: direct_map_ok_def)
  moreover have km: "(mkm (advance k st))\<lparr>kfalloc := Some (fa\<lparr>fnext := Suc (fnext fa + k)\<rparr>)\<rparr> = mkm (advance (Suc k) st)"
    using env(4) by (simp add: advance_def)
  ultimately show ?thesis
    using alloc v(1) env(4) by (simp add: alloc_and_map_def expect_def km nth_page_def f_def [symmetric])
qed

lemma pages_step: "0 < (t :: nat) \<Longrightarrow> (t + 4095) div 4096 = Suc ((t - 4096 + 4095) div 4096)"
proof (cases "t \<le> 4096")
  case False
  then have "t + 4095 = t - 4096 + 4095 + 4096" by simp
  then show ?thesis by simp
qed auto

definition pages_of :: "nat \<Rightarrow> nat" where
  "pages_of t = max 1 ((t + 4095) div 4096)"

lemma addralloc_loop_run:
  assumes left: "pages_left env fa st n" and "tsize + 4096 < 2 ^ 64"
    and "k + (tsize - i + 4095) div 4096 \<le> n"
  shows "addralloc_loop (mpage env) (mflags env) (moffset env) tsize i (mkm (advance k st))
    = Inr (mkm (advance (k + (tsize - i + 4095) div 4096) st))"
  using assms(3)
proof (induction "tsize - i" arbitrary: i k rule: less_induct)
  case less
  show ?case
  proof (cases "i < tsize")
    case True
    have pages: "(tsize - i + 4095) div 4096 = Suc ((tsize - (i + 4096) + 4095) div 4096)"
      using True pages_step [of "tsize - i"] by simp
    have "alloc_and_map (mpage env) (mflags env) (moffset env) (mkm (advance k st))
        = Inr (nth_page env fa k, mkm (advance (Suc k) st))"
      using less.prems pages by (intro alloc_and_map_run [OF left]) simp
    moreover have "addralloc_loop (mpage env) (mflags env) (moffset env) tsize (i + 4096)
          (mkm (advance (Suc k) st))
        = Inr (mkm (advance (Suc k + (tsize - (i + 4096) + 4095) div 4096) st))"
      using True less.prems pages by (intro less.hyps) linarith+
    ultimately show ?thesis
      using True assms(2) pages
      by (simp add: addralloc_loop.simps [of _ _ _ _ i] usize_add_ck_def rbind_def)
  next
    case False
    then show ?thesis by (simp add: addralloc_loop.simps [of _ _ _ _ i])
  qed
qed

lemma addralloc_run:
  assumes left: "pages_left env fa st n" and "tsize + 4096 < 2 ^ 64"
    and "k + pages_of tsize \<le> n"
  shows "addralloc (mpage env) (mflags env) (moffset env) tsize (mkm (advance k st))
    = Inr (nth_page env fa k, mkm (advance (k + pages_of tsize) st))"
proof -
  have pages: "Suc ((tsize - 4096 + 4095) div 4096) = pages_of tsize"
    using pages_step [of tsize] by (cases tsize) (simp_all add: pages_of_def max_def)
  have "addralloc_loop (mpage env) (mflags env) (moffset env) tsize 4096 (mkm (advance (Suc k) st))
      = Inr (mkm (advance (Suc k + (tsize - 4096 + 4095) div 4096) st))"
    using assms(3) pages by (intro addralloc_loop_run [OF left assms(2)]) linarith
  moreover have "alloc_and_map (mpage env) (mflags env) (moffset env) (mkm (advance k st))
      = Inr (nth_page env fa k, mkm (advance (Suc k) st))"
    using assms(3) by (intro alloc_and_map_run [OF left]) (simp add: pages_of_def)
  moreover have "Suc k + (tsize - 4096 + 4095) div 4096 = k + pages_of tsize"
    using pages by linarith
  ultimately show ?thesis by (simp only: addralloc_def rbind_def sum.case prod.case)
qed

text \<open>A client's view of the memory manager: objects are allocated one after the other, each takes
  the next pages. \<open>page k\<close> is the \<open>k\<close>-th page from now on and \<open>after k\<close> the state when \<open>k\<close> of them
  are taken.\<close>

fun alloc_objects ::
  "(nat \<Rightarrow> 's \<Rightarrow> (u64 \<times> 's) exec) \<Rightarrow> nat list \<Rightarrow> 's \<Rightarrow> (u64 list \<times> 's) exec" where
  "alloc_objects alloc [] s = Inr ([], s)"
| "alloc_objects alloc (t # ts) s =
     rbind (alloc t s) (\<lambda>(p, s). rbind (alloc_objects alloc ts s) (\<lambda>(ps, s). Inr (p # ps, s)))"

fun starts :: "nat \<Rightarrow> nat list \<Rightarrow> nat list" where
  "starts k [] = []"
| "starts k (t # ts) = k # starts (k + pages_of t) ts"

definition object_pages :: "(nat \<Rightarrow> u64) \<Rightarrow> nat list \<Rightarrow> nat \<Rightarrow> u64 set" where
  "object_pages page ts i = page ` {starts 0 ts ! i..<starts 0 ts ! i + pages_of (ts ! i)}"

lemma length_starts [simp]: "length (starts k ts) = length ts"
  by (induction ts arbitrary: k) simp_all

lemma starts_bounds:
  "i < length ts \<Longrightarrow> k \<le> starts k ts ! i
    \<and> starts k ts ! i + pages_of (ts ! i) \<le> k + sum_list (map pages_of ts)"
proof (induction ts arbitrary: k i)
  case (Cons t ts)
  show ?case
  proof (cases i)
    case (Suc i')
    then show ?thesis using Cons.IH [of i' "k + pages_of t"] Cons.prems by simp
  qed simp
qed simp

lemma starts_step:
  "i < j \<Longrightarrow> j < length ts \<Longrightarrow> starts k ts ! i + pages_of (ts ! i) \<le> starts k ts ! j"
proof (induction ts arbitrary: k i j)
  case (Cons t ts)
  then obtain j' where j: "j = Suc j'" "j' < length ts" by (cases j) auto
  show ?case
  proof (cases i)
    case 0
    then show ?thesis using j starts_bounds [of j' ts "k + pages_of t"] by simp
  next
    case (Suc i')
    then show ?thesis using Cons.IH [of i' j' "k + pages_of t"] Cons.prems j by simp
  qed
qed simp

locale page_source =
  fixes alloc :: "nat \<Rightarrow> 's \<Rightarrow> (u64 \<times> 's) exec"
    and page :: "nat \<Rightarrow> u64"
    and after :: "nat \<Rightarrow> 's"
    and total :: nat
  assumes alloc_object: "k + pages_of t \<le> total \<Longrightarrow> t + 4096 < 2 ^ 64
      \<Longrightarrow> alloc t (after k) = Inr (page k, after (k + pages_of t))"
    and page_inj: "inj_on page {..<total}"
begin

lemma alloc_objects_run:
  assumes "k + sum_list (map pages_of ts) \<le> total" and "\<forall>t \<in> set ts. t + 4096 < 2 ^ 64"
  shows "alloc_objects alloc ts (after k)
    = Inr (map page (starts k ts), after (k + sum_list (map pages_of ts)))"
  using assms
proof (induction ts arbitrary: k)
  case (Cons t ts)
  then show ?case using alloc_object [of k t] Cons.IH [of "k + pages_of t"]
    by (simp add: rbind_def add.assoc)
qed simp

lemma objects_disjoint:
  assumes "sum_list (map pages_of ts) \<le> total" and "i < j" and "j < length ts"
  shows "object_pages page ts i \<inter> object_pages page ts j = {}"
proof -
  let ?I = "\<lambda>i. {starts 0 ts ! i..<starts 0 ts ! i + pages_of (ts ! i)}"
  have sub: "?I i \<subseteq> {..<total}" "?I j \<subseteq> {..<total}"
    using assms starts_bounds [of i ts 0] starts_bounds [of j ts 0] by auto
  have "?I i \<inter> ?I j = {}" using starts_step [OF assms(2,3), of 0] by auto
  then show ?thesis
    unfolding object_pages_def inj_on_image_Int [OF page_inj sub, symmetric] by (simp only: image_empty)
qed

end

text \<open>The memory manager meets it for as many pages as are left.\<close>

definition page_budget :: "('m, 'd) menv \<Rightarrow> falloc \<Rightarrow> ('m, 'd) mstate \<Rightarrow> nat \<Rightarrow> nat" where
  "page_budget env fa st n =
     (if pages_left env fa st n \<and> (\<forall>a. page_of (mpage env) a = page_down a) then n else 0)"

lemma nth_page_inj:
  assumes left: "pages_left env fa st n" and pd: "\<forall>a. page_of (mpage env) a = page_down a"
  shows "inj_on (nth_page env fa) {..<n}"
proof (rule inj_onI)
  let ?us = "usable_addrs (fmap fa)"
  have map: "memory_map_ok (fmap fa)" and room: "fnext fa + n \<le> length ?us"
    using left by (auto simp: pages_left_def frames_reachable_def)
  have page: "nth_page env fa k = ?us ! (fnext fa + k) + page_down (moffset env)" if "k < n" for k
  proof -
    have "4096 dvd unat (?us ! (fnext fa + k))" using memory_map_addrs(2) [OF map] that room by simp
    then obtain q where "unat (?us ! (fnext fa + k)) = 4096 * q" by (elim dvdE)
    then have "of_nat (unat (?us ! (fnext fa + k))) = (of_nat (4096 * q) :: u64)" by simp
    then have "?us ! (fnext fa + k) = of_nat (4096 * q)" by simp
    then show ?thesis
      using page_down_shift [of "moffset env" q] pd by (simp add: nth_page_def add.commute)
  qed
  fix i j assume "i \<in> {..<n}" "j \<in> {..<n}" "nth_page env fa i = nth_page env fa j"
  then have "?us ! (fnext fa + i) = ?us ! (fnext fa + j)" "i < n" "j < n" using page by auto
  then show "i = j" using nth_eq_iff_index_eq [OF memory_map_addrs(1) [OF map]] room by simp
qed

interpretation pages: page_source "addralloc (mpage env) (mflags env) (moffset env)"
  "nth_page env fa" "\<lambda>k. mkm (advance k st)" "page_budget env fa st n" for env fa st n
proof unfold_locales
  fix k t assume "k + pages_of t \<le> page_budget env fa st n" "t + 4096 < 2 ^ 64"
  then show "addralloc (mpage env) (mflags env) (moffset env) t (mkm (advance k st))
      = Inr (nth_page env fa k, mkm (advance (k + pages_of t) st))"
    using addralloc_run [of env fa st n t k]
    by (auto simp: page_budget_def pages_of_def split: if_splits)
next
  show "inj_on (nth_page env fa) {..<page_budget env fa st n}"
    using nth_page_inj [of env fa st n] by (simp add: page_budget_def)
qed

lemma xalloc_run:
  assumes left: "pages_left env fa st n" and "k < n" and "tsize \<le> 4096"
  shows "xalloc env tsize (xworld st k d c) = Inr (nth_page env fa k, xworld st (Suc k) d c)"
proof -
  have "pages_of tsize = 1" using assms(3) unfolding pages_of_def by linarith
  then have "addralloc (mpage env) (mflags env) (moffset env) tsize (mkm (advance k st))
      = Inr (nth_page env fa k, mkm (advance (Suc k) st))"
    using addralloc_run [OF left, of tsize k] assms(2,3) by simp
  then show ?thesis by (simp add: xalloc_def xmem_def advance_def)
qed

lemma xread_run:
  assumes "xhci_responds ops rv c0"
  shows "xread ops r w = Inr (rv (xc w) r, w)"
    and "xupdate ops r f w = Inr ((), w\<lparr>xc := x_write ops r (f (rv (xc w) r)) (xc w)\<rparr>)"
  by (simp_all add: xread_def xupdate_def xwrite_def act_simps xhci_respondsD(1) [OF assms])

lemma power_ports_run:
  assumes "xhci_responds ops rv c0"
  shows "\<exists>c. power_ports ops n w = Inr ((), w\<lparr>xc := c\<rparr>) \<and> rv c = rv (xc w)"
proof (induction n)
  case (Suc n)
  then obtain c where c: "power_ports ops n w = Inr ((), w\<lparr>xc := c\<rparr>)" "rv c = rv (xc w)" by blast
  obtain p where "x_port_read ops n c = (p, c)"
    using xhci_respondsD(3) [OF assms, of n c] by (cases "x_port_read ops n c") auto
  then show ?case
    using c by (auto simp: power_ports_def for_act_append act_simps xport_update_def xport_read_def
        xhci_respondsD(4) [OF assms])
qed (simp add: power_ports_def act_simps exI [of _ "xc w"])

lemma stop_controller_run:
  assumes "xhci_responds ops rv (xc w)"
  shows "\<exists>c. stop_controller ops (Suc fuel) w = Inr ((), w\<lparr>xc := c\<rparr>)
    \<and> rv c = (rv (xc w))(Usbcmd := set_host_controller_reset ops (clear_run_stop ops (rv (xc w) Usbcmd)))"
  using xhci_respondsD(5,7) [OF assms]
  by (simp add: stop_controller_def act_simps xread_run [OF assms] xhci_respondsD(2) [OF assms])
    (rule exI, rule conjI, rule refl, simp add: xhci_respondsD(2) [OF assms])

lemma setup_interrupter_run:
  assumes x: "xhci_responds ops rv c0" and left: "pages_left env fa st n" and k: "k + 3 \<le> n"
  shows "\<exists>d' c'. setup_interrupter env ops i (xworld st k d c) = Inr ((), xworld st (k + 3) d' c')
    \<and> rv c' (Erdp i) = set_event_ring_dequeue_pointer ops (nth_page env fa (Suc k)) (rv c (Erdp i))
    \<and> (\<forall>r. r \<notin> {Erstsz i, Erdp i, Erstba i, Imod i, Iman i} \<longrightarrow> rv c' r = rv c r)"
proof -
  have lts: "k < n" "Suc k < n" "Suc (Suc k) < n" using k by simp_all
  show ?thesis
    by (simp add: setup_interrupter_def act_simps xread_run [OF x] xwrite_def xhci_respondsD(2) [OF x]
        xalloc_run [OF left lts(1)] xalloc_run [OF left lts(2)] xalloc_run [OF left lts(3)]
        kind_size_def xmem_def rd_def split_beta numeral_3_eq_3) blast
qed

lemma setup_interrupters_run:
  assumes x: "xhci_responds ops rv c0" and left: "pages_left env fa st n" and k: "k + 3 * m \<le> n"
  shows "\<exists>d' c'. for_act (setup_interrupter env ops) [0..<m] (xworld st k d c) = Inr ((), xworld st (k + 3 * m) d' c')
    \<and> (\<forall>i < m. rv c' (Erdp i) = set_event_ring_dequeue_pointer ops (nth_page env fa (k + 3 * i + 1)) (rv c (Erdp i)))
    \<and> (\<forall>r \<in> {Usbcmd, Usbsts, Hcsparams2, Config, Dcbaap, Crcr, Doorbell 0}. rv c' r = rv c r)
    \<and> (\<forall>i \<ge> m. rv c' (Erdp i) = rv c (Erdp i))"
  using k
proof (induction m)
  case (Suc m)
  from Suc obtain d1 c1 where 1:
    "for_act (setup_interrupter env ops) [0..<m] (xworld st k d c) = Inr ((), xworld st (k + 3 * m) d1 c1)"
    "\<forall>i < m. rv c1 (Erdp i) = set_event_ring_dequeue_pointer ops (nth_page env fa (k + 3 * i + 1)) (rv c (Erdp i))"
    "\<forall>r \<in> {Usbcmd, Usbsts, Hcsparams2, Config, Dcbaap, Crcr, Doorbell 0}. rv c1 r = rv c r"
    "\<forall>i \<ge> m. rv c1 (Erdp i) = rv c (Erdp i)"
    by auto
  from setup_interrupter_run [OF x left, of "k + 3 * m" m d1 c1] Suc.prems obtain d2 c2 where 2:
    "setup_interrupter env ops m (xworld st (k + 3 * m) d1 c1) = Inr ((), xworld st (k + 3 * m + 3) d2 c2)"
    "rv c2 (Erdp m) = set_event_ring_dequeue_pointer ops (nth_page env fa (Suc (k + 3 * m))) (rv c1 (Erdp m))"
    "\<forall>r. r \<notin> {Erstsz m, Erdp m, Erstba m, Imod m, Iman m} \<longrightarrow> rv c2 r = rv c1 r"
    by auto
  show ?case
    by (rule exI [of _ d2], rule exI [of _ c2])
      (use 1 2 in \<open>auto simp: for_act_append act_simps less_Suc_eq algebra_simps\<close>)
qed (auto simp: act_simps)

lemma mdev_same: "\<exists>d. s = s\<lparr>mdev := d\<rparr>"
  by (rule exI [of _ "mdev s"]) simp

lemma read_bytes_returns: "\<exists>bs d. read_bytes env a n s = Inr (bs, s\<lparr>mdev := d\<rparr>)"
proof (induction n arbitrary: a s)
  case 0
  show ?case by (simp add: act_simps mdev_same)
next
  case (Suc n)
  obtain v d where "bus_read (mbus env) 1 a (mdev s) = (v, d)" by (cases "bus_read (mbus env) 1 a (mdev s)")
  with Suc [of "a + 1" "s\<lparr>mdev := d\<rparr>"] show ?case by (auto simp: act_simps rd_def)
qed

lemma write_bytes_returns:
  "\<exists>d. for_act (\<lambda>i. wr env 1 (f i) (g i)) is s = Inr ((), s\<lparr>mdev := d\<rparr>)"
proof (induction "is" arbitrary: s)
  case Nil
  show ?case by (simp add: act_simps mdev_same)
next
  case (Cons i "is")
  from Cons [of "s\<lparr>mdev := bus_write (mbus env) 1 (f i) (g i) (mdev s)\<rparr>"] show ?case
    by (auto simp: act_simps wr_def)
qed

lemma copy_device_returns: "\<exists>d. copy_device env n src dst s = Inr ((), s\<lparr>mdev := d\<rparr>)"
proof -
  obtain bs d where "read_bytes env src n s = Inr (bs, s\<lparr>mdev := d\<rparr>)" using read_bytes_returns [of env src n s] by blast
  with write_bytes_returns [of env "\<lambda>i. dst + of_nat i" "\<lambda>i. ucast (bs ! i)" "[0..<n]" "s\<lparr>mdev := d\<rparr>"]
  show ?thesis by (auto simp: copy_device_def act_simps)
qed

lemma setup_rings_run:
  assumes x: "xhci_responds ops rv c0" and left: "pages_left env fa st (k + 2)"
    and size: "device_size ops \<le> 4096" and slots: "number_of_device_slots ops (rv c Hcsparams1) \<noteq> 0"
  shows "\<exists>c'. setup_rings env ops (xworld st 0 d c) = Inr ((unat (number_of_interrupts ops (rv c Hcsparams1)),
        nth_page env fa 1, configuration_information_capability ops (rv c Hccparams2)), xworld st 2 d c')
    \<and> rv c' = (rv c)(Config := set_max_device_slots_enabled ops (number_of_device_slots ops (rv c Hcsparams1)) (rv c Config),
        Dcbaap := set_dcbaap ops (nth_page env fa 1) (rv c Dcbaap),
        Crcr := set_command_ring_pointer ops (nth_page env fa 0) (rv c Crcr))"
proof -
  define c1 where "c1 = x_write ops Config
    (set_max_device_slots_enabled ops (number_of_device_slots ops (rv c Hcsparams1)) (rv c Config)) c"
  obtain c2 where c2: "power_ports ops (unat (number_of_ports ops (rv c Hcsparams1))) (xworld st 0 d c1)
      = Inr ((), xworld st 0 d c2)" "rv c2 = rv c1"
    using power_ports_run [OF x, of "unat (number_of_ports ops (rv c Hcsparams1))" "xworld st 0 d c1"] by auto
  have lts: "0 < k + 2" "Suc 0 < k + 2" by simp_all
  note rv = xhci_respondsD(2) [OF x]
  show ?thesis
    by (simp add: setup_rings_def act_simps Let_def xread_run [OF x] c1_def [symmetric] c2 slots kind_size_def size
        xalloc_run [OF left lts(1)] xalloc_run [OF left lts(2)] xwrite_def numeral_2_eq_2)
      (simp add: rv c2(2) c1_def)
qed

lemma setup_scratchpad_run:
  assumes x: "xhci_responds ops rv c0" and left: "pages_left env fa st n" and k: "k < n"
  shows "\<exists>d'. setup_scratchpad env ops a (xworld st k d c) = Inr ((), xworld st (Suc k) d' c)"
proof -
  have size: "struct_size ScratchpadEntry \<le> 4096" by code_simp
  let ?s = "(advance (Suc k) st)\<lparr>mdev := d\<rparr>"
  obtain d' where "copy_device env (device_size ops) (nth_page env fa k) a ?s = Inr ((), ?s\<lparr>mdev := d'\<rparr>)"
    using copy_device_returns [of env "device_size ops" "nth_page env fa k" a ?s] by blast
  then have "xmem (copy_device env (device_size ops) (nth_page env fa k) a) (xworld st (Suc k) d c)
      = Inr ((), xworld st (Suc k) d' c)"
    by (simp add: xmem_def)
  then show ?thesis
    by (simp add: setup_scratchpad_def act_simps xread_run [OF x] xalloc_run [OF left k size] add_ck_def)
      blast
qed

lemma start_controller_run:
  assumes x: "xhci_responds ops rv c0" and run: "rv (xc w) Usbsts = rv c0 Usbsts"
  shows "\<exists>c. start_controller ops (Suc fuel) info w = Inr ((), w\<lparr>xc := c\<rparr>)
    \<and> rv c = (rv (xc w))(Usbcmd := set_run_stop ops (rv (xc w) Usbcmd),
        Doorbell 0 := set_doorbell_target ops 0 (rv (xc w) (Doorbell 0)),
        Config := (if info then set_configuration_information_enable ops (rv (xc w) Config) else rv (xc w) Config))"
  using xhci_respondsD(6) [OF x]
  by (simp add: start_controller_def act_simps xread_run [OF x] xhci_respondsD(2) [OF x] run)
    (auto simp: xhci_respondsD(2) [OF x] fun_eq_iff)

lemma advance_0: "advance 0 st = st"
  by (cases "kfalloc (mkm st)") (simp_all add: advance_def)

lemma bring_up_run:
  assumes x: "xhci_responds ops rv c" and n: "n = unat (number_of_interrupts ops (rv c Hcsparams1))"
    and left: "pages_left env fa st (3 * n + 3)" and size: "device_size ops \<le> 4096"
    and slots: "number_of_device_slots ops (rv c Hcsparams1) \<noteq> 0"
  shows "\<exists>d c'. bring_up env ops (Suc fuel) \<lparr>xm = st, xc = c\<rparr> = Inr ((), xworld st (3 * n + 3) d c')
    \<and> rv c' Usbcmd = set_run_stop ops (set_interrupter_enable ops
        (set_host_controller_reset ops (clear_run_stop ops (rv c Usbcmd))))
    \<and> rv c' Crcr = set_command_ring_pointer ops (nth_page env fa 0) (rv c Crcr)
    \<and> rv c' Dcbaap = set_dcbaap ops (nth_page env fa 1) (rv c Dcbaap)
    \<and> rv c' Config = (if configuration_information_capability ops (rv c Hccparams2)
        then set_configuration_information_enable ops else id)
          (set_max_device_slots_enabled ops (number_of_device_slots ops (rv c Hcsparams1)) (rv c Config))
    \<and> (\<forall>i < n. rv c' (Erdp i) = set_event_ring_dequeue_pointer ops (nth_page env fa (3 * i + 3)) (rv c (Erdp i)))"
proof -
  let ?st = "\<lparr>xm = st, xc = c\<rparr>" and ?info = "configuration_information_capability ops (rv c Hccparams2)"
  obtain c1 where 1: "stop_controller ops (Suc fuel) ?st = Inr ((), xworld st 0 (mdev st) c1)"
    "rv c1 = (rv c)(Usbcmd := set_host_controller_reset ops (clear_run_stop ops (rv c Usbcmd)))"
    using stop_controller_run [of ops rv ?st fuel] x by (auto simp: advance_0)
  have left2: "pages_left env fa st (Suc (3 * n) + 2)" using left by (simp add: pages_left_def)
  obtain c2 where 2: "setup_rings env ops (xworld st 0 (mdev st) c1) = Inr ((n, nth_page env fa 1, ?info), xworld st 2 (mdev st) c2)"
    "rv c2 = (rv c1)(Config := set_max_device_slots_enabled ops (number_of_device_slots ops (rv c Hcsparams1)) (rv c Config),
        Dcbaap := set_dcbaap ops (nth_page env fa 1) (rv c Dcbaap),
        Crcr := set_command_ring_pointer ops (nth_page env fa 0) (rv c Crcr))"
    using setup_rings_run [OF x left2 size, of c1 "mdev st"] slots by (auto simp: 1(2) n)
  obtain d3 c3 where 3: "for_act (setup_interrupter env ops) [0..<n] (xworld st 2 (mdev st) c2) = Inr ((), xworld st (2 + 3 * n) d3 c3)"
    "\<forall>i < n. rv c3 (Erdp i) = set_event_ring_dequeue_pointer ops (nth_page env fa (2 + 3 * i + 1)) (rv c2 (Erdp i))"
    "\<forall>r \<in> {Usbcmd, Usbsts, Hcsparams2, Config, Dcbaap, Crcr, Doorbell 0}. rv c3 r = rv c2 r"
    using setup_interrupters_run [OF x left, of 2 n "mdev st" c2] by auto
  define c4 where "c4 = x_write ops Usbcmd (set_interrupter_enable ops (rv c3 Usbcmd)) c3"
  have 4: "rv c4 = (rv c3)(Usbcmd := set_interrupter_enable ops (rv c3 Usbcmd))"
    by (simp add: c4_def xhci_respondsD(2) [OF x])
  obtain d5 where 5: "setup_scratchpad env ops (nth_page env fa 1) (xworld st (2 + 3 * n) d3 c4)
      = Inr ((), xworld st (Suc (2 + 3 * n)) d5 c4)"
    using setup_scratchpad_run [OF x left, of "2 + 3 * n" "nth_page env fa 1" d3 c4] by auto
  obtain c6 where 6: "start_controller ops (Suc fuel) ?info (xworld st (Suc (2 + 3 * n)) d5 c4)
      = Inr ((), xworld st (Suc (2 + 3 * n)) d5 c6)"
    "rv c6 = (rv c4)(Usbcmd := set_run_stop ops (rv c4 Usbcmd),
        Doorbell 0 := set_doorbell_target ops 0 (rv c4 (Doorbell 0)),
        Config := (if ?info then set_configuration_information_enable ops (rv c4 Config) else rv c4 Config))"
    using start_controller_run [OF x, of "xworld st (Suc (2 + 3 * n)) d5 c4" fuel ?info] 3(3) 4 1(2) 2(2) by auto
  have "bring_up env ops (Suc fuel) ?st = Inr ((), xworld st (Suc (2 + 3 * n)) d5 c6)"
    by (simp add: bring_up_def act_simps 1(1) 2(1) 3(1) xread_run(2) [OF x] 5 [simplified] 6(1) [simplified]
        flip: c4_def)
  moreover have three: "3 + m = Suc (Suc (Suc m))" for m :: nat by simp
  ultimately show ?thesis
    using 1(2) 2(2) 3(2,3) 4 6(2) by (intro exI [of _ d5] exI [of _ c6]) (simp add: add.commute three)
qed

section \<open>Properties\<close>

text \<open>Bringing up a controller that answers, with frames to give it, returns: the controller has
  been stopped, reset and started with interrupts on, as many device slots are enabled as it has,
  the command ring and the device contexts are pages of their own, and every interrupter has a page
  for its event ring. The addresses are those of the pages, not of the frames behind them.\<close>

theorem xhci_init_programs:
  assumes x: "xhci_responds ops rv c" and n: "n = unat (number_of_interrupts ops (rv c Hcsparams1))"
    and left: "pages_left env fa st (3 * n + 3)" and size: "device_size ops \<le> 4096"
    and slots: "number_of_device_slots ops (rv c Hcsparams1) \<noteq> 0"
  shows "\<exists>d c'. bring_up env ops (Suc fuel) \<lparr>xm = st, xc = c\<rparr> = Inr ((), xworld st (3 * n + 3) d c')
    \<and> rv c' Usbcmd = set_run_stop ops (set_interrupter_enable ops
        (set_host_controller_reset ops (clear_run_stop ops (rv c Usbcmd))))
    \<and> rv c' Crcr = set_command_ring_pointer ops (nth_page env fa 0) (rv c Crcr)
    \<and> rv c' Dcbaap = set_dcbaap ops (nth_page env fa 1) (rv c Dcbaap)
    \<and> rv c' Config = (if configuration_information_capability ops (rv c Hccparams2)
        then set_configuration_information_enable ops else id)
          (set_max_device_slots_enabled ops (number_of_device_slots ops (rv c Hcsparams1)) (rv c Config))
    \<and> (\<forall>i < n. rv c' (Erdp i) = set_event_ring_dequeue_pointer ops (nth_page env fa (3 * i + 3)) (rv c (Erdp i)))"
  by (rule bring_up_run [OF assms])

text \<open>Ports that are off are not reset, and looking for a device only reads them.\<close>

definition ports_quiet :: "('x, 'p) xhci_ops \<Rightarrow> bool" where
  "ports_quiet ops \<longleftrightarrow> (\<forall>i c. snd (x_port_read ops i c) = c
     \<and> \<not> port_enabled_disabled ops (fst (x_port_read ops i c)))
     \<and> (\<forall>p. \<not> port_enabled_disabled ops (set_0_port_enabled_disabled ops p))"

lemma quiet_port_read:
  assumes "ports_quiet ops"
  shows "\<exists>p. xport_read ops i w = Inr (p, w) \<and> \<not> port_enabled_disabled ops p"
proof -
  have "snd (x_port_read ops i (xc w)) = xc w" "\<not> port_enabled_disabled ops (fst (x_port_read ops i (xc w)))"
    using assms by (simp_all add: ports_quiet_def)
  then show ?thesis by (simp add: xport_read_def case_prod_beta)
qed

lemma reset_ports_quiet:
  assumes "ports_quiet ops"
  shows "for_act (reset_port ops fuel) is w = Inr ((), w)"
proof (induction "is")
  case (Cons i "is")
  obtain p where "xport_read ops i w = Inr (p, w)" "\<not> port_enabled_disabled ops p"
    using quiet_port_read [OF assms] by blast
  then show ?case using Cons by (simp add: reset_port_def act_simps)
qed (simp add: act_simps)

lemma probe_loop_quiet:
  assumes "ports_quiet ops"
  shows "\<exists>r. probe_loop ops (Suc fuel) is w = Inr (r, w)"
proof (induction "is")
  case (Cons i "is")
  obtain p where "xport_read ops i w = Inr (p, w)" using quiet_port_read [OF assms] by blast
  then show ?case using Cons assms by (simp add: act_simps Let_def ports_quiet_def)
qed (simp add: act_simps)

lemma probe_quiet:
  assumes "ports_quiet ops"
  shows "\<exists>r. probe ops (Suc fuel) 16 w = Inr (r, w)"
proof -
  obtain r where "probe_loop ops (Suc fuel) [0..<x_port_count ops] w = Inr (r, w)"
    using probe_loop_quiet [OF assms] by blast
  then show ?thesis by (cases r) (simp_all add: probe_def act_simps usb_device_kind_def)
qed

lemma xhci_start_run:
  assumes "xhci_responds ops rv c" and "n = unat (number_of_interrupts ops (rv c Hcsparams1))"
    and "pages_left env fa st (3 * n + 3)" and "device_size ops \<le> 4096"
    and "number_of_device_slots ops (rv c Hcsparams1) \<noteq> 0"
    and "ports_quiet ops" and "xregs x \<noteq> None"
  shows "\<exists>d c'. xhci_start env ops (Suc fuel) x h \<lparr>xm = st, xc = c\<rparr> = Inr (h, xworld st (3 * n + 3) d c')
    \<and> rv c' Usbcmd = set_run_stop ops (set_interrupter_enable ops
        (set_host_controller_reset ops (clear_run_stop ops (rv c Usbcmd))))
    \<and> rv c' Crcr = set_command_ring_pointer ops (nth_page env fa 0) (rv c Crcr)
    \<and> rv c' Dcbaap = set_dcbaap ops (nth_page env fa 1) (rv c Dcbaap)
    \<and> rv c' Config = (if configuration_information_capability ops (rv c Hccparams2)
        then set_configuration_information_enable ops else id)
          (set_max_device_slots_enabled ops (number_of_device_slots ops (rv c Hcsparams1)) (rv c Config))
    \<and> (\<forall>i < n. rv c' (Erdp i) = set_event_ring_dequeue_pointer ops (nth_page env fa (3 * i + 3)) (rv c (Erdp i)))"
proof -
  have start: "xhci_start env ops (Suc fuel) x h \<lparr>xm = st, xc = c\<rparr> = Inr (h, w)"
    if "bring_up env ops (Suc fuel) \<lparr>xm = st, xc = c\<rparr> = Inr ((), w)" for w
    using that assms(7) probe_quiet [OF assms(6), of fuel w]
    by (auto simp: xhci_start_def xhci_ctrl_init_def act_simps reset_ports_quiet [OF assms(6)])
  show ?thesis
    by (rule ex_forward [OF bring_up_run [OF assms(1-5), of fuel]], erule ex_forward)
      (erule conjE, rule conjI, erule start, assumption)
qed

text \<open>The whole start of the driver returns for a controller that answers and whose ports are off, with
  frames to give it: the controller has been stopped, reset and started with interrupts on, as many
  device slots are enabled as it has, the command ring and the device contexts are pages of their own,
  and every interrupter has a page for its event ring.\<close>

theorem xhci_start_programs:
  assumes "xhci_responds ops rv c" and "n = unat (number_of_interrupts ops (rv c Hcsparams1))"
    and "pages_left env fa st (3 * n + 3)" and "device_size ops \<le> 4096"
    and "number_of_device_slots ops (rv c Hcsparams1) \<noteq> 0"
    and "ports_quiet ops" and "xregs x \<noteq> None"
  shows "\<exists>d c'. xhci_start env ops (Suc fuel) x h \<lparr>xm = st, xc = c\<rparr> = Inr (h, xworld st (3 * n + 3) d c')
    \<and> rv c' Usbcmd = set_run_stop ops (set_interrupter_enable ops
        (set_host_controller_reset ops (clear_run_stop ops (rv c Usbcmd))))
    \<and> rv c' Crcr = set_command_ring_pointer ops (nth_page env fa 0) (rv c Crcr)
    \<and> rv c' Dcbaap = set_dcbaap ops (nth_page env fa 1) (rv c Dcbaap)
    \<and> rv c' Config = (if configuration_information_capability ops (rv c Hccparams2)
        then set_configuration_information_enable ops else id)
          (set_max_device_slots_enabled ops (number_of_device_slots ops (rv c Hcsparams1)) (rv c Config))
    \<and> (\<forall>i < n. rv c' (Erdp i) = set_event_ring_dequeue_pointer ops (nth_page env fa (3 * i + 3)) (rv c (Erdp i)))"
  by (rule xhci_start_run [OF assms])

lemma reset_port_result:
  "reset_port ops fuel i w = Inl Diverge \<or> (\<exists>c. reset_port ops fuel i w = Inr ((), w\<lparr>xc := c\<rparr>))"
proof -
  have "spin_while fuel (ret b) w' = Inl Diverge \<or> spin_while fuel (ret b) w' = Inr ((), w')"
    for b and w' :: "('a, 'b, 'c) xhci_world"
    by (induction fuel) (auto simp: act_simps)
  then show ?thesis by (auto simp: reset_port_def act_simps xport_read_def Let_def split: prod.splits)
qed

lemma spin_forever: "spin_while fuel (ret True) w = Inl Diverge"
  by (induction fuel) (simp_all add: act_simps)

lemma reset_ports_diverge:
  assumes "\<forall>p. port_reset ops (set_port_reset ops p)" and "i \<in> set is"
    and "\<forall>c. port_enabled_disabled ops (fst (x_port_read ops i c))"
  shows "for_act (reset_port ops fuel) is w = Inl Diverge"
  using assms(2)
proof (induction "is" arbitrary: w)
  case (Cons j "is")
  show ?case
  proof (cases "j = i")
    case True
    have "port_enabled_disabled ops p" if "x_port_read ops i c = (p, c')" for p c c'
      using assms(3) that by (metis fst_conv)
    then have "reset_port ops fuel j w = Inl Diverge"
      using assms(1) True
      by (auto simp: reset_port_def act_simps xport_read_def Let_def spin_forever split: prod.splits)
    then show ?thesis by (simp add: act_simps)
  next
    case False
    then have "i \<in> set is" using Cons.prems by simp
    from Cons.IH [OF this] show ?thesis
      using reset_port_result [of ops fuel j w] by (auto simp: act_simps)
  qed
qed simp

text \<open>When a port is enabled, starting the driver never returns: the loop that waits for the end of
  the reset tests the copy of the register in which the reset bit was just set. However often it
  looks, the result is divergence.\<close>

theorem xhci_port_reset_never_returns:
  assumes "\<forall>p. port_reset ops (set_port_reset ops p)" and "xregs x = Some base"
    and "bring_up env ops fuel w = Inr ((), w')"
    and "i < x_port_count ops" and "\<forall>c. port_enabled_disabled ops (fst (x_port_read ops i c))"
  shows "xhci_ctrl_init env ops fuel x w = Inl Diverge"
proof -
  have "for_act (reset_port ops fuel) [0..<x_port_count ops] w' = Inl Diverge"
    using assms(4) by (intro reset_ports_diverge [OF assms(1) _ assms(5)]) simp
  then show ?thesis using assms(2,3) by (simp add: xhci_ctrl_init_def act_simps)
qed

section \<open>An example\<close>

text \<open>A controller with one interrupter and eight slots, whose fields are those of the xHCI
  specification where the driver's behaviour depends on them, and one enabled port.\<close>

definition example_xhci :: "(xreg \<Rightarrow> u64, u32) xhci_ops" where
  "example_xhci = \<lparr>x_read = (\<lambda>r c. (c r, c)), x_write = (\<lambda>r v c. c(r := v)),
     x_port_read = (\<lambda>i c. (2, c)), x_port_write = (\<lambda>i p c. c), x_port_count = 1, device_size = 2048,
     controller_not_ready = (\<lambda>v. bit v 11), hc_halted = (\<lambda>v. bit v 0), run_stop = (\<lambda>v. bit v 0),
     set_run_stop = set_bit 0, clear_run_stop = unset_bit 0, set_host_controller_reset = set_bit 1,
     set_interrupter_enable = set_bit 2, number_of_device_slots = ucast,
     number_of_ports = (\<lambda>v. ucast (drop_bit 24 v)), number_of_interrupts = (\<lambda>v. ucast (take_bit 11 (drop_bit 8 v))),
     configuration_information_capability = (\<lambda>v. bit v 5), set_configuration_information_enable = set_bit 9,
     set_max_device_slots_enabled = (\<lambda>n v. ucast n), set_dcbaap = (\<lambda>a v. a),
     set_command_ring_pointer = (\<lambda>a v. a), set_erstsz = (\<lambda>n v. ucast n),
     set_event_ring_dequeue_pointer = (\<lambda>a v. a), set_erstba = (\<lambda>a v. a),
     set_interrupt_moderation_interval = (\<lambda>n v. v), set_interrupt_moderation_counter = (\<lambda>n v. v),
     set_0_interrupt_pending = id, set_interrupt_enable = id, max_scratchpad_buffers = (\<lambda>v. 0),
     set_doorbell_target = (\<lambda>n v. ucast n), set_port_power = set_bit 9, clear_hardware_lpm_enable = id,
     port_enabled_disabled = (\<lambda>p. bit p 1), set_0_port_enabled_disabled = set_bit 1,
     set_port_reset = set_bit 4, port_reset = (\<lambda>p. bit p 4), port_power = (\<lambda>p. bit p 9),
     current_connect_status = (\<lambda>p. bit p 0)\<rparr>"

definition example_regs :: "xreg \<Rightarrow> u64" where
  "example_regs = (\<lambda>_. 0)(Hcsparams1 := 0x108)"

lemma example_xhci_responds: "xhci_responds example_xhci (\<lambda>c. c) example_regs"
  by (simp add: xhci_responds_def example_xhci_def example_regs_def bit_unset_bit_iff)

definition example_frames :: "mem_region list" where
  "example_frames = [\<lparr>region_start = 0x1000, region_end = 0x9000, region_usable = True\<rparr>]"

lemma example_frames_addrs:
  "usable_addrs example_frames = [0x1000, 0x2000, 0x3000, 0x4000, 0x5000, 0x6000, 0x7000, 0x8000]"
  by (simp add: usable_addrs_def example_frames_def step_addrs_def step_count_def upt_rec)

definition example_xstate :: "(unit, u64 \<Rightarrow> u8) mstate" where
  "example_xstate = \<lparr>mkm = \<lparr>kmapper = Some (), kfalloc = Some (falloc_new example_frames)\<rparr>, mdev = (\<lambda>_. 0)\<rparr>"

lemma example_pages: "pages_left ahci_env (falloc_new example_frames) example_xstate 6"
proof -
  have "memory_map_ok example_frames"
    unfolding memory_map_ok_def example_frames_addrs
    by (simp add: example_frames_def region_ok_def regions_disjoint_def)
  moreover have "unat (page_of (mpage ahci_env) a) \<le> unat a" for a
    by (simp add: ahci_env_def unat_page_down)
  moreover have "fmap (falloc_new example_frames) = example_frames" "fnext (falloc_new example_frames) = 0"
    "moffset ahci_env = 0"
    by (simp_all add: falloc_new_def ahci_env_def)
  ultimately show ?thesis
    by (simp add: pages_left_def ahci_env_direct frames_reachable_def example_frames_addrs example_xstate_def)
qed

lemma example_values:
  "device_size example_xhci \<le> 4096" "number_of_device_slots example_xhci (example_regs Hcsparams1) \<noteq> 0"
  "1 = unat (number_of_interrupts example_xhci (example_regs Hcsparams1))"
  "set_run_stop example_xhci (set_interrupter_enable example_xhci
     (set_host_controller_reset example_xhci (clear_run_stop example_xhci (example_regs Usbcmd)))) = 7"
  "set_command_ring_pointer example_xhci a v = a" "set_dcbaap example_xhci a v = a"
  "set_event_ring_dequeue_pointer example_xhci a v = a"
  "set_max_device_slots_enabled example_xhci (number_of_device_slots example_xhci (example_regs Hcsparams1)) v = 8"
  "\<not> configuration_information_capability example_xhci (example_regs Hccparams2)"
  by (simp_all add: example_xhci_def example_regs_def)

lemma example_nth_pages:
  "nth_page ahci_env (falloc_new example_frames) 0 = 0x1000"
  "nth_page ahci_env (falloc_new example_frames) 1 = 0x2000"
  "nth_page ahci_env (falloc_new example_frames) 3 = 0x4000"
  by (simp_all add: nth_page_def example_frames_addrs falloc_new_def ahci_env_def page_down_def)

theorem xhci_init_programs_witness:
  "\<exists>d c'. bring_up ahci_env example_xhci (Suc 0) \<lparr>xm = example_xstate, xc = example_regs\<rparr>
       = Inr ((), xworld example_xstate (3 * 1 + 3) d c')
     \<and> c' Usbcmd = 7 \<and> c' Crcr = 0x1000 \<and> c' Dcbaap = 0x2000 \<and> c' Config = 8 \<and> c' (Erdp 0) = 0x4000"
proof -
  have "pages_left ahci_env (falloc_new example_frames) example_xstate (3 * 1 + 3)"
    using example_pages by simp
  note run = xhci_init_programs [OF example_xhci_responds example_values(3) this example_values(1,2), of 0]
  show ?thesis
    by (rule ex_forward [OF run], erule ex_forward)
      (simp add: example_values example_nth_pages [simplified])
qed

theorem xhci_port_reset_never_returns_witness:
  "xhci_ctrl_init ahci_env example_xhci (Suc 0) \<lparr>xregs = Some 0xFEB00000, xextcaps = None :: unit option\<rparr>
       \<lparr>xm = example_xstate, xc = example_regs\<rparr> = Inl Diverge"
proof -
  have "pages_left ahci_env (falloc_new example_frames) example_xstate (3 * 1 + 3)"
    using example_pages by simp
  from bring_up_run [OF example_xhci_responds example_values(3) this example_values(1,2), of 0]
  obtain w' where "bring_up ahci_env example_xhci (Suc 0) \<lparr>xm = example_xstate, xc = example_regs\<rparr> = Inr ((), w')"
    by blast
  moreover have "port_reset example_xhci (set_port_reset example_xhci p)"
    "port_enabled_disabled example_xhci (fst (x_port_read example_xhci i c))" for p i c
    by (simp_all add: example_xhci_def bit_set_bit_iff)
  moreover have "0 < x_port_count example_xhci" by (simp add: example_xhci_def)
  ultimately show ?thesis
    by (intro xhci_port_reset_never_returns [where i = 0]) simp_all
qed

text \<open>The same controller with its ports off.\<close>

definition quiet_xhci :: "(xreg \<Rightarrow> u64, u32) xhci_ops" where
  "quiet_xhci = example_xhci\<lparr>port_enabled_disabled := \<lambda>_. False\<rparr>"

lemma quiet_xhci_responds: "xhci_responds quiet_xhci (\<lambda>c. c) example_regs"
  using example_xhci_responds by (simp add: quiet_xhci_def xhci_responds_def)

lemma quiet_xhci_ports: "ports_quiet quiet_xhci"
  by (simp add: quiet_xhci_def ports_quiet_def example_xhci_def)

lemma quiet_xhci_values:
  "1 = unat (number_of_interrupts quiet_xhci (example_regs Hcsparams1))" "device_size quiet_xhci \<le> 4096"
  "number_of_device_slots quiet_xhci (example_regs Hcsparams1) \<noteq> 0"
  using example_values(1-3) by (simp_all add: quiet_xhci_def)

theorem xhci_start_programs_witness:
  "\<exists>d c'. xhci_start ahci_env quiet_xhci (Suc 0) \<lparr>xregs = Some 0xFEB00000, xextcaps = None :: unit option\<rparr> ()
       \<lparr>xm = example_xstate, xc = example_regs\<rparr> = Inr ((), xworld example_xstate (3 * 1 + 3) d c')
     \<and> c' Usbcmd = 7 \<and> c' Crcr = 0x1000 \<and> c' Dcbaap = 0x2000 \<and> c' Config = 8 \<and> c' (Erdp 0) = 0x4000"
proof -
  have "pages_left ahci_env (falloc_new example_frames) example_xstate (3 * 1 + 3)"
    using example_pages by simp
  note run = xhci_start_programs [OF quiet_xhci_responds quiet_xhci_values(1) this quiet_xhci_values(2,3) quiet_xhci_ports,
      of "\<lparr>xregs = Some 0xFEB00000, xextcaps = None :: unit option\<rparr>" 0 "()"]
  show ?thesis
    by (rule ex_forward [OF run], simp, erule ex_forward)
      (simp add: quiet_xhci_def example_values example_nth_pages [simplified])
qed

end
