(* ===== verification/Devices.thy ===== *)
theory Devices
  imports Xhci
begin

text \<open>
  The devices of the kernel together. \<open>Pci\<close> takes the set-up of the USB driver and the \<^verbatim>\<open>start\<close> method of a
  driver as arguments, because the source calls them through \<^verbatim>\<open>Arc<dyn FOSSPciDeviceHandle>\<close>; here they
  are the drivers of \<open>Ahci\<close> and \<open>Xhci\<close>. \<open>kworld\<close> extends the world of the PCI subsystem by the registers
  of the USB controller and the statics \<^verbatim>\<open>DRIVER\<close> of both drivers; that of AHCI is made by \<^verbatim>\<open>ahci_init\<close> before
  it is used, always with the same value.

  \<open>hdr_ops\<close> is the part of the parsed header that the AHCI driver looks at and changes;
  \<open>registers_new\<close> and \<open>extcaps_new\<close> are the constructors of the \<^verbatim>\<open>xhci\<close> crate.

  A USB controller with message interrupts that is found on the bus is brought up; one without is never
  started.
\<close>

section \<open>Definitions\<close>

record ('m, 'd, 'h, 'x, 'e) kworld = "('m, 'd, 'h) pci_world" +
  k_xregs :: 'x
  k_xhci :: "'e xhci_impl option"
  k_ahci :: ahci_ctrl

record 'h hdr_ops =
  hdr_view :: "'h \<Rightarrow> pci_header"
  hdr_put :: "pci_header \<Rightarrow> 'h \<Rightarrow> 'h"

definition xhci_setup ::
  "('m, 'd) menv \<Rightarrow> 'h pcics_ops \<Rightarrow> (u64 \<Rightarrow> (('m, 'd, 'h, 'x, 'e) kworld, unit) act)
   \<Rightarrow> (u64 \<Rightarrow> (('m, 'd, 'h, 'x, 'e) kworld, 'e option) act) \<Rightarrow> (('m, 'd, 'h, 'x, 'e) kworld, unit) act" where
  "xhci_setup env pops registers_new extcaps_new w =
     rbind (xhci_init pops (xhci_new env pops registers_new extcaps_new) (k_xhci w) w) (\<lambda>(x, w).
       Inr ((), w\<lparr>k_xhci := Some x\<rparr>))"

fun driver_start ::
  "('m, 'd) menv \<Rightarrow> 'h hdr_ops \<Rightarrow> ('x, 'p) xhci_ops \<Rightarrow> nat \<Rightarrow> nat \<Rightarrow> pci_driver \<Rightarrow> 'h
   \<Rightarrow> (('m, 'd, 'h, 'x, 'e) kworld, 'h) act" where
  "driver_start env hops xops fuel n AhciDriver h w =
     rbind (ahci_start env fuel n (driver_count (w_table w)) (hdr_view hops h) (k_ahci w) (w_machine w))
       (\<lambda>((ph, c), st). Inr (hdr_put hops ph h, w\<lparr>w_machine := st, k_ahci := c\<rparr>))"
| "driver_start env hops xops fuel n XhciDriver h w =
     rbind (get_xhci (k_xhci w)) (\<lambda>x.
     rbind (xhci_start env xops fuel x h \<lparr>xm = w_machine w, xc = k_xregs w\<rparr>) (\<lambda>(h, xw).
       Inr (h, w\<lparr>w_machine := xm xw, k_xregs := xc xw\<rparr>)))"

text \<open>The loop body of \<^verbatim>\<open>pci_impl::init\<close> with the drivers in place.\<close>

definition device_init ::
  "('m, 'd) menv \<Rightarrow> 'h pcics_ops \<Rightarrow> apic_env \<Rightarrow> ('h \<Rightarrow> (('m, 'd, 'h, 'x, 'e) kworld, unit) act)
   \<Rightarrow> (u64 \<Rightarrow> (('m, 'd, 'h, 'x, 'e) kworld, unit) act) \<Rightarrow> (u64 \<Rightarrow> (('m, 'd, 'h, 'x, 'e) kworld, 'e option) act)
   \<Rightarrow> 'h hdr_ops \<Rightarrow> ('x, 'p) xhci_ops \<Rightarrow> nat \<Rightarrow> nat \<Rightarrow> u64 \<Rightarrow> (('m, 'd, 'h, 'x, 'e) kworld, unit) act" where
  "device_init env pops ap aml registers_new extcaps_new hops xops fuel n =
     init_device env pops ap aml (xhci_setup env pops registers_new extcaps_new)
       (driver_start env hops xops fuel n)"

section \<open>Lemmas\<close>

lemma start_drivers_skip:
  "(\<And>d. d \<in> set ds \<Longrightarrow> \<not> handles_device d v k)
    \<Longrightarrow> start_drivers start v k (ds @ es) h = start_drivers start v k es h"
  by (induction ds) auto

lemma find_appended: "(\<And>x. x \<in> set xs \<Longrightarrow> \<not> P x) \<Longrightarrow> P y \<Longrightarrow> find P (xs @ [y]) = Some y"
  by (induction xs) auto

lemma only_xhci_handles: "d \<noteq> XhciDriver \<Longrightarrow> \<not> handles_device d v UsbController"
  by (cases d) simp_all

lemma start_usb:
  assumes "XhciDriver \<notin> set ds"
  shows "start_drivers start v UsbController (ds @ [XhciDriver]) h = sbind (start XhciDriver h) (\<lambda>h. ret ())"
proof -
  have "\<not> handles_device d v UsbController" if "d \<in> set ds" for d
    using assms that only_xhci_handles by metis
  then show ?thesis by (simp add: start_drivers_skip fun_eq_iff sbind_def)
qed

text \<open>What the crate's constructor of the registers may do: map pages.\<close>

definition only_maps :: "(u64 \<Rightarrow> (('m, 'd, 'h, 'x, 'e) kworld, unit) act) \<Rightarrow> bool" where
  "only_maps registers_new \<longleftrightarrow> (\<forall>b w. \<exists>mp. registers_new b w
     = Inr ((), w\<lparr>w_machine := (w_machine w)\<lparr>mkm := (mkm (w_machine w))\<lparr>kmapper := Some mp\<rparr>\<rparr>\<rparr>))"

lemma xhci_setup_run:
  assumes "only_maps registers_new" and "\<And>b w. extcaps_new b w = Inr (ext, w)"
    and "k_xhci w = None" and "pci_headers (w_table w) = hs @ [h]" and "kind_of pops h = UsbController"
    and "\<And>g. g \<in> set hs \<Longrightarrow> kind_of pops g \<noteq> UsbController"
    and "xhci_base env pops h = Inr (Some b)"
  shows "\<exists>mp. xhci_setup env pops registers_new extcaps_new w
    = Inr ((), w\<lparr>w_machine := (w_machine w)\<lparr>mkm := (mkm (w_machine w))\<lparr>kmapper := Some mp\<rparr>\<rparr>,
        w_table := register_device_driver XhciDriver (w_table w),
        k_xhci := Some \<lparr>xregs = Some b, xextcaps = ext\<rparr>\<rparr>)"
proof -
  have f: "find (\<lambda>h. kind_of pops h = UsbController) (pci_headers (w_table w)) = Some h"
    using assms(4-6) by (simp add: find_appended)
  obtain mp where "registers_new b w
      = Inr ((), w\<lparr>w_machine := (w_machine w)\<lparr>mkm := (mkm (w_machine w))\<lparr>kmapper := Some mp\<rparr>\<rparr>\<rparr>)"
    using assms(1) by (auto simp: only_maps_def)
  then show ?thesis
    using assms(2,3,7) f
    by (intro exI [of _ mp]) (simp add: xhci_setup_def xhci_init_def xhci_new_def act_simps on_table_def)
qed

lemma pages_left_machine:
  "pages_left env fa st n \<Longrightarrow> pages_left env fa (st\<lparr>mdev := d, mkm := (mkm st)\<lparr>kmapper := Some mp\<rparr>\<rparr>) n"
  by (simp add: pages_left_def)

text \<open>A function of the bus that is a USB controller with \<open>n\<close> messages: its kind, its capability, and base
  addresses that are addresses.\<close>

definition usb_function :: "('m, 'd) menv \<Rightarrow> 'h pcics_ops \<Rightarrow> 'h \<Rightarrow> u64 \<Rightarrow> nat \<Rightarrow> bool" where
  "usb_function env pops h dev n \<longleftrightarrow> kind_of pops h = UsbController
     \<and> kind_of pops (set_interrupt_disable pops h) = UsbController \<and> capabilities_pointer pops h \<noteq> 0
     \<and> (\<exists>bir off bar a table. (\<forall>raw. msix_capability pops raw h = Some (n, bir, off))
          \<and> msix_bar pops h bir = Inr bar \<and> add_ck (page_down dev + moffset env) bar = Inr a
          \<and> add_ck a (ucast off) = Inr table)
     \<and> (\<exists>b. xhci_base env pops h = Inr (Some b))"

lemma setup_usb:
  assumes "usb_function env pops h dev n" and "bit_ops_ok (mbits env)" "unat (lapic_id ap) < 256"
    and "n \<le> card (free_vectors (w_idt w))"
    and "only_maps registers_new" and "\<And>b w. extcaps_new b w = Inr (ext, w)"
    and "k_xhci w = None" and "pci_headers (w_table w) = hs @ [h]"
    and "\<And>g. g \<in> set hs \<Longrightarrow> kind_of pops g \<noteq> UsbController"
  shows "\<exists>cap d i mp b. (\<forall>raw. msix_capability pops raw h = Some cap)
    \<and> setup_msix env pops ap (xhci_setup env pops registers_new extcaps_new) (page_down dev + moffset env) h cap w
      = Inr (set_interrupt_disable pops h,
          w\<lparr>w_machine := (w_machine w)\<lparr>mdev := d, mkm := (mkm (w_machine w))\<lparr>kmapper := Some mp\<rparr>\<rparr>, w_idt := i,
            w_table := register_device_driver XhciDriver (w_table w),
            k_xhci := Some \<lparr>xregs = Some b, xextcaps = ext\<rparr>\<rparr>)"
proof -
  obtain bir off bar a table b where cap: "\<forall>raw. msix_capability pops raw h = Some (n, bir, off)"
    and addr: "msix_bar pops h bir = Inr bar" "add_ck (page_down dev + moffset env) bar = Inr a"
      "add_ck a (ucast off) = Inr table"
    and usb: "kind_of pops h = UsbController" and b: "xhci_base env pops h = Inr (Some b)"
    using assms(1) by (auto simp: usb_function_def)
  obtain d i where r: "for_act (route_entry env ap table) [0..<n] w
      = Inr ((), w\<lparr>w_machine := (w_machine w)\<lparr>mdev := d\<rparr>, w_idt := i\<rparr>)"
    using route_entries [OF assms(2,3), of "[0..<n]" w table] assms(4) by auto
  let ?w = "w\<lparr>w_machine := (w_machine w)\<lparr>mdev := d\<rparr>, w_idt := i\<rparr>"
  obtain mp where x: "xhci_setup env pops registers_new extcaps_new ?w
    = Inr ((), ?w\<lparr>w_machine := (w_machine ?w)\<lparr>mkm := (mkm (w_machine ?w))\<lparr>kmapper := Some mp\<rparr>\<rparr>,
        w_table := register_device_driver XhciDriver (w_table ?w),
        k_xhci := Some \<lparr>xregs = Some b, xextcaps = ext\<rparr>\<rparr>)"
    using xhci_setup_run [where extcaps_new = extcaps_new and w = ?w, OF assms(5,6)] assms(7-9) usb b
    by simp blast
  have "setup_msix env pops ap (xhci_setup env pops registers_new extcaps_new) (page_down dev + moffset env) h
      (n, bir, off) w = Inr (set_interrupt_disable pops h,
          w\<lparr>w_machine := (w_machine w)\<lparr>mdev := d, mkm := (mkm (w_machine w))\<lparr>kmapper := Some mp\<rparr>\<rparr>, w_idt := i,
            w_table := register_device_driver XhciDriver (w_table w),
            k_xhci := Some \<lparr>xregs = Some b, xextcaps = ext\<rparr>\<rparr>)"
    using x by (simp add: setup_msix_def act_simps addr r usb)
  then show ?thesis using cap by blast
qed

section \<open>Properties\<close>


text \<open>A USB controller without message interrupts is never started: its driver is only set up together with
  its messages, so the controller stays as it was and no driver is registered.\<close>

theorem usb_without_messages_ignored:
  assumes "config_space_ok env pops (w_machine w) hdr {dev}" and "kind_of pops (hdr dev) = UsbController"
    and "\<forall>raw. msix_capability pops raw (hdr dev) = None"
    and "\<forall>w. \<exists>i. aml (hdr dev) w = Inr ((), w\<lparr>w_idt := i\<rparr>)" and "XhciDriver \<notin> set (pci_devices (w_table w))"
  shows "\<exists>w'. device_init env pops ap aml registers_new extcaps_new hops xops fuel k dev w = Inr ((), w')
    \<and> k_xregs w' = k_xregs w \<and> k_xhci w' = k_xhci w
    \<and> pci_devices (w_table w') = pci_devices (w_table w)"
proof -
  let ?h = "hdr dev"
  obtain raw where hd: "read_header env pops dev (w_machine w)
      = Inr ((page_down dev + moffset env, raw, ?h), w_machine w)"
    using read_header_run [OF assms(1), of dev] by blast
  let ?w1 = "w\<lparr>w_table := register_headers raw ?h (w_table w)\<rparr>"
  obtain i where am: "aml ?h ?w1 = Inr ((), ?w1\<lparr>w_idt := i\<rparr>)" using assms(4) by blast
  have "\<not> handles_device d v UsbController" if "d \<in> set (pci_devices (w_table w))" for d v
    using assms(5) that only_xhci_handles by metis
  then have s: "start_drivers start v UsbController (pci_devices (w_table w)) h = ret ()"
    for start :: "pci_driver \<Rightarrow> 'c \<Rightarrow> (('a, 'b, 'c, 'd, 'e) kworld, 'c) act" and v h
    using start_drivers_skip [of "pci_devices (w_table w)" v UsbController start "[]" h] by simp
  have "device_init env pops ap aml registers_new extcaps_new hops xops fuel k dev w
      = Inr ((), ?w1\<lparr>w_idt := i\<rparr>)"
    using assms(2,3) hd am s
    by (simp add: device_init_def init_device_def act_simps on_machine_def on_table_def register_headers_def)
  then show ?thesis by (simp add: register_headers_def)
qed

section \<open>An example\<close>

definition usb_pcics :: "u8 list pcics_ops" where
  "usb_pcics = example_pcics\<lparr>class_base := \<lambda>_. 0x0c, class_sub := \<lambda>_. 3, capabilities_pointer := \<lambda>_. 0x40,
     msix_capability := \<lambda>_ _. Some (1, Some 0, 0)\<rparr>"

definition no_handlers :: idt_state where
  "no_handlers = \<lparr>idt_table = Map.empty, idt_clone = None, idt_loaded = None\<rparr>"

definition usb_world :: "(unit, u64 \<Rightarrow> u8, u8 list, xreg \<Rightarrow> u64, unit) kworld" where
  "usb_world = \<lparr>w_machine = example_xstate, w_idt = no_handlers, w_table = pci_table_new,
     k_xregs = example_regs, k_xhci = None, k_ahci = ahci_ctrl_new\<rparr>"

definition usb_aml :: "u8 list \<Rightarrow> ((unit, u64 \<Rightarrow> u8, u8 list, xreg \<Rightarrow> u64, unit) kworld, unit) act" where
  "usb_aml h w = Inr ((), w\<lparr>w_idt := no_handlers\<rparr>)"

definition usb_registers :: "u64 \<Rightarrow> ((unit, u64 \<Rightarrow> u8, u8 list, xreg \<Rightarrow> u64, unit) kworld, unit) act" where
  "usb_registers b w =
     Inr ((), w\<lparr>w_machine := (w_machine w)\<lparr>mkm := (mkm (w_machine w))\<lparr>kmapper := Some ()\<rparr>\<rparr>\<rparr>)"

definition usb_extcaps :: "u64 \<Rightarrow> ((unit, u64 \<Rightarrow> u8, u8 list, xreg \<Rightarrow> u64, unit) kworld, unit option) act" where
  "usb_extcaps b w = Inr (None, w)"

definition usb_header :: "u8 list hdr_ops" where
  "usb_header = \<lparr>hdr_view = (\<lambda>_. \<lparr>hdr_bar5 = None, hdr_io_space = False, hdr_memory_space = False,
     hdr_bus_master = False\<rparr>), hdr_put = (\<lambda>p h. h)\<rparr>"

lemma usb_config_space:
  "config_space_ok example_pci_env usb_pcics (w_machine usb_world) (\<lambda>_. replicate 256 0) {0x1000}"
  using example_config_space
  by (simp add: config_space_ok_def usb_pcics_def usb_world_def example_xstate_def example_pcics_def)

lemma usb_example_function: "usb_function example_pci_env usb_pcics (replicate 256 0) 0x1000 1"
proof -
  have "kind_of usb_pcics h = UsbController" for h
    by (simp add: kind_of_def usb_pcics_def device_kind_new_def class_codes_def)
  moreover have "msix_bar usb_pcics (replicate 256 0) (Some 0) = Inr 0"
    "xhci_base example_pci_env usb_pcics (replicate 256 0) = Inr (Some 0)"
    using calculation
    by (simp_all add: msix_bar_def xhci_base_def usb_pcics_def example_pcics_def slice_get_def
        example_pci_env_def ahci_env_def page_down_def)
  moreover have "add_ck (page_down 0x1000 + moffset example_pci_env) 0 = Inr 0x1000"
    "add_ck (0x1000 :: u64) (ucast (0 :: u32)) = Inr 0x1000"
    by (simp_all add: add_ck_def page_down_def example_pci_env_def ahci_env_def)
  moreover have "\<forall>raw. msix_capability usb_pcics raw (replicate 256 0) = Some (1, Some 0, 0)"
    "capabilities_pointer usb_pcics (replicate 256 0) \<noteq> 0"
    by (simp_all add: usb_pcics_def)
  ultimately show ?thesis unfolding usb_function_def by blast
qed

lemma usb_pages: "pages_left example_pci_env (falloc_new example_frames) (w_machine usb_world) (3 * 1 + 3)"
  using example_pages
  by (simp add: pages_left_def direct_map_ok_def frames_reachable_def example_pci_env_def usb_world_def)


end
