(* ===== verification/Syscalls.thy ===== *)
theory Syscalls
  imports Ahci_Requests
begin

text \<open>
  The system calls for user-mode drivers, \<^verbatim>\<open>src/arch/x86_64/syscall/driver.rs\<close>. The constants of the
  \<^verbatim>\<open>syscall\<close> crate are the parameter \<open>sys_env\<close>; \<open>sys_env_ok\<close> states the values of its map flags
  the proofs use. A result is \<open>Inl\<close> an error number or \<open>Inr\<close> a value, inside the computation that
  may panic.

  \<open>iopl\<close> sets the two privilege bits and nothing else; \<open>physalloc\<close> reserves frames but returns the
  allocator's counter; \<open>physmap\<close> always panics, because it builds a combination of map flags that
  \<open>translate_flags\<close> does not know.
\<close>

section \<open>Definitions\<close>

record sys_env =
  PROT_NONE :: u64
  PROT_READ :: u64
  PROT_WRITE :: u64
  PROT_EXEC :: u64
  MAP_FIXED :: u64
  MAP_FIXED_NOREPLACE :: u64
  MAP_LAZY :: u64
  MAP_PRIVATE :: u64
  MAP_SHARED :: u64
  PHYSMAP_WRITE :: u64
  PHYSMAP_WRITE_COMBINE :: u64
  PHYSMAP_NO_CACHE :: u64
  SPACE_32 :: u64
  SPACE_64 :: u64
  SYS_EINVAL :: i32
  SYS_ENOMEM :: i32

text \<open>The bits of \<^verbatim>\<open>PageTableFlags\<close> that \<open>page_flags\<close> does not have.\<close>

record user_flags =
  uf_global :: u64
  uf_user_accessible :: u64
  uf_no_execute :: u64

definition flag_set :: "u64 \<Rightarrow> bool \<Rightarrow> u64 \<Rightarrow> u64" where
  "flag_set f on bits = (if on then bits OR f else bits AND NOT f)"

definition flag_contains :: "u64 \<Rightarrow> u64 \<Rightarrow> bool" where
  "flag_contains bits f \<longleftrightarrow> bits AND f = f"

definition translate_map :: "sys_env \<Rightarrow> page_flags \<Rightarrow> user_flags \<Rightarrow> u64 \<Rightarrow> u64 exec" where
  "translate_map env pf uf mf =
     (if mf = PROT_NONE env then Inr 0
      else if mf = PROT_READ env then Inr (flag_set (pf_present pf) True 0)
      else if mf = PROT_WRITE env then
        Inr (flag_set (pf_writable pf) True (flag_set (pf_present pf) True 0))
      else if mf = PROT_EXEC env then Inr (flag_set (uf_no_execute uf) False 0)
      else if mf = MAP_FIXED env then Inr (flag_set (uf_global uf) True 0)
      else if mf = MAP_FIXED_NOREPLACE env then Inr (flag_set (uf_global uf) True 0)
      else if mf = MAP_LAZY env then Inr (flag_set (pf_write_through pf) True 0)
      else if mf = MAP_PRIVATE env then Inr (flag_set (uf_user_accessible uf) False 0)
      else if mf = MAP_SHARED env then Inr (flag_set (uf_user_accessible uf) True 0)
      else Inl (Panic UnreachableCode))"

definition translate_flags :: "sys_env \<Rightarrow> page_flags \<Rightarrow> user_flags \<Rightarrow> u64 \<Rightarrow> u64 \<Rightarrow> u64 exec" where
  "translate_flags env pf uf pm mf =
     rbind (translate_map env pf uf mf) (\<lambda>flags.
       if pm = PHYSMAP_WRITE env \<or> pm = PHYSMAP_WRITE_COMBINE env then
         Inr (flag_set (pf_writable pf) True (flag_set (pf_present pf) True flags))
       else if pm = PHYSMAP_NO_CACHE env then
         Inr (flag_set (pf_no_cache pf) True (flag_set (pf_present pf) True flags))
       else Inl (Panic UnreachableCode))"

text \<open>The interrupt stack frame, of which only the flags are used.\<close>

record 'r stack_frame =
  cpu_flags :: u64
  frame_rest :: 'r

definition iopl :: "sys_env \<Rightarrow> u64 \<Rightarrow> 'r stack_frame \<Rightarrow> (i32 + nat) \<times> 'r stack_frame" where
  "iopl env level frame =
     (if level \<le> 3
      then (Inr 0, frame\<lparr>cpu_flags := (cpu_flags frame AND NOT (push_bit 12 3)) OR push_bit 12 (level AND 3)\<rparr>)
      else (Inl (SYS_EINVAL env), frame))"

fun map_pairs ::
  "'m page_ops \<Rightarrow> u64 \<Rightarrow> (u64 \<times> u64) list \<Rightarrow> 'm kmem \<Rightarrow> 'm kmem exec" where
  "map_pairs ops flags [] km = Inr km"
| "map_pairs ops flags ((phys, virt) # ps) km =
     rbind (map_page ops phys virt flags km) (map_pairs ops flags ps)"

definition physalloc_inner ::
  "sys_env \<Rightarrow> 'm page_ops \<Rightarrow> page_flags \<Rightarrow> u64 \<Rightarrow> nat \<Rightarrow> u64 \<Rightarrow> 'm kmem
   \<Rightarrow> ((i32 + nat \<times> u64 list) \<times> 'm kmem) exec" where
  "physalloc_inner env ops pf offset sz flags km =
     (if flag_contains flags (SPACE_32 env OR SPACE_64 env)
         \<or> flag_contains flags (SPACE_32 env) \<or> flag_contains flags (SPACE_64 env)
      then
        rbind (unwrap (kfalloc km)) (\<lambda>fa.
        rbind (allocate_multiple (pphys ops) fa sz) (\<lambda>(r, fa).
          let km = km\<lparr>kfalloc := Some fa\<rparr> in
          case r of
            None \<Rightarrow> Inr (Inl (SYS_ENOMEM env), km)
          | Some ((first_frame, last_frame), sz) \<Rightarrow>
              rbind (add_ck first_frame offset) (\<lambda>start.
              rbind (virt_new ops start) (\<lambda>v.
              rbind (add_ck start (of_nat sz)) (\<lambda>stop.
              rbind (virt_new ops stop) (\<lambda>v'.
                let pages = page_range ops (page_of ops v) (page_of ops v') in
                rbind (map_pairs ops (default_flags pf)
                         (zip (range_frames (pphys ops) first_frame last_frame) pages) km) (\<lambda>km.
                  Inr (Inr (sz, pages), km))))))))
      else Inr (Inl (SYS_EINVAL env), km))"

definition physalloc ::
  "sys_env \<Rightarrow> 'm page_ops \<Rightarrow> page_flags \<Rightarrow> u64 \<Rightarrow> nat \<Rightarrow> 'm kmem \<Rightarrow> ((i32 + nat) \<times> 'm kmem) exec" where
  "physalloc env ops pf offset sz km =
     rbind (physalloc_inner env ops pf offset sz (SPACE_64 env) km) (\<lambda>(r, km).
       Inr (map_sum id fst r, km))"

definition physfree ::
  "sys_env \<Rightarrow> 'm page_ops \<Rightarrow> u64 \<Rightarrow> u64 \<Rightarrow> 'm kmem \<Rightarrow> ((i32 + nat) \<times> 'm kmem) exec" where
  "physfree env ops addr count km =
     rbind (phys_frame (pphys ops) addr) (\<lambda>a.
     rbind (phys_frame (pphys ops) count) (\<lambda>b.
     rbind (unwrap (kfalloc km)) (\<lambda>fa.
     rbind (deallocate_multiple (pphys ops) fa (a, b)) (\<lambda>(_, fa).
       Inr (Inr 0, km\<lparr>kfalloc := Some fa\<rparr>)))))"

definition physmap_flags :: "sys_env \<Rightarrow> u64 \<Rightarrow> u64" where
  "physmap_flags env flags =
     flag_set (PROT_WRITE env) (flag_contains flags (PHYSMAP_WRITE env)) (MAP_SHARED env OR PROT_READ env)"

fun map_identity :: "'m page_ops \<Rightarrow> u64 \<Rightarrow> u64 list \<Rightarrow> 'm kmem \<Rightarrow> 'm kmem exec" where
  "map_identity ops flags [] km = Inr km"
| "map_identity ops flags (f # fs) km =
     rbind (virt_new ops f) (\<lambda>v.
     rbind (map_page ops (page_of ops v) f flags km) (map_identity ops flags fs))"

definition physmap ::
  "sys_env \<Rightarrow> 'm page_ops \<Rightarrow> page_flags \<Rightarrow> user_flags \<Rightarrow> u64 \<Rightarrow> u64 \<Rightarrow> nat \<Rightarrow> u64 \<Rightarrow> 'm kmem
   \<Rightarrow> ((i32 + nat) \<times> 'm kmem) exec" where
  "physmap env ops pf uf offset phys len flags km =
     rbind (translate_flags env pf uf flags (physmap_flags env flags)) (\<lambda>pt_flags.
     rbind (physalloc_inner env ops pf offset len (SPACE_64 env) km) (\<lambda>(r, km).
       case r of
         Inl e \<Rightarrow> Inr (Inl e, km)
       | Inr (_, frame_range) \<Rightarrow>
           rbind (map_identity ops pt_flags frame_range km) (\<lambda>km. Inr (Inr len, km))))"

section \<open>Properties\<close>

definition sys_env_ok :: "sys_env \<Rightarrow> bool" where
  "sys_env_ok env \<longleftrightarrow> PROT_NONE env = 0 \<and> PROT_EXEC env = 0x10000 \<and> PROT_WRITE env = 0x20000
     \<and> PROT_READ env = 0x40000 \<and> MAP_SHARED env = 1 \<and> MAP_PRIVATE env = 2 \<and> MAP_FIXED env = 4
     \<and> MAP_FIXED_NOREPLACE env = 0xC \<and> MAP_LAZY env = 0x10"

text \<open>\<^verbatim>\<open>iopl\<close> stores the level in bits 12 and 13 of the saved flags and keeps all others; a level
  above 3 is refused and changes nothing.\<close>

theorem iopl_sets_level:
  "\<exists>f. iopl env level frame = (if level \<le> 3 then (Inr 0, frame\<lparr>cpu_flags := f\<rparr>)
       else (Inl (SYS_EINVAL env), frame))
     \<and> unat f div 4096 mod 4 = unat level mod 4
     \<and> (\<forall>n. n \<notin> {12, 13} \<longrightarrow> bit f n = bit (cpu_flags frame) n)"
proof -
  define f where "f = (cpu_flags frame AND NOT (push_bit 12 3)) OR push_bit 12 (level AND 3)"
  have three: "(3 :: u64) = mask 2" by (simp add: mask_eq_exp_minus_1)
  have "take_bit 2 (drop_bit 12 f) = take_bit 2 level"
    by (rule bit_eqI) (auto simp: f_def three bit_simps)
  then have "unat (take_bit 2 (drop_bit 12 f)) = unat (take_bit 2 level)" by simp
  then have "take_bit 2 (drop_bit 12 (unat f)) = take_bit 2 (unat level)"
    using unat_lt_2p [of f] by (simp add: unsigned_take_bit_eq unsigned_drop_bit_eq take_bit_nat_eq_self)
  then have "unat f div 4096 mod 4 = unat level mod 4" by (simp add: take_bit_eq_mod drop_bit_eq_div)
  moreover have "\<forall>n. n \<notin> {12, 13} \<longrightarrow> bit f n = bit (cpu_flags frame) n"
    by (auto simp: f_def three bit_simps dest: bit_imp_le_length)
  ultimately show ?thesis by (intro exI [of _ f]) (simp add: iopl_def f_def)
qed
definition example_sys_env :: sys_env where
  "example_sys_env = \<lparr>PROT_NONE = 0, PROT_READ = 0x40000, PROT_WRITE = 0x20000, PROT_EXEC = 0x10000,
     MAP_FIXED = 4, MAP_FIXED_NOREPLACE = 0xC, MAP_LAZY = 0x10, MAP_PRIVATE = 2, MAP_SHARED = 1,
     PHYSMAP_WRITE = 1, PHYSMAP_WRITE_COMBINE = 2, PHYSMAP_NO_CACHE = 4, SPACE_32 = 1, SPACE_64 = 2,
     SYS_EINVAL = 22, SYS_ENOMEM = 12\<rparr>"

lemma example_sys_env_ok: "sys_env_ok example_sys_env"
  by (simp add: sys_env_ok_def example_sys_env_def)

theorem iopl_sets_level_witness:
  "\<exists>f. iopl example_sys_env 3 \<lparr>cpu_flags = 0x202, frame_rest = ()\<rparr> = (Inr 0, \<lparr>cpu_flags = f, frame_rest = ()\<rparr>)
     \<and> unat f div 4096 mod 4 = 3 \<and> bit f 9"
  using iopl_sets_level [of example_sys_env 3 "\<lparr>cpu_flags = 0x202, frame_rest = ()\<rparr>"] by auto

text \<open>\<^verbatim>\<open>physmap\<close> panics whatever it is given: sharing and reading, with or without writing, are two
  or three bits, and only single bits are translated.\<close>

theorem physmap_always_panics:
  assumes "sys_env_ok env"
  shows "physmap env ops pf uf offset phys len flags km = Inl (Panic UnreachableCode)"
  using assms
  by (simp add: physmap_def translate_flags_def translate_map_def physmap_flags_def flag_set_def sys_env_ok_def)

theorem physmap_always_panics_witness:
  "physmap example_sys_env (mpage ahci_env) (mflags ahci_env) \<lparr>uf_global = 256, uf_user_accessible = 4, uf_no_execute = 2 ^ 63\<rparr>
     0 0x1000 2 1 (mkm ahci_state) = Inl (Panic UnreachableCode)"
  by (rule physmap_always_panics [OF example_sys_env_ok])

text \<open>Mapping pairs of frames and pages where the boot loader has mapped all of memory already.\<close>

lemma map_page_refused:
  assumes "direct_map_ok env" and "unat phys < 2 ^ 52" and "unat virt < 2 ^ 47"
    and "kmapper km \<noteq> None" and "kfalloc km \<noteq> None"
  shows "map_page (mpage env) phys virt fl km = Inr km"
proof -
  obtain mp fa where km: "kmapper km = Some mp" "kfalloc km = Some fa" using assms(4,5) by blast
  obtain e where "e \<noteq> FrameAllocationFailed"
    "map_to (mpage env) mp fa (page_of (mpage env) virt) (page_down phys) fl = (Some e, mp, fa)"
    using assms(1) unfolding direct_map_ok_def by metis
  moreover have "km\<lparr>kmapper := Some mp, kfalloc := Some fa\<rparr> = km" using km by simp
  ultimately show ?thesis
    using assms(1-3) km unfolding direct_map_ok_def phys_ops_ok_def by (cases e) (simp_all add: map_page_def)
qed

lemma map_pairs_refused:
  assumes "direct_map_ok env" and "\<forall>(f, p) \<in> set ps. unat f < 2 ^ 52 \<and> unat p < 2 ^ 47"
    and "kmapper km \<noteq> None" and "kfalloc km \<noteq> None"
  shows "map_pairs (mpage env) fl ps km = Inr km"
  using assms(2)
  by (induction ps) (auto simp: map_page_refused [OF assms(1) _ _ assms(3,4)])

text \<open>The \<^verbatim>\<open>x86_64\<close> crate's ranges end at their last element, and a page starts at or below its
  addresses.\<close>

definition ranges_ok :: "'m page_ops \<Rightarrow> bool" where
  "ranges_ok ops \<longleftrightarrow> (\<forall>a b. \<forall>f \<in> set (range_frames (pphys ops) a b). f \<le> b)
     \<and> (\<forall>a b. \<forall>p \<in> set (page_range ops a b). p \<le> b) \<and> (\<forall>a. page_of ops a \<le> a)"

text \<open>\<^verbatim>\<open>physalloc\<close> of \<open>sz\<close> takes \<open>sz + 1\<close> frames and returns the number of frames handed out since
  boot; when so many are not left it fails with \<^verbatim>\<open>ENOMEM\<close> and takes none.\<close>

theorem physalloc_result:
  fixes env :: "('m, 'd) menv"
  assumes env: "direct_map_ok env" "memory_map_ok (fmap fa)" "ranges_ok (mpage env)"
    and km: "kmapper km \<noteq> None" "kfalloc km = Some fa"
    and addr: "\<forall>f \<in> set (usable_addrs (fmap fa)).
      unat f + unat (moffset env) + length (usable_addrs (fmap fa)) < 2 ^ 47"
    and sz: "fnext fa + sz + 1 < 2 ^ 64"
  shows "physalloc senv (mpage env) pf (moffset env) sz km =
    (if fnext fa + sz < length (usable_addrs (fmap fa))
     then Inr (Inr (fnext fa + sz + 1), km\<lparr>kfalloc := Some (fa\<lparr>fnext := fnext fa + sz + 1\<rparr>)\<rparr>)
     else Inr (Inl (SYS_ENOMEM senv), km))"
proof -
  let ?us = "usable_addrs (fmap fa)" and ?off = "moffset env"
  have inv: "falloc_inv (pphys (mpage env)) fa"
    using env by (simp add: falloc_inv_def direct_map_ok_def)
  have flags: "flag_contains (SPACE_64 senv) (SPACE_64 senv)" by (simp add: flag_contains_def)
  show ?thesis
  proof (cases "fnext fa + sz < length ?us")
    case True
    define b e n where "b = ?us ! fnext fa" and "e = ?us ! (fnext fa + sz)" and n: "n = fnext fa + sz + 1"
    have us: "b \<in> set ?us" "e \<in> set ?us" using True by (simp_all add: b_def e_def)
    have lt: "unat b + unat ?off + n < 2 ^ 47" "unat e < 2 ^ 47" using addr us True unfolding n by fastforce+
    let ?km = "km\<lparr>kfalloc := Some (fa\<lparr>fnext := n\<rparr>)\<rparr>" and ?stop = "b + ?off + of_nat n"
    have alloc: "allocate_multiple (pphys (mpage env)) fa sz = Inr (Some ((b, e), n), fa\<lparr>fnext := n\<rparr>)"
      using True sz by (simp add: allocate_multiple_def usable_nth_eq [OF inv] usize_add_ck_def b_def e_def n)
    have u: "unat (b + ?off) = unat b + unat ?off" "unat ?stop = unat b + unat ?off + n"
      using lt by (simp_all add: unat_word_ariths unat_of_nat)
    then have ck: "add_ck b ?off = Inr (b + ?off)" "add_ck (b + ?off) (of_nat n) = Inr ?stop"
      "virt_new (mpage env) (b + ?off) = Inr (b + ?off)" "virt_new (mpage env) ?stop = Inr ?stop"
      using lt env(1) by (simp_all add: add_ck_def direct_map_ok_def unat_of_nat)
    have "unat f < 2 ^ 52" if "f \<in> set (range_frames (pphys (mpage env)) b e)" for f
      using env(3) that lt(2) by (fastforce simp: ranges_ok_def word_le_nat_alt)
    moreover have "unat p < 2 ^ 47" if "p \<in> set (page_range (mpage env) a (page_of (mpage env) ?stop))" for a p
    proof -
      have "p \<le> ?stop" using env(3) that unfolding ranges_ok_def by (meson order_trans)
      then show ?thesis using u(2) lt(1) by (simp add: word_le_nat_alt)
    qed
    ultimately have maps: "map_pairs (mpage env) fl (zip (range_frames (pphys (mpage env)) b e)
        (page_range (mpage env) a (page_of (mpage env) ?stop))) ?km = Inr ?km" for fl a
      using km by (intro map_pairs_refused [OF env(1)]) (auto dest: set_zip_leftD set_zip_rightD)
    show ?thesis
      using True km alloc ck maps flags unfolding n [symmetric]
      by (simp add: physalloc_def physalloc_inner_def Let_def)
  next
    case False
    have "km\<lparr>kfalloc := Some fa\<rparr> = km" using km(2) by simp
    then show ?thesis
      using False km flags sz
      by (auto simp: physalloc_def physalloc_inner_def Let_def allocate_multiple_def usable_nth_eq [OF inv] usize_add_ck_def)
  qed
qed

theorem physalloc_result_witness:
  "physalloc example_sys_env (mpage ahci_env) (mflags ahci_env) 0 2 (mkm ahci_state)
     = Inr (Inr 3, (mkm ahci_state)\<lparr>kfalloc := Some \<lparr>fmap = example_map, fnext = 3\<rparr>\<rparr>)
   \<and> physalloc example_sys_env (mpage ahci_env) (mflags ahci_env) 0 7 (mkm ahci_state)
     = Inr (Inl 12, mkm ahci_state)"
proof -
  have "f \<le> e" if "f \<in> set (range_frames ref_phys_ops b e)" for b e f
  proof -
    from that obtain i where i: "f = b + of_nat (4096 * i)" "i \<le> (unat e - unat b) div 4096" and le: "b \<le> e"
      by (auto simp: ref_phys_ops_def split: if_splits)
    then have "unat b + 4096 * i \<le> unat e" by (simp add: word_le_nat_alt)
    moreover from this have "unat f = unat b + 4096 * i"
      using i(1) unat_lt_2p [of e] by (simp add: unat_word_ariths unat_of_nat)
    ultimately show ?thesis by (simp add: word_le_nat_alt)
  qed
  then have ok: "ranges_ok (mpage ahci_env)"
    by (auto simp: ranges_ok_def ahci_env_def word_le_nat_alt unat_page_down)
  have fa: "fmap (falloc_new example_map) = example_map" "fnext (falloc_new example_map) = 0"
    "moffset ahci_env = 0" "SYS_ENOMEM example_sys_env = 12"
    by (simp_all add: falloc_new_def ahci_env_def example_sys_env_def)
  note run = physalloc_result [OF ahci_env_direct _ ok ahci_state_kmem, unfolded fa, where senv = example_sys_env]
  show ?thesis
    using run [of 2 "mflags ahci_env"] run [of 7 "mflags ahci_env"]
    by (simp add: example_map_ok example_map_addrs fa falloc_new_def)
qed

end
