(* ===== verification/Drm.thy ===== *)
theory Drm
  imports Complex_Main Prelude
begin

text \<open>
  Drawing, \<^verbatim>\<open>src/drm/mod.rs\<close>, \<^verbatim>\<open>avx_accel.rs\<close>, the PNG part of \<^verbatim>\<open>cryptk.rs\<close> and the rendering loop
  of \<^verbatim>\<open>src/main.rs\<close>.

  \<^item> A frame buffer is its description and a list of bytes; a canvas a list of points with colours.
    Colours keep the order red, green, blue of the constructors of \<^verbatim>\<open>embedded_graphics\<close>.
  \<^item> A number of type \<^verbatim>\<open>f32\<close> is a rational, or \<open>None\<close> when it is not finite; \<open>round_f32\<close> is the
    rounding to the nearest number with 24 binary digits, ties to even, that every operation of
    \<^verbatim>\<open>core::simd\<close> ends with.
  \<^item> \<^verbatim>\<open>Pixelx16\<close> is built from sixteen neighbouring elements; the slice between its first and its last
    pointer leaves the last one out.
  \<^item> \<open>avx_env\<close> has the processor's features and the control register bits of the \<^verbatim>\<open>x86_64\<close> crate.
\<close>

section \<open>Vector registers\<close>

record avx_env =
  has_info :: bool
  has_sse_any :: bool
  has_avx :: bool
  EMULATE_COPROCESSOR :: u64
  MONITOR_COPROCESSOR :: u64
  OSFXSR :: u64
  OSXMMEXCPT_ENABLE :: u64

record vregs =
  cr0 :: u64
  cr4 :: u64
  xcr0 :: u64

definition put :: "u64 \<Rightarrow> bool \<Rightarrow> u64 \<Rightarrow> u64" where
  "put f on bits = (if on then bits OR f else bits AND NOT f)"

definition enable_sse :: "avx_env \<Rightarrow> vregs \<Rightarrow> vregs exec" where
  "enable_sse env r =
     (if \<not> has_info env then Inl (Panic ExpectFailed)
      else if has_sse_any env then
        Inr (r\<lparr>cr0 := put (MONITOR_COPROCESSOR env) True (put (EMULATE_COPROCESSOR env) False (cr0 r)),
               cr4 := put (OSXMMEXCPT_ENABLE env) True (put (OSFXSR env) True (cr4 r))\<rparr>)
      else Inl (Panic ExplicitPanic))"

definition enable_avx :: "avx_env \<Rightarrow> vregs \<Rightarrow> vregs exec" where
  "enable_avx env r =
     (if \<not> has_info env then Inl (Panic ExpectFailed)
      else if has_avx env then rbind (enable_sse env r) (\<lambda>r. Inr (r\<lparr>xcr0 := xcr0 r OR 7\<rparr>))
      else Inl (Panic ExplicitPanic))"

definition disable_avx :: "avx_env \<Rightarrow> vregs \<Rightarrow> vregs exec" where
  "disable_avx env r =
     (if \<not> has_info env then Inl (Panic ExpectFailed)
      else if has_avx env then Inr (r\<lparr>xcr0 := xcr0 r OR 0\<rparr>)
      else Inl (Panic ExplicitPanic))"

definition disable_sse :: "avx_env \<Rightarrow> vregs \<Rightarrow> vregs exec" where
  "disable_sse env r =
     (if \<not> has_info env then Inl (Panic ExpectFailed)
      else if has_sse_any env then
        rbind (if has_avx env then disable_avx env r else Inr r) (\<lambda>r.
          Inr (r\<lparr>cr4 := put (OSXMMEXCPT_ENABLE env) False (put (OSFXSR env) False (cr4 r)),
                 cr0 := put (EMULATE_COPROCESSOR env) True (put (MONITOR_COPROCESSOR env) False (cr0 r))\<rparr>))
      else Inl (Panic ExplicitPanic))"

definition with_avx :: "avx_env \<Rightarrow> (unit \<Rightarrow> 'r exec) \<Rightarrow> vregs \<Rightarrow> ('r \<times> vregs) exec" where
  "with_avx env f r =
     (if \<not> has_info env then Inl (Panic ExpectFailed)
      else if has_avx env then
        rbind (enable_avx env r) (\<lambda>r. rbind (f ()) (\<lambda>x. rbind (disable_sse env r) (\<lambda>r. Inr (x, r))))
      else Inl (Panic ExplicitPanic))"

section \<open>Single precision\<close>

type_synonym f32 = "rat option"

fun exponent :: "nat \<Rightarrow> rat \<Rightarrow> int" where
  "exponent 0 q = 0"
| "exponent (Suc n) q =
     (if 2 \<le> q then 1 + exponent n (q / 2) else if q < 1 then exponent n (2 * q) - 1 else 0)"

definition round_half_even :: "rat \<Rightarrow> int" where
  "round_half_even q =
     (let f = \<lfloor>q\<rfloor>; d = q - of_int f in
      if d < 1 / 2 then f else if 1 / 2 < d then f + 1 else if even f then f else f + 1)"

text \<open>For the non-negative numbers the drawing code computes with; 300 halvings or doublings reach
  every product of two numbers of the format.\<close>

definition round_f32 :: "rat \<Rightarrow> rat" where
  "round_f32 q =
     (if q = 0 then 0
      else let e = max (exponent 300 q - 23) (- 149) in of_int (round_half_even (q / 2 powi e)) * 2 powi e)"

text \<open>The cast to \<^verbatim>\<open>u8\<close> truncates and saturates.\<close>

definition f32_to_u8 :: "rat \<Rightarrow> u8" where
  "f32_to_u8 q = of_int (max 0 (min 255 \<lfloor>q\<rfloor>))"

section \<open>Colours\<close>

datatype PixelColorKind = Rgb u8 u8 u8 | Bgr u8 u8 u8 | U8 u8

datatype PixelFormat = FormatRgb | FormatBgr | FormatU8 | FormatUnknown

record fb_info =
  fb_width :: nat
  fb_height :: nat
  fb_stride :: nat
  bytes_per_pixel :: nat
  pixel_format :: PixelFormat

record framebuffer =
  fbi :: fb_info
  fb_bytes :: "u8 list"

type_synonym point = "i32 \<times> i32"
type_synonym pixel = "point \<times> PixelColorKind"

definition luma :: "u8 \<Rightarrow> u8 \<Rightarrow> u8 \<Rightarrow> u8" where
  "luma r g b = ucast ((ucast r * ucast g * ucast b :: u32) div 3)"

definition from_framebuffer :: "fb_info \<Rightarrow> u8 \<Rightarrow> u8 \<Rightarrow> u8 \<Rightarrow> PixelColorKind exec" where
  "from_framebuffer info r g b =
     (case pixel_format info of
        FormatRgb \<Rightarrow> Inr (Rgb r g b)
      | FormatBgr \<Rightarrow> Inr (Bgr r g b)
      | FormatU8 \<Rightarrow> Inr (U8 (luma r g b))
      | FormatUnknown \<Rightarrow> Inl (Panic ExplicitPanic))"

fun blend_lanes :: "PixelColorKind \<Rightarrow> u8 list" where
  "blend_lanes (Bgr r g b) = [b, g, r, 0]"
| "blend_lanes (Rgb r g b) = [r, g, b, 0]"
| "blend_lanes (U8 l) = [l, l, l, 0]"

definition blend_lane :: "rat \<Rightarrow> u8 \<Rightarrow> u8 \<Rightarrow> u8" where
  "blend_lane alpha x y =
     f32_to_u8 (round_f32 (round_f32 (alpha * of_nat (unat x)) + round_f32 (round_f32 (1 - alpha) * of_nat (unat y))))"

definition alpha_blend :: "f32 \<Rightarrow> PixelColorKind \<Rightarrow> PixelColorKind \<Rightarrow> PixelColorKind exec" where
  "alpha_blend alpha this other =
     (case alpha of
        None \<Rightarrow> Inl (Panic ExplicitPanic)
      | Some a \<Rightarrow>
          if a < 0 \<or> 1 < a then Inl (Panic ExplicitPanic)
          else
            let out = map2 (blend_lane a) (blend_lanes this) (blend_lanes other) in
            Inr (case this of
                   Rgb _ _ _ \<Rightarrow> Rgb (out ! 0) (out ! 1) (out ! 2)
                 | Bgr _ _ _ \<Rightarrow> Bgr (out ! 0) (out ! 1) (out ! 2)
                 | U8 _ \<Rightarrow> U8 (luma (out ! 0) (out ! 1) (out ! 2))))"

text \<open>The conversions from the colour types of \<^verbatim>\<open>embedded_graphics\<close>. \<open>to_rgb888\<close> is that crate's
  conversion from \<^verbatim>\<open>RawU24\<close>, \<^verbatim>\<open>Rgb555\<close> or \<^verbatim>\<open>Rgb565\<close>.\<close>

definition color_from_rgb888 :: "u8 \<times> u8 \<times> u8 \<Rightarrow> PixelColorKind" where
  "color_from_rgb888 value = (case value of (r, g, b) \<Rightarrow> Rgb r g b)"

definition color_from :: "('c \<Rightarrow> u8 \<times> u8 \<times> u8) \<Rightarrow> 'c \<Rightarrow> PixelColorKind" where
  "color_from to_rgb888 value = color_from_rgb888 (to_rgb888 value)"

section \<open>Sixteen pixels\<close>

definition pixelx16_new :: "pixel list" where
  "pixelx16_new = replicate 16 ((0, 0), U8 0)"

definition pixelx16_from_slice :: "pixel list \<Rightarrow> pixel list exec" where
  "pixelx16_from_slice xs = (if length xs < 16 then Inl (Panic IndexOutOfBounds) else Inr (take 16 xs))"

definition pixelx16_as_slice :: "pixel list \<Rightarrow> pixel list" where
  "pixelx16_as_slice p = take 15 p"

text \<open>The sixteen assignments of \<^verbatim>\<open>Pixelx16::alpha_blend\<close>, in order.\<close>

definition pixelx16_blend_at :: "f32 \<Rightarrow> pixel list \<Rightarrow> nat \<Rightarrow> pixel list \<Rightarrow> pixel list exec" where
  "pixelx16_blend_at alpha other i me =
     rbind (slice_get me i) (\<lambda>(pt, c).
     rbind (slice_get other i) (\<lambda>(_, c').
     rbind (alpha_blend alpha c c') (\<lambda>c''. slice_set me i (pt, c''))))"

definition pixelx16_alpha_blend :: "f32 \<Rightarrow> pixel list \<Rightarrow> pixel list \<Rightarrow> pixel list exec" where
  "pixelx16_alpha_blend alpha this other =
     for_each (pixelx16_blend_at alpha (pixelx16_as_slice other)) [0..<16] (pixelx16_as_slice this)"

section \<open>Canvases\<close>

definition buffer_points :: "fb_info \<Rightarrow> point list" where
  "buffer_points info =
     concat (map (\<lambda>x. map (\<lambda>y. (of_nat x, of_nat y)) [0..<fb_height info]) [0..<fb_width info])"

text \<open>\<^verbatim>\<open>step_by(n)\<close>: the elements at the multiples of \<open>n\<close>.\<close>

definition step_by :: "nat \<Rightarrow> 'a list \<Rightarrow> 'a list" where
  "step_by n xs = map (\<lambda>i. xs ! (i * n)) [0..<(length xs + n - 1) div n]"

fun collect :: "('a exec) list \<Rightarrow> 'a list exec" where
  "collect [] = Inr []"
| "collect (m # ms) = rbind m (\<lambda>x. rbind (collect ms) (\<lambda>xs. Inr (x # xs)))"

text \<open>The colours, computed when they are asked for; a step of zero panics when the iterator is made.\<close>

definition buffer_color :: "framebuffer \<Rightarrow> (PixelColorKind exec) list exec" where
  "buffer_color fb =
     (let info = fbi fb; bpp = bytes_per_pixel info; bs = fb_bytes fb;
          chan = (\<lambda>k. step_by bpp (drop k bs)) in
      if pixel_format info = FormatUnknown then Inl (Panic ExplicitPanic)
      else if bpp = 0 then Inl (Panic AssertFailed)
      else Inr (case pixel_format info of
          FormatRgb \<Rightarrow> map (\<lambda>((r, g), b). from_framebuffer info r g b) (zip (zip (chan 0) (chan 1)) (chan 2))
        | FormatBgr \<Rightarrow> map (\<lambda>((r, g), b). from_framebuffer info r g b) (zip (zip (chan 2) (chan 1)) (chan 0))
        | _ \<Rightarrow> map (\<lambda>g. from_framebuffer info g g g) (chan 0)))"

definition buffer_pixels :: "framebuffer \<Rightarrow> pixel list exec" where
  "buffer_pixels fb =
     rbind (buffer_color fb) (\<lambda>cs.
       collect (map (\<lambda>(pt, c). rbind c (\<lambda>c. Inr (pt, c))) (zip (buffer_points (fbi fb)) cs)))"

record canvas =
  canvas_pixels :: "pixel list"
  canvas_info :: fb_info

definition canvas_new :: "framebuffer \<Rightarrow> canvas exec" where
  "canvas_new fb = rbind (buffer_pixels fb) (\<lambda>ps. Inr \<lparr>canvas_pixels = ps, canvas_info = fbi fb\<rparr>)"

fun color_rgb :: "PixelColorKind \<Rightarrow> u8 \<times> u8 \<times> u8" where
  "color_rgb (Rgb r g b) = (r, g, b)"
| "color_rgb (Bgr r g b) = (r, g, b)"
| "color_rgb (U8 l) = (l, l, l)"

text \<open>A coordinate is sign-extended to 64 bits before it is used as an index.\<close>

definition pixel_offset :: "fb_info \<Rightarrow> point \<Rightarrow> nat exec" where
  "pixel_offset info pt =
     rbind (mul_ck (scast (snd pt) :: u64) (of_nat (fb_stride info))) (\<lambda>row.
     rbind (add_ck row (scast (fst pt))) (\<lambda>i. Inr (unat i)))"

definition draw_pixel :: "pixel \<Rightarrow> canvas \<Rightarrow> canvas exec" where
  "draw_pixel p c =
     rbind (pixel_offset (canvas_info c) (fst p)) (\<lambda>i.
     case color_rgb (snd p) of (r, g, b) \<Rightarrow>
     rbind (from_framebuffer (canvas_info c) r g b) (\<lambda>k.
     rbind (slice_set (canvas_pixels c) i (fst p, k)) (\<lambda>ps. Inr (c\<lparr>canvas_pixels := ps\<rparr>))))"

definition draw_iter :: "pixel list \<Rightarrow> canvas \<Rightarrow> canvas exec" where
  "draw_iter ps c = for_each draw_pixel ps c"

fun merge_lanes :: "PixelColorKind \<Rightarrow> u8 list" where
  "merge_lanes (Bgr r g b) = [b, g, r, 0]"
| "merge_lanes (Rgb r g b) = [r, g, b, 0]"
| "merge_lanes (U8 l) = [l, 0, 0, 0]"

text \<open>The chunks of a buffer and the colours, pair by pair; a chunk takes four bytes or panics.\<close>

fun merge_loop :: "nat \<Rightarrow> u8 list \<Rightarrow> PixelColorKind list \<Rightarrow> u8 list exec" where
  "merge_loop bpp bytes [] = Inr bytes"
| "merge_loop bpp bytes (c # cs) =
     (if length bytes < bpp then Inr bytes
      else if bpp \<noteq> 4 then Inl (Panic LengthMismatch)
      else rbind (merge_loop bpp (drop bpp bytes) cs) (\<lambda>rest. Inr (merge_lanes c @ rest)))"

definition merge_down :: "avx_env \<Rightarrow> canvas \<Rightarrow> framebuffer \<Rightarrow> vregs \<Rightarrow> (framebuffer \<times> vregs) exec" where
  "merge_down env c fb r =
     with_avx env (\<lambda>_.
       let bpp = bytes_per_pixel (fbi fb) in
       if bpp = 0 then Inl (Panic AssertFailed)
       else rbind (merge_loop bpp (fb_bytes fb) (map snd (canvas_pixels c))) (\<lambda>bs.
         Inr (fb\<lparr>fb_bytes := bs\<rparr>))) r"

fun blend_chunks :: "f32 \<Rightarrow> pixel list \<Rightarrow> pixel list \<Rightarrow> nat \<Rightarrow> pixel list \<Rightarrow> pixel list exec" where
  "blend_chunks alpha own other idx new =
     (if length own < 16 \<or> length other < 16 then Inr new
      else
        rbind (pixelx16_from_slice own) (\<lambda>this.
        rbind (pixelx16_from_slice other) (\<lambda>that.
        rbind (pixelx16_alpha_blend alpha this that) (\<lambda>res.
          blend_chunks alpha (drop 16 own) (drop 16 other) (idx + 16)
            (take idx new @ res @ drop (idx + 15) new)))))"

definition canvas_alpha_blend :: "avx_env \<Rightarrow> f32 \<Rightarrow> canvas \<Rightarrow> canvas \<Rightarrow> vregs \<Rightarrow> (canvas \<times> vregs) exec" where
  "canvas_alpha_blend env alpha c other r =
     with_avx env (\<lambda>_.
       rbind (blend_chunks alpha (canvas_pixels c) (canvas_pixels other) 0 (canvas_pixels c)) (\<lambda>ps.
         Inr (c\<lparr>canvas_pixels := ps\<rparr>))) r"

text \<open>The shorthand unwraps the result; drawing has no errors.\<close>

definition draw_iter_shorthand :: "pixel list \<Rightarrow> canvas \<Rightarrow> canvas exec" where
  "draw_iter_shorthand ps c = draw_iter ps c"

definition canvas_size :: "canvas \<Rightarrow> u32 \<times> u32" where
  "canvas_size c = (of_nat (fb_width (canvas_info c)), of_nat (fb_height (canvas_info c)))"

text \<open>\<^verbatim>\<open>COMPOSITING_TABLE\<close>, and one round of the rendering loop.\<close>

definition register_canvas :: "canvas \<Rightarrow> canvas list \<Rightarrow> canvas list" where
  "register_canvas c table = table @ [c]"

definition render :: "avx_env \<Rightarrow> canvas list \<Rightarrow> framebuffer \<times> vregs \<Rightarrow> (framebuffer \<times> vregs) exec" where
  "render env table = for_each (\<lambda>c (fb, r). merge_down env c fb r) table"

section \<open>Images\<close>

datatype ColorType = Gray | GrayAlpha | TrueColor | TrueColorAlpha | Indexed

record png =
  png_width :: u32
  png_height :: u32
  png_bytes :: "u8 list"
  png_color_type :: ColorType
  png_palette :: "u8 \<Rightarrow> u8 list"

definition from_png_metadata ::
  "u8 \<Rightarrow> u8 \<Rightarrow> u8 \<Rightarrow> ColorType \<Rightarrow> (u8 \<Rightarrow> u8 list) \<Rightarrow> u8 option \<Rightarrow> PixelColorKind exec" where
  "from_png_metadata r g b kind palette alpha =
     (let l = luma r g b; f = (\<lambda>a. Some (of_nat (unat a))) in
      case kind of
        Gray \<Rightarrow> Inr (U8 l)
      | GrayAlpha \<Rightarrow> rbind (unwrap alpha) (\<lambda>a. alpha_blend (f a) (U8 l) (U8 l))
      | TrueColor \<Rightarrow> Inr (Rgb r g b)
      | TrueColorAlpha \<Rightarrow> rbind (unwrap alpha) (\<lambda>a. alpha_blend (f a) (Rgb r g b) (Rgb r g b))
      | Indexed \<Rightarrow>
          rbind (slice_get (palette l) 0) (\<lambda>r.
          rbind (slice_get (palette l) 1) (\<lambda>g.
          rbind (slice_get (palette l) 2) (\<lambda>b. Inr (Rgb r g b)))))"

definition png_points :: "png \<Rightarrow> point list" where
  "png_points img =
     concat (map (\<lambda>x. map (\<lambda>y. (of_nat x, of_nat y)) [0..<unat (png_height img)]) [0..<unat (png_width img)])"

definition png_color_at :: "png \<Rightarrow> point \<Rightarrow> PixelColorKind exec" where
  "png_color_at img pt =
     rbind (mul_ck (snd pt) (png_width img)) (\<lambda>row.
     rbind (add_ck (fst pt) row) (\<lambda>i.
     let chunk = take 4 (drop (4 * unat i) (png_bytes img)) in
     if length chunk < 4 then Inl (Panic UnwrapNone)
     else from_png_metadata (chunk ! 0) (chunk ! 1) (chunk ! 2) (png_color_type img) (png_palette img)
            (if png_color_type img \<in> {GrayAlpha, TrueColorAlpha} then Some (chunk ! 3) else None)))"

text \<open>\<^verbatim>\<open>png_pixels\<close> zips the points with the colours of the same points.\<close>

definition png_pixels :: "png \<Rightarrow> pixel list exec" where
  "png_pixels img = collect (map (\<lambda>pt. rbind (png_color_at img pt) (\<lambda>c. Inr (pt, c))) (png_points img))"

text \<open>\<^verbatim>\<open>DesktopBackground\<close>: the pixels of a BMP come from the \<^verbatim>\<open>tinybmp\<close> crate.\<close>

datatype ImageKind = BmpImage "pixel list" | PngImage png

record background =
  bg_image :: ImageKind
  bg_canvas :: canvas

definition background_new :: "ImageKind \<Rightarrow> framebuffer \<Rightarrow> background exec" where
  "background_new img fb = rbind (canvas_new fb) (\<lambda>c. Inr \<lparr>bg_image = img, bg_canvas = c\<rparr>)"

definition background_draw :: "background \<Rightarrow> background exec" where
  "background_draw bg =
     rbind (case bg_image bg of BmpImage ps \<Rightarrow> Inr ps | PngImage img \<Rightarrow> png_pixels img) (\<lambda>ps.
     rbind (draw_iter_shorthand ps (bg_canvas bg)) (\<lambda>c. Inr (bg\<lparr>bg_canvas := c\<rparr>)))"

definition background_register :: "background \<Rightarrow> canvas list \<Rightarrow> canvas list" where
  "background_register bg table = register_canvas (bg_canvas bg) table"

declare blend_chunks.simps [simp del]

section \<open>Lemmas\<close>

definition avx_ready :: "avx_env \<Rightarrow> bool" where
  "avx_ready env \<longleftrightarrow> has_info env \<and> has_sse_any env \<and> has_avx env"

lemma with_avx_run:
  assumes "avx_ready env"
  obtains r' where "xcr0 r' = xcr0 r OR 7" and "\<And>f. with_avx env f r = rbind (f ()) (\<lambda>x. Inr (x, r'))"
proof -
  obtain r1 where 1: "enable_avx env r = Inr r1" "xcr0 r1 = xcr0 r OR 7"
    using assms by (simp add: avx_ready_def enable_avx_def enable_sse_def)
  obtain r2 where 2: "disable_sse env r1 = Inr r2" "xcr0 r2 = xcr0 r1"
    using assms by (simp add: avx_ready_def disable_sse_def disable_avx_def)
  show thesis by (rule that [of r2]) (use assms 1 2 in \<open>simp_all add: avx_ready_def with_avx_def\<close>)
qed

lemma collect_Inr: "collect (map (\<lambda>x. Inr (f x)) xs) = Inr (map f xs)"
  by (induction xs) simp_all

lemma step_by_nth:
  assumes "length bs = 4 * n" and "k < 4"
  shows "step_by 4 (drop k bs) = map (\<lambda>i. bs ! (4 * i + k)) [0..<n]"
proof -
  have "(length bs - k + 3) div 4 = n" using assms by auto
  then show ?thesis using assms by (auto simp: step_by_def add.commute mult.commute)
qed

lemma concat_fours:
  "concat (map (\<lambda>i. [f (4 * i), f (4 * i + 1), f (4 * i + 2), f (4 * i + 3)]) [0..<n]) = map f [0..<4 * n]"
proof (induction n)
  case (Suc n)
  have four: "4 + 4 * n = Suc (Suc (Suc (Suc (4 * n))))" "4 * n + 3 = Suc (Suc (Suc (4 * n)))" by simp_all
  show ?case using Suc by (simp add: four)
qed simp

lemma merge_loop_run: "length bs = 4 * length cs \<Longrightarrow> merge_loop 4 bs cs = Inr (concat (map merge_lanes cs))"
  by (induction cs arbitrary: bs) simp_all

lemma length_buffer_points: "length (buffer_points info) = fb_width info * fb_height info"
  by (simp add: buffer_points_def length_concat comp_def sum_list_triv)

text \<open>The colours of a canvas made from a frame buffer with four bytes for a pixel.\<close>

lemma canvas_new_colors:
  assumes fmt: "pixel_format (fbi fb) \<in> {FormatRgb, FormatBgr}" and bpp: "bytes_per_pixel (fbi fb) = 4"
    and len: "length (fb_bytes fb) = 4 * (fb_width (fbi fb) * fb_height (fbi fb))"
  shows "\<exists>c. canvas_new fb = Inr c \<and> canvas_info c = fbi fb
    \<and> map merge_lanes (map snd (canvas_pixels c))
      = map (\<lambda>i. [fb_bytes fb ! (4 * i), fb_bytes fb ! (4 * i + 1), fb_bytes fb ! (4 * i + 2), 0])
          [0..<fb_width (fbi fb) * fb_height (fbi fb)]"
proof -
  let ?n = "fb_width (fbi fb) * fb_height (fbi fb)" and ?bs = "fb_bytes fb"
  define k where "k = (\<lambda>i. if pixel_format (fbi fb) = FormatRgb
    then Rgb (?bs ! (4 * i)) (?bs ! (4 * i + 1)) (?bs ! (4 * i + 2))
    else Bgr (?bs ! (4 * i + 2)) (?bs ! (4 * i + 1)) (?bs ! (4 * i)))"
  have chan: "step_by 4 (drop j ?bs) = map (\<lambda>i. ?bs ! (4 * i + j)) [0..<?n]" if "j < 4" for j
    using step_by_nth [OF len that] .
  have "buffer_color fb = Inr (map (\<lambda>i. Inr (k i)) [0..<?n])"
    using fmt chan [of 0] chan [of 1] chan [of 2] bpp
    by (auto simp: buffer_color_def Let_def zip_map_map zip_same_conv_map from_framebuffer_def k_def comp_def)
  moreover define ps where "ps = map (\<lambda>(pt, i). (pt, k i)) (zip (buffer_points (fbi fb)) [0..<?n])"
  ultimately have "buffer_pixels fb = Inr ps"
    by (simp add: buffer_pixels_def zip_map2 comp_def split_beta collect_Inr)
  moreover have "map snd ps = map k [0..<?n]"
    unfolding ps_def by (rule nth_equalityI) (simp_all add: length_buffer_points)
  then have "map merge_lanes (map snd ps)
      = map (\<lambda>i. [?bs ! (4 * i), ?bs ! (4 * i + 1), ?bs ! (4 * i + 2), 0]) [0..<?n]"
    by (simp only: map_map) (simp add: k_def comp_def)
  ultimately show ?thesis by (auto simp: canvas_new_def simp del: map_map)
qed

text \<open>Where a point lies, and what a colour becomes on a canvas.\<close>

definition point_index :: "fb_info \<Rightarrow> point \<Rightarrow> nat" where
  "point_index info pt = nat (sint (snd pt)) * fb_stride info + nat (sint (fst pt))"

definition recolor :: "fb_info \<Rightarrow> PixelColorKind \<Rightarrow> PixelColorKind" where
  "recolor info c = (case color_rgb c of (r, g, b) \<Rightarrow>
     (case pixel_format info of FormatRgb \<Rightarrow> Rgb r g b | FormatBgr \<Rightarrow> Bgr r g b | _ \<Rightarrow> U8 (luma r g b)))"

lemma unat_scast_nonneg:
  fixes x :: i32
  assumes "0 \<le> sint x"
  shows "unat (scast x :: u64) = nat (sint x)" "nat (sint x) < 2 ^ 31"
proof -
  have "sint x < 2 ^ 31" using sint_lt [of x] by simp
  then show "nat (sint x) < 2 ^ 31" using assms by (simp add: nat_less_iff)
  have "uint (scast x :: u64) = sint x mod 2 ^ 64"
    by (simp only: scast_eq uint_word_of_int) simp
  then show "unat (scast x :: u64) = nat (sint x)"
    using assms \<open>sint x < 2 ^ 31\<close> by (simp only: unat_eq_nat_uint) (simp add: mod_pos_pos_trivial)
qed

lemma pixel_offset_run:
  assumes "0 \<le> sint (fst pt)" "0 \<le> sint (snd pt)" and "fb_stride info < 2 ^ 32"
  shows "pixel_offset info pt = Inr (point_index info pt)"
proof -
  note x = unat_scast_nonneg [OF assms(1)] and y = unat_scast_nonneg [OF assms(2)]
  have s: "unat (of_nat (fb_stride info) :: u64) = fb_stride info" using assms(3) by (simp add: unat_of_nat)
  have "nat (sint (snd pt)) * fb_stride info \<le> (2 ^ 31 - 1) * (2 ^ 32 - 1)"
    using y(2) assms(3) by (intro mult_mono) auto
  then have "point_index info pt < 2 ^ 64" "nat (sint (snd pt)) * fb_stride info < 2 ^ 64"
    using x(2) by (simp_all add: point_index_def)
  then show ?thesis
    using x(1) y(1) s by (simp add: pixel_offset_def mul_ck_def add_ck_def point_index_def unat_word_ariths)
qed

lemma draw_pixel_run:
  assumes "0 \<le> sint (fst (fst p))" "0 \<le> sint (snd (fst p))" and "fb_stride (canvas_info c) < 2 ^ 32"
    and "pixel_format (canvas_info c) \<noteq> FormatUnknown"
    and "point_index (canvas_info c) (fst p) < length (canvas_pixels c)"
  shows "draw_pixel p c = Inr (c\<lparr>canvas_pixels :=
    (canvas_pixels c)[point_index (canvas_info c) (fst p) := (fst p, recolor (canvas_info c) (snd p))]\<rparr>)"
  using assms(4,5)
  by (cases "color_rgb (snd p)"; cases "pixel_format (canvas_info c)")
    (simp_all add: draw_pixel_def pixel_offset_run [OF assms(1-3)] from_framebuffer_def recolor_def slice_set_def)

definition store_at :: "fb_info \<Rightarrow> pixel \<Rightarrow> pixel list \<Rightarrow> pixel list" where
  "store_at info p xs = xs[point_index info (fst p) := (fst p, recolor info (snd p))]"

lemma length_fold_store_at: "length (fold (store_at info) ps xs) = length xs"
  by (induction ps arbitrary: xs) (simp_all add: store_at_def)

lemma nth_store_at:
  "i < length xs \<Longrightarrow> store_at info p xs ! i
    = (if point_index info (fst p) = i then (fst p, recolor info (snd p)) else xs ! i)"
  by (simp add: store_at_def)

lemma draw_iter_Cons: "draw_iter (p # ps) c = rbind (draw_pixel p c) (draw_iter ps)"
  by (cases "draw_pixel p c") (simp_all add: draw_iter_def)

lemma draw_iter_fold:
  assumes "fb_stride (canvas_info c) < 2 ^ 32" and "pixel_format (canvas_info c) \<noteq> FormatUnknown"
    and "\<forall>p \<in> set ps. 0 \<le> sint (fst (fst p)) \<and> 0 \<le> sint (snd (fst p))
      \<and> point_index (canvas_info c) (fst p) < length (canvas_pixels c)"
  shows "draw_iter ps c = Inr (c\<lparr>canvas_pixels := fold (store_at (canvas_info c)) ps (canvas_pixels c)\<rparr>)"
  using assms
proof (induction ps arbitrary: c)
  case Nil
  show ?case unfolding draw_iter_def for_each.simps fold.simps id_apply by (cases c) simp
next
  case (Cons p ps)
  let ?c = "c\<lparr>canvas_pixels := store_at (canvas_info c) p (canvas_pixels c)\<rparr>"
  have step: "draw_pixel p c = Inr ?c"
    unfolding store_at_def by (rule draw_pixel_run) (use Cons.prems in simp_all)
  have info: "canvas_info ?c = canvas_info c" and len: "length (canvas_pixels ?c) = length (canvas_pixels c)"
    by (simp_all add: store_at_def)
  have "draw_iter ps ?c = Inr (?c\<lparr>canvas_pixels := fold (store_at (canvas_info ?c)) ps (canvas_pixels ?c)\<rparr>)"
    by (rule Cons.IH; simp only: info len) (use Cons.prems in simp_all)
  then show ?case by (simp only: draw_iter_Cons step rbind_Inr) simp
qed

lemma fold_store_at_last:
  assumes "i < length xs"
  shows "fold (store_at info) ps xs ! i
    = (case find (\<lambda>p. point_index info (fst p) = i) (rev ps) of
         Some p \<Rightarrow> (fst p, recolor info (snd p)) | None \<Rightarrow> xs ! i)"
proof (induction ps rule: rev_induct)
  case (snoc p ps)
  then show ?case using assms
    by (simp add: nth_store_at length_fold_store_at)
qed simp

lemma blend_steps:
  assumes "length me = 15" "length other = 15" and "alpha = Some a" "0 \<le> a" "a \<le> 1" and "\<forall>i \<in> set is. i < 15"
  shows "\<exists>me'. for_each (pixelx16_blend_at alpha other) is me = Inr me' \<and> length me' = 15"
  using assms(1,6)
proof (induction "is" arbitrary: me)
  case (Cons i "is")
  obtain pt c pt' c' where "me ! i = (pt, c)" "other ! i = (pt', c')" by fastforce
  moreover obtain c'' where "alpha_blend alpha c c' = Inr c''"
    using assms(3-5) by (simp add: alpha_blend_def Let_def)
  ultimately have "pixelx16_blend_at alpha other i me = Inr (me[i := (pt, c'')])"
    using Cons.prems assms(2) by (simp add: pixelx16_blend_at_def slice_get_def slice_set_def)
  then show ?case using Cons.IH [of "me[i := (pt, c'')]"] Cons.prems by simp
qed simp

lemma round_half_even_of_int [simp]: "round_half_even (of_int k) = k"
  by (simp add: round_half_even_def)

lemma exponent_bounds:
  assumes "1 \<le> q" "q < 2 ^ k" "k \<le> n"
  shows "0 \<le> exponent n q \<and> exponent n q < max 1 (int k)"
  using assms
proof (induction n arbitrary: q k)
  case (Suc n)
  show ?case
  proof (cases "2 \<le> q")
    case True
    then obtain k' where k: "k = Suc k'" using Suc.prems by (cases k) auto
    with True have "k' \<noteq> 0" using Suc.prems by (cases k') auto
    with True k show ?thesis using Suc.IH [of "q / 2" k'] Suc.prems by (auto simp: field_simps)
  next
    case False
    then show ?thesis using Suc.prems by simp
  qed
qed simp

text \<open>Bytes are numbers of the format.\<close>

lemma round_f32_byte: "round_f32 (of_nat (unat (x :: u8))) = of_nat (unat x)"
proof (cases "unat x = 0")
  case True
  then show ?thesis by (simp add: round_f32_def)
next
  case False
  let ?q = "of_nat (unat x) :: rat"
  have lt: "unat x < 256" using unsigned_less [of x] by simp
  have "1 \<le> ?q" using False by (metis One_nat_def Suc_leI neq0_conv of_nat_1 of_nat_mono)
  moreover have "?q < 2 ^ 8"
    using lt of_nat_less_iff [where 'a = rat, of "unat x" 256] by simp
  ultimately have e: "0 \<le> exponent 300 ?q" "exponent 300 ?q < 8" using exponent_bounds [of ?q 8 300] by auto
  define m where "m = nat (23 - exponent 300 ?q)"
  have "max (exponent 300 ?q - 23) (- 149) = - int m" using e by (simp add: m_def)
  moreover have "?q / 2 powi (- int m) = of_int (int (unat x) * 2 ^ m)" by (simp add: power_int_minus field_simps)
  moreover have "of_int (int (unat x) * 2 ^ m) * 2 powi (- int m) = ?q" by (simp add: power_int_minus field_simps)
  ultimately show ?thesis using False by (simp only: round_f32_def Let_def round_half_even_of_int) simp
qed

lemma f32_to_u8_byte: "f32_to_u8 (of_nat (unat (x :: u8))) = x"
proof -
  have "unat x < 256" using unsigned_less [of x] by simp
  then have "int (unat x) \<le> 255" by linarith
  then have "f32_to_u8 (of_nat (unat x)) = of_int (int (unat x))"
    unfolding f32_to_u8_def floor_of_nat by (simp only: min_absorb2 max_absorb2 of_nat_0_le_iff)
  also have "\<dots> = x" by simp
  finally show ?thesis .
qed

lemma round_f32_ends [simp]: "round_f32 1 = 1" "round_f32 0 = 0"
  using round_f32_byte [of 1] round_f32_byte [of 0] by simp_all

lemmas byte_simps = round_f32_byte [simplified] f32_to_u8_byte [simplified]

lemma blend_lane_ends: "blend_lane 1 x y = x" "blend_lane 0 x y = y"
  by (simp_all add: blend_lane_def byte_simps)

lemma blend_chunks_panic:
  assumes "16 \<le> length own" "16 \<le> length other" and "0 \<le> a" "a \<le> 1"
  shows "blend_chunks (Some a) own other idx new = Inl (Panic IndexOutOfBounds)"
proof -
  let ?me = "take 15 own" and ?other = "take 15 other"
  obtain me' where me': "for_each (pixelx16_blend_at (Some a) ?other) [0..<15] ?me = Inr me'" "length me' = 15"
    using blend_steps [of ?me ?other "Some a" a "[0..<15]"] assms by auto
  have "[0..<16] = [0..<15] @ [15]" by (simp add: upt_rec)
  then have "for_each (pixelx16_blend_at (Some a) ?other) [0..<16] ?me = pixelx16_blend_at (Some a) ?other 15 me'"
    using me'(1) by (cases "pixelx16_blend_at (Some a) ?other 15 me'") (simp_all add: for_each_append)
  also have "\<dots> = Inl (Panic IndexOutOfBounds)" using me'(2) by (simp add: pixelx16_blend_at_def slice_get_def)
  finally have "pixelx16_alpha_blend (Some a) (take 16 own) (take 16 other) = Inl (Panic IndexOutOfBounds)"
    by (simp add: pixelx16_alpha_blend_def pixelx16_as_slice_def)
  then show ?thesis using assms by (simp add: blend_chunks.simps [of _ own] pixelx16_from_slice_def)
qed

text \<open>A processor with all features, a screen of two by one pixels and a canvas on it.\<close>

definition example_avx :: avx_env where
  "example_avx = \<lparr>has_info = True, has_sse_any = True, has_avx = True, EMULATE_COPROCESSOR = 4,
     MONITOR_COPROCESSOR = 2, OSFXSR = 512, OSXMMEXCPT_ENABLE = 1024\<rparr>"

definition example_fb :: framebuffer where
  "example_fb = \<lparr>fbi = \<lparr>fb_width = 2, fb_height = 1, fb_stride = 2, bytes_per_pixel = 4, pixel_format = FormatBgr\<rparr>,
     fb_bytes = [1, 2, 3, 4, 5, 6, 7, 8]\<rparr>"

definition example_canvas :: canvas where
  "example_canvas = \<lparr>canvas_pixels = [((0, 0), Bgr 3 2 1), ((1, 0), Bgr 7 6 5)], canvas_info = fbi example_fb\<rparr>"

section \<open>Properties\<close>



text \<open>C31. Drawing pixels that lie on the canvas stores, at every position, the last pixel drawn there
  in the canvas's own format, and leaves all other positions alone; it never panics.\<close>

theorem draw_iter_stores_last:
  assumes "fb_stride (canvas_info c) < 2 ^ 32" and "pixel_format (canvas_info c) \<noteq> FormatUnknown"
    and "\<forall>p \<in> set ps. 0 \<le> sint (fst (fst p)) \<and> 0 \<le> sint (snd (fst p))
      \<and> point_index (canvas_info c) (fst p) < length (canvas_pixels c)"
  shows "\<exists>c'. draw_iter ps c = Inr c' \<and> canvas_info c' = canvas_info c
    \<and> length (canvas_pixels c') = length (canvas_pixels c)
    \<and> (\<forall>i < length (canvas_pixels c). canvas_pixels c' ! i =
        (case find (\<lambda>p. point_index (canvas_info c) (fst p) = i) (rev ps) of
           Some p \<Rightarrow> (fst p, recolor (canvas_info c) (snd p))
         | None \<Rightarrow> canvas_pixels c ! i))"
proof -
  let ?c = "c\<lparr>canvas_pixels := fold (store_at (canvas_info c)) ps (canvas_pixels c)\<rparr>"
  have "canvas_pixels ?c ! i = (case find (\<lambda>p. point_index (canvas_info c) (fst p) = i) (rev ps) of
      Some p \<Rightarrow> (fst p, recolor (canvas_info c) (snd p)) | None \<Rightarrow> canvas_pixels c ! i)"
    if "i < length (canvas_pixels c)" for i
    using fold_store_at_last [OF that, of "canvas_info c" ps] by simp
  moreover have "canvas_info ?c = canvas_info c" "length (canvas_pixels ?c) = length (canvas_pixels c)"
    by (simp_all add: length_fold_store_at)
  ultimately show ?thesis using draw_iter_fold [OF assms] by blast
qed

theorem draw_iter_stores_last_witness:
  "\<exists>c. draw_iter [((1, 0), Rgb 9 8 7), ((1, 0), Rgb 4 5 6)] example_canvas = Inr c
    \<and> canvas_pixels c ! 0 = ((0, 0), Bgr 3 2 1) \<and> canvas_pixels c ! 1 = ((1, 0), Bgr 4 5 6)"
  using draw_iter_stores_last [of example_canvas "[((1, 0), Rgb 9 8 7), ((1, 0), Rgb 4 5 6)]"]
  by (force simp: example_canvas_def example_fb_def point_index_def recolor_def)

text \<open>Blending at the two ends of the range: with one a colour keeps its own channels, with zero it
  takes those of the other colour. Both hold for the order red, green, blue; a colour in the order blue,
  green, red comes out with red and blue exchanged.\<close>

theorem alpha_blend_ends:
  "alpha_blend (Some 1) (Rgb r g b) other = Inr (Rgb r g b)
   \<and> alpha_blend (Some 0) (Rgb r g b) (Rgb r' g' b') = Inr (Rgb r' g' b')
   \<and> alpha_blend (Some 1) (Bgr r g b) other = Inr (Bgr b g r)
   \<and> alpha_blend (Some 0) (Bgr r g b) (Bgr r' g' b') = Inr (Bgr b' g' r')"
  by (cases other) (simp_all add: alpha_blend_def blend_lane_ends)

text \<open>Blending one canvas over another panics as soon as both have sixteen pixels, and changes no
  pixel before.\<close>

theorem canvas_alpha_blend_panics:
  assumes "avx_ready env" and "0 \<le> a" "a \<le> 1"
  shows "if 16 \<le> length (canvas_pixels c) \<and> 16 \<le> length (canvas_pixels other)
    then canvas_alpha_blend env (Some a) c other r = Inl (Panic IndexOutOfBounds)
    else \<exists>r'. canvas_alpha_blend env (Some a) c other r = Inr (c, r')"
proof -
  obtain r' where "\<And>f :: unit \<Rightarrow> canvas exec. with_avx env f r = rbind (f ()) (\<lambda>x. Inr (x, r'))"
    using with_avx_run [OF assms(1)] by blast
  note run = this
  show ?thesis
  proof (cases "16 \<le> length (canvas_pixels c) \<and> 16 \<le> length (canvas_pixels other)")
    case True
    then show ?thesis using assms by (simp add: canvas_alpha_blend_def run blend_chunks_panic)
  next
    case False
    then have "blend_chunks (Some a) (canvas_pixels c) (canvas_pixels other) 0 (canvas_pixels c) = Inr (canvas_pixels c)"
      by (subst blend_chunks.simps) (simp add: not_le)
    then have "canvas_alpha_blend env (Some a) c other r = Inr (c\<lparr>canvas_pixels := canvas_pixels c\<rparr>, r')"
      unfolding canvas_alpha_blend_def run by simp
    moreover have "c\<lparr>canvas_pixels := canvas_pixels c\<rparr> = c" by (cases c) simp
    ultimately show ?thesis using False by auto
  qed
qed

end
