(* ===== verification/Ahci_Irq.thy ===== *)
theory Ahci_Irq
  imports Ahci
begin

text \<open>
  The interrupt handler of the AHCI controller, \<^verbatim>\<open>ahci\<close> in
  \<^verbatim>\<open>src/src/arch/x86_64/interrupts.rs\<close>: it reads and writes back the status of the controller,
  then that of every started port, and ends the interrupt. The warnings it prints do not change
  anything.

  The driver is what \<^verbatim>\<open>get_ahci\<close> finds: nothing before \<^verbatim>\<open>ahci_init\<close>. \<open>eoi\<close> is
  \<^verbatim>\<open>end_of_interrupt\<close> of the local interrupt controller, a parameter. A status register clears the
  bits that are written as one; \<open>status_registers\<close> states it for a set of registers of a bus.
\<close>

section \<open>Definitions\<close>

definition ahci_irq ::
  "('m, 'd) menv \<Rightarrow> (('m, 'd) mstate, unit) act \<Rightarrow> ahci_ctrl option \<Rightarrow> (('m, 'd) mstate, unit) act" where
  "ahci_irq env eoi driver =
     sbind (pure_exec (expect driver)) (\<lambda>c.
     sbind (get_field env HbaMemory (ctrl_hba c) ''interrupt_status'') (\<lambda>st.
     sthen (set_field env HbaMemory (ctrl_hba c) ''interrupt_status'' st)
     (sthen (for_act (\<lambda>p. write_back env (port_address p) ''is'') (List.map_filter id (ctrl_ports c)))
      eoi)))"

section \<open>Status registers\<close>

text \<open>\<open>view d a\<close> is the value of the register at \<open>a\<close>.\<close>

definition status_registers :: "u64 set \<Rightarrow> 'd bus_ops \<Rightarrow> ('d \<Rightarrow> u64 \<Rightarrow> u32) \<Rightarrow> bool" where
  "status_registers A bus view \<longleftrightarrow> (\<forall>a \<in> A. \<forall>d. bus_read bus 4 a d = (ucast (view d a), d)
     \<and> (\<forall>v. view (bus_write bus 4 a v d) = (view d)(a := view d a AND NOT (ucast v))))"

definition hba_status :: "ahci_ctrl \<Rightarrow> u64" where
  "hba_status c = ctrl_hba c + 8"

definition port_status :: "ahci_port \<Rightarrow> u64" where
  "port_status p = port_address p + 16"

definition status_of :: "ahci_ctrl \<Rightarrow> u64 set" where
  "status_of c = insert (hba_status c) (port_status ` set (List.map_filter id (ctrl_ports c)))"

lemma status_layout [simp]:
  "field_offset HbaMemory ''interrupt_status'' = 8" "field_size HbaMemory ''interrupt_status'' = 4"
  "field_offset HbaPort ''is'' = 16" "field_size HbaPort ''is'' = 4"
  by (simp_all add: field_offset_def field_size_def HbaMemory_def HbaPort_def align_up_def)

text \<open>Reading such a register and writing the value back clears it and no other.\<close>

definition clear_status :: "'d bus_ops \<Rightarrow> u64 \<Rightarrow> 'd \<Rightarrow> 'd" where
  "clear_status bus a d = bus_write bus 4 a (fst (bus_read bus 4 a d)) d"

lemma and_not_self: "(x :: u32) AND NOT (ucast (ucast x :: u64)) = 0"
  by (rule bit_word_eqI) (simp add: bit_simps)

lemma clear_status_view:
  assumes "status_registers A bus view" "a \<in> A"
  shows "view (clear_status bus a d) = (view d)(a := 0)"
  using assms by (simp add: clear_status_def status_registers_def and_not_self)

lemma clear_status_all:
  assumes "status_registers A bus view" "set as \<subseteq> A"
  shows "view (fold (clear_status bus) as d) = (\<lambda>a. if a \<in> set as then 0 else view d a)"
  using assms(2)
proof (induction as arbitrary: d)
  case (Cons a as)
  then show ?case using clear_status_view [OF assms(1), of a d] by (auto simp: fun_eq_iff)
qed simp

lemma write_back_run:
  assumes "status_registers A (mbus env) view" "port_status p \<in> A"
  shows "write_back env (port_address p) ''is'' st
    = Inr ((), st\<lparr>mdev := clear_status (mbus env) (port_status p) (mdev st)\<rparr>)"
  using assms
  by (simp add: write_back_def get_field_def set_field_def rd_def wr_def act_simps clear_status_def
      status_registers_def port_status_def)

lemma write_back_all:
  assumes "status_registers A (mbus env) view" "port_status ` set ps \<subseteq> A"
  shows "for_act (\<lambda>p. write_back env (port_address p) ''is'') ps st
    = Inr ((), st\<lparr>mdev := fold (clear_status (mbus env)) (map port_status ps) (mdev st)\<rparr>)"
  using assms(2)
proof (induction ps arbitrary: st)
  case (Cons p ps)
  then show ?case using write_back_run [OF assms(1), of p st] by (simp add: act_simps)
qed (simp add: act_simps)

section \<open>Properties\<close>


text \<open>A controller with status registers only, one started port and pending interrupts.\<close>

definition status_bus :: "(u64 \<Rightarrow> u32) bus_ops" where
  "status_bus = \<lparr>bus_read = (\<lambda>w a d. (ucast (d a), d)),
     bus_write = (\<lambda>w a v d. d(a := d a AND NOT (ucast v)))\<rparr>"

definition irq_env :: "(unit, u64 \<Rightarrow> u32) menv" where
  "irq_env = \<lparr>mpage = mpage ahci_env, mflags = mflags ahci_env, moffset = 0, mbus = status_bus,
     mbits = ref_bit_ops, mphys_new = (\<lambda>a. Inr a)\<rparr>"

definition irq_ctrl :: ahci_ctrl where
  "irq_ctrl = \<lparr>ctrl_ports = [None, Some (ahci_port_new 0x10180)], ctrl_hba = 0x10000\<rparr>"


end
