(* ===== verification/Exceptions.thy ===== *)
theory Exceptions
  imports Interrupts
begin

text \<open>
  The task state segment and the global descriptor table of
  \<^verbatim>\<open>src/src/arch/x86_64/exceptions.rs\<close>, with the stack index each entry of the interrupt
  descriptor table of \<^verbatim>\<open>interrupts.rs\<close> names.

  The seven \<^verbatim>\<open>static mut STACK\<close> arrays are where the linker puts them: \<open>stack i\<close> is the
  address of the array of slot \<open>i\<close>. The \<^verbatim>\<open>x86_64\<close> crate is a parameter: \<open>vnew\<close> is
  \<^verbatim>\<open>VirtAddr::new\<close>, and \<open>gdt_ops\<close> are \<^verbatim>\<open>GlobalDescriptorTable::new\<close> and \<^verbatim>\<open>add_entry\<close>;
  \<open>gdt_ops_ok\<close> is their documentation: the table has eight slots of which the first is the null
  descriptor, a code or data segment takes one and a system segment two, the selector returned
  is eight times the slot, and \<^verbatim>\<open>add_entry\<close> panics when the slots are used up.
\<close>

section \<open>Definitions\<close>

definition DOUBLE_FAULT_STACK_INDEX :: u16 where "DOUBLE_FAULT_STACK_INDEX = 0"
definition PAGE_FAULT_STACK_INDEX :: u16 where "PAGE_FAULT_STACK_INDEX = 1"
definition INVALID_TSS_STACK_INDEX :: u16 where "INVALID_TSS_STACK_INDEX = 2"
definition DIV_ERR_STACK_INDEX :: u16 where "DIV_ERR_STACK_INDEX = 3"
definition SIGBUS_STACK_INDEX :: u16 where "SIGBUS_STACK_INDEX = 4"
definition SIGSEGV_STACK_INDEX :: u16 where "SIGSEGV_STACK_INDEX = 5"
definition GPF_STACK_INDEX :: u16 where "GPF_STACK_INDEX = 6"

lemmas stack_index_defs =
  DOUBLE_FAULT_STACK_INDEX_def PAGE_FAULT_STACK_INDEX_def INVALID_TSS_STACK_INDEX_def
  DIV_ERR_STACK_INDEX_def SIGBUS_STACK_INDEX_def SIGSEGV_STACK_INDEX_def GPF_STACK_INDEX_def

text \<open>The stack index \<^verbatim>\<open>set_stack_index\<close> gives the handlers of the interrupt descriptor table;
  the other handlers run on the stack that was active.\<close>

fun handler_stack_index :: "idt_handler \<Rightarrow> u16 option" where
  "handler_stack_index h_double_fault = Some DOUBLE_FAULT_STACK_INDEX"
| "handler_stack_index h_page_fault = Some PAGE_FAULT_STACK_INDEX"
| "handler_stack_index h_sigfpe = Some DIV_ERR_STACK_INDEX"
| "handler_stack_index h_invalid_tss = Some INVALID_TSS_STACK_INDEX"
| "handler_stack_index h_sigbus = Some SIGBUS_STACK_INDEX"
| "handler_stack_index h_sigsegv = Some SIGSEGV_STACK_INDEX"
| "handler_stack_index h_general_protection = Some GPF_STACK_INDEX"
| "handler_stack_index h = None"

text \<open>One slot of the interrupt stack table is the end of its array, since the stack grows down.\<close>

definition STACK_LEN :: nat where
  "STACK_LEN = 4096 * 5"

definition stack_top :: "(u64 \<Rightarrow> u64 exec) \<Rightarrow> u64 \<Rightarrow> u64 exec" where
  "stack_top vnew b =
     rbind (vnew b) (\<lambda>v. rbind (add_ck v (of_nat STACK_LEN)) vnew)"

definition tss_stack :: "(u64 \<Rightarrow> u64 exec) \<Rightarrow> (u16 \<Rightarrow> u64) \<Rightarrow> u16 \<Rightarrow> u64 list \<Rightarrow> u64 list exec" where
  "tss_stack vnew stack i ist =
     rbind (stack_top vnew (stack i)) (\<lambda>top. slice_set ist (unat i) top)"

text \<open>\<^verbatim>\<open>TaskStateSegment::new\<close> has seven interrupt stacks, all zero.\<close>

definition TSS :: "(u64 \<Rightarrow> u64 exec) \<Rightarrow> (u16 \<Rightarrow> u64) \<Rightarrow> u64 list exec" where
  "TSS vnew stack =
     for_each (tss_stack vnew stack)
       [DOUBLE_FAULT_STACK_INDEX, PAGE_FAULT_STACK_INDEX, INVALID_TSS_STACK_INDEX,
        DIV_ERR_STACK_INDEX, SIGBUS_STACK_INDEX, SIGSEGV_STACK_INDEX, GPF_STACK_INDEX]
       (replicate 7 0)"

text \<open>The global descriptor table. A task state descriptor holds the interrupt stacks of the
  segment it points to.\<close>

datatype descriptor = kernel_code_segment | kernel_data_segment | tss_segment "u64 list"

record 'g gdt_ops =
  gdt_new :: 'g
  add_entry :: "descriptor \<Rightarrow> 'g \<Rightarrow> (u16 \<times> 'g) exec"

record Selectors =
  sel_code :: u16
  sel_ds :: u16
  sel_es :: u16
  sel_fs :: u16
  sel_gs :: u16
  sel_tss :: u16

definition GDT ::
  "(u64 \<Rightarrow> u64 exec) \<Rightarrow> 'g gdt_ops \<Rightarrow> (u16 \<Rightarrow> u64) \<Rightarrow> ('g \<times> Selectors) exec" where
  "GDT vnew ops stack =
     rbind (add_entry ops kernel_code_segment (gdt_new ops)) (\<lambda>(code, g).
     rbind (add_entry ops kernel_data_segment g) (\<lambda>(ds, g).
     rbind (add_entry ops kernel_data_segment g) (\<lambda>(es, g).
     rbind (add_entry ops kernel_data_segment g) (\<lambda>(fs, g).
     rbind (add_entry ops kernel_data_segment g) (\<lambda>(gs, g).
     rbind (TSS vnew stack) (\<lambda>tss.
     rbind (add_entry ops (tss_segment tss) g) (\<lambda>(ts, g).
       Inr (g, \<lparr>sel_code = code, sel_ds = ds, sel_es = es, sel_fs = fs, sel_gs = gs,
                sel_tss = ts\<rparr>))))))))"

text \<open>The registers \<^verbatim>\<open>exceptions::init\<close> loads.\<close>

record 'g segment_regs =
  gdtr :: "'g option"
  cs_reg :: u16
  ds_reg :: u16
  es_reg :: u16
  fs_reg :: u16
  gs_reg :: u16
  tr_reg :: u16

definition exceptions_init ::
  "(u64 \<Rightarrow> u64 exec) \<Rightarrow> 'g gdt_ops \<Rightarrow> (u16 \<Rightarrow> u64) \<Rightarrow> 'g segment_regs \<Rightarrow> 'g segment_regs exec" where
  "exceptions_init vnew ops stack r =
     rbind (GDT vnew ops stack) (\<lambda>(g, s).
       Inr (r\<lparr>gdtr := Some g, cs_reg := sel_code s, ds_reg := sel_ds s, es_reg := sel_es s,
              fs_reg := sel_fs s, gs_reg := sel_gs s, tr_reg := sel_tss s\<rparr>))"

section \<open>The crate's contract and the lemmas\<close>

fun descriptor_slots :: "descriptor \<Rightarrow> nat" where
  "descriptor_slots kernel_code_segment = 1"
| "descriptor_slots kernel_data_segment = 1"
| "descriptor_slots (tss_segment t) = 2"

definition gdt_ops_ok ::
  "'g gdt_ops \<Rightarrow> ('g \<Rightarrow> nat) \<Rightarrow> ('g \<Rightarrow> u16 \<rightharpoonup> descriptor) \<Rightarrow> bool" where
  "gdt_ops_ok ops used entry \<longleftrightarrow> used (gdt_new ops) = 1
     \<and> (\<forall>d g. used g + descriptor_slots d \<le> 8 \<longrightarrow>
          (\<exists>g'. add_entry ops d g = Inr (of_nat (8 * used g), g')
             \<and> used g' = used g + descriptor_slots d
             \<and> entry g' = (entry g)(of_nat (8 * used g) \<mapsto> d)))"

definition stacks_ok :: "(u64 \<Rightarrow> u64 exec) \<Rightarrow> (u16 \<Rightarrow> u64) \<Rightarrow> bool" where
  "stacks_ok vnew stack \<longleftrightarrow> (\<forall>a. unat a < 2 ^ 47 \<longrightarrow> vnew a = Inr a)
     \<and> (\<forall>i < 7. unat (stack i) + STACK_LEN < 2 ^ 47)"

definition stack_area :: "(u16 \<Rightarrow> u64) \<Rightarrow> u16 \<Rightarrow> nat set" where
  "stack_area stack i = {unat (stack i)..<unat (stack i) + STACK_LEN}"

lemma add_entry_ok:
  assumes "gdt_ops_ok ops used entry" "used g = n" "n + descriptor_slots d \<le> 8"
  shows "\<exists>g'. add_entry ops d g = Inr (of_nat (8 * n), g') \<and> used g' = n + descriptor_slots d
    \<and> entry g' = (entry g)(of_nat (8 * n) \<mapsto> d)"
  using assms unfolding gdt_ops_ok_def by blast

lemma unat_stack_top:
  assumes "stacks_ok vnew stack" "i < 7"
  shows "unat (stack i + of_nat STACK_LEN) = unat (stack i) + STACK_LEN"
  using assms by (auto simp: stacks_ok_def STACK_LEN_def unat_add_lem [THEN iffD1])

lemma stack_top_ok:
  assumes "stacks_ok vnew stack" "i < 7"
  shows "stack_top vnew (stack i) = Inr (stack i + of_nat STACK_LEN)"
proof -
  have b: "unat (stack i) + STACK_LEN < 2 ^ 47" and v: "\<And>a. unat a < 2 ^ 47 \<Longrightarrow> vnew a = Inr a"
    using assms by (auto simp: stacks_ok_def)
  have "add_ck (stack i) (of_nat STACK_LEN) = Inr (stack i + of_nat STACK_LEN)"
    using b by (simp add: add_ck_def STACK_LEN_def)
  then show ?thesis
    using v [of "stack i"] v [of "stack i + of_nat STACK_LEN"] unat_stack_top [OF assms] b
    by (simp add: stack_top_def rbind_def)
qed

lemma stack_slots:
  assumes "i < (7 :: u16)"
  shows "i \<in> {0, 1, 2, 3, 4, 5, 6}"
proof -
  have "unat i < 7" using assms by (simp add: word_less_nat_alt)
  then have "unat i \<in> {0, 1, 2, 3, 4, 5, 6}" by auto
  then show ?thesis by (simp add: word_unat_eq_iff)
qed

lemma replicate_7: "replicate 7 x = [x, x, x, x, x, x, x]"
  by (simp add: eval_nat_numeral)

lemma TSS_ok:
  assumes "stacks_ok vnew stack"
  shows "TSS vnew stack = Inr (map (\<lambda>i. stack i + of_nat STACK_LEN) [0, 1, 2, 3, 4, 5, 6])"
proof -
  have "stack_top vnew (stack i) = Inr (stack i + of_nat STACK_LEN)"
    if "i \<in> {0, 1, 2, 3, 4, 5, 6}" for i :: u16
    using that stack_top_ok [OF assms, of i] by (auto simp: word_less_nat_alt)
  then show ?thesis
    by (simp add: TSS_def tss_stack_def stack_index_defs rbind_def slice_set_def replicate_7)
qed

lemma handler_stack_index_lt:
  "handler_stack_index h = Some i \<Longrightarrow> i < 7"
  by (cases h) (auto simp: stack_index_defs)

lemma handler_stack_index_inj:
  "handler_stack_index h = Some i \<Longrightarrow> handler_stack_index h' = Some i \<Longrightarrow> h = h'"
  by (cases h; cases h') (simp_all add: stack_index_defs)

lemma exceptions_init_run:
  assumes "stacks_ok vnew stack" and "gdt_ops_ok ops used entry"
  obtains g t where "TSS vnew stack = Inr t" "used g = 8"
    "exceptions_init vnew ops stack r
      = Inr (r\<lparr>gdtr := Some g, cs_reg := 8, ds_reg := 16, es_reg := 24, fs_reg := 32,
          gs_reg := 40, tr_reg := 48\<rparr>)"
    "entry g = (entry (gdt_new ops))(8 \<mapsto> kernel_code_segment, 16 \<mapsto> kernel_data_segment,
      24 \<mapsto> kernel_data_segment, 32 \<mapsto> kernel_data_segment, 40 \<mapsto> kernel_data_segment,
      48 \<mapsto> tss_segment t)"
proof -
  have u0: "used (gdt_new ops) = 1" using assms(2) by (simp add: gdt_ops_ok_def)
  obtain t where t: "TSS vnew stack = Inr t" using TSS_ok [OF assms(1)] by blast
  note step = add_entry_ok [OF assms(2), simplified of_nat_mult]
  obtain g1 where g1: "add_entry ops kernel_code_segment (gdt_new ops) = Inr (8, g1)"
    "used g1 = 2" "entry g1 = (entry (gdt_new ops))(8 \<mapsto> kernel_code_segment)"
    using step [OF u0, of kernel_code_segment] by force
  obtain g2 where g2: "add_entry ops kernel_data_segment g1 = Inr (16, g2)"
    "used g2 = 3" "entry g2 = (entry g1)(16 \<mapsto> kernel_data_segment)"
    using step [OF g1(2), of kernel_data_segment] by force
  obtain g3 where g3: "add_entry ops kernel_data_segment g2 = Inr (24, g3)"
    "used g3 = 4" "entry g3 = (entry g2)(24 \<mapsto> kernel_data_segment)"
    using step [OF g2(2), of kernel_data_segment] by force
  obtain g4 where g4: "add_entry ops kernel_data_segment g3 = Inr (32, g4)"
    "used g4 = 5" "entry g4 = (entry g3)(32 \<mapsto> kernel_data_segment)"
    using step [OF g3(2), of kernel_data_segment] by force
  obtain g5 where g5: "add_entry ops kernel_data_segment g4 = Inr (40, g5)"
    "used g5 = 6" "entry g5 = (entry g4)(40 \<mapsto> kernel_data_segment)"
    using step [OF g4(2), of kernel_data_segment] by force
  obtain g6 where g6: "add_entry ops (tss_segment t) g5 = Inr (48, g6)"
    "used g6 = 8" "entry g6 = (entry g5)(48 \<mapsto> tss_segment t)"
    using step [OF g5(2), of "tss_segment t"] by force
  have "exceptions_init vnew ops stack r
      = Inr (r\<lparr>gdtr := Some g6, cs_reg := 8, ds_reg := 16, es_reg := 24, fs_reg := 32,
          gs_reg := 40, tr_reg := 48\<rparr>)"
    by (simp add: exceptions_init_def GDT_def rbind_def t g1(1) g2(1) g3(1) g4(1) g5(1) g6(1))
  moreover have "entry g6 = (entry (gdt_new ops))(8 \<mapsto> kernel_code_segment,
      16 \<mapsto> kernel_data_segment, 24 \<mapsto> kernel_data_segment, 32 \<mapsto> kernel_data_segment,
      40 \<mapsto> kernel_data_segment, 48 \<mapsto> tss_segment t)"
    by (simp only: g1(3) g2(3) g3(3) g4(3) g5(3) g6(3))
  ultimately show thesis using that t g6(2) by blast
qed

section \<open>Properties\<close>

text \<open>C32. The task state segment gives every fault handler that names a stack the end of a
  20 KiB array of its own: the index is within the table, the entry is the end of that array,
  and two different handlers never share a byte of stack.\<close>

theorem fault_stacks_private:
  assumes "stacks_ok vnew stack"
    and "\<forall>i < 7. \<forall>j < 7. i \<noteq> j \<longrightarrow> stack_area stack i \<inter> stack_area stack j = {}"
  shows "\<exists>t. TSS vnew stack = Inr t \<and> length t = 7
     \<and> (\<forall>h i. handler_stack_index h = Some i \<longrightarrow> unat i < 7
          \<and> stack_area stack i = {unat (t ! unat i) - STACK_LEN..<unat (t ! unat i)})
     \<and> (\<forall>h h' i j. handler_stack_index h = Some i \<and> handler_stack_index h' = Some j \<and> h \<noteq> h'
          \<longrightarrow> stack_area stack i \<inter> stack_area stack j = {})"
proof -
  let ?t = "map (\<lambda>i. stack i + of_nat STACK_LEN) [0, 1, 2, 3, 4, 5, 6]"
  have nth: "?t ! unat i = stack i + of_nat STACK_LEN" if "i < 7" for i :: u16
    using stack_slots [OF that] by auto
  have "unat i < 7 \<and> stack_area stack i = {unat (?t ! unat i) - STACK_LEN..<unat (?t ! unat i)}"
    if "handler_stack_index h = Some i" for h i
    using handler_stack_index_lt [OF that] unat_stack_top [OF assms(1), of i] nth [of i]
    by (simp add: word_less_nat_alt stack_area_def)
  moreover have "stack_area stack i \<inter> stack_area stack j = {}"
    if "handler_stack_index h = Some i" "handler_stack_index h' = Some j" "h \<noteq> h'" for h h' i j
    using that assms(2) handler_stack_index_inj handler_stack_index_lt by metis
  moreover have "length ?t = 7" by simp
  ultimately show ?thesis using TSS_ok [OF assms(1)] by blast
qed

theorem fault_stacks_private_witness:
  "\<exists>t. TSS Inr (\<lambda>i. 0x200000 + ucast i * 0x5000) = Inr t \<and> length t = 7
     \<and> (\<forall>h i. handler_stack_index h = Some i \<longrightarrow> unat i < 7
          \<and> stack_area (\<lambda>i. 0x200000 + ucast i * 0x5000) i
            = {unat (t ! unat i) - STACK_LEN..<unat (t ! unat i)})
     \<and> (\<forall>h h' i j. handler_stack_index h = Some i \<and> handler_stack_index h' = Some j \<and> h \<noteq> h'
          \<longrightarrow> stack_area (\<lambda>i. 0x200000 + ucast i * 0x5000) i
              \<inter> stack_area (\<lambda>i. 0x200000 + ucast i * 0x5000) j = {})"
proof (rule fault_stacks_private)
  have u: "unat (0x200000 + ucast i * 0x5000 :: u64) = 0x200000 + unat i * 0x5000"
    if "i < 7" for i :: u16
    using stack_slots [OF that] by auto
  then show "stacks_ok Inr (\<lambda>i. 0x200000 + ucast i * 0x5000)"
    by (auto simp: stacks_ok_def STACK_LEN_def word_less_nat_alt)
  show "\<forall>i < 7. \<forall>j < 7. i \<noteq> j \<longrightarrow> stack_area (\<lambda>i. 0x200000 + ucast i * 0x5000) i
      \<inter> stack_area (\<lambda>i. 0x200000 + ucast i * 0x5000) j = {}"
  proof (intro allI impI)
    fix i j :: u16 assume ij: "i < 7" "j < 7" "i \<noteq> j"
    have "unat i + 1 \<le> unat j \<or> unat j + 1 \<le> unat i"
      using ij(3) unfolding word_unat_eq_iff by linarith
    then have "(unat i + 1) * 0x5000 \<le> unat j * 0x5000 \<or> (unat j + 1) * 0x5000 \<le> unat i * 0x5000"
      using mult_le_mono1 by blast
    then show "stack_area (\<lambda>i. 0x200000 + ucast i * 0x5000) i
        \<inter> stack_area (\<lambda>i. 0x200000 + ucast i * 0x5000) j = {}"
      using u [OF ij(1)] u [OF ij(2)] by (auto simp: stack_area_def STACK_LEN_def)
  qed
qed

text \<open>\<^verbatim>\<open>exceptions::init\<close> never panics: the six descriptors fit into the table exactly, and
  afterwards the code segment register selects the kernel's code segment, each data segment
  register a kernel data segment, and the task register the task state segment with the fault
  stacks.\<close>

theorem exceptions_init_loads:
  assumes "stacks_ok vnew stack" and "gdt_ops_ok ops used entry"
  shows "\<exists>r' g t. exceptions_init vnew ops stack r = Inr r' \<and> gdtr r' = Some g
     \<and> TSS vnew stack = Inr t \<and> used g = 8
     \<and> entry g (cs_reg r') = Some kernel_code_segment
     \<and> (\<forall>s \<in> {ds_reg r', es_reg r', fs_reg r', gs_reg r'}. entry g s = Some kernel_data_segment)
     \<and> entry g (tr_reg r') = Some (tss_segment t)
     \<and> distinct [cs_reg r', ds_reg r', es_reg r', fs_reg r', gs_reg r', tr_reg r']"
proof -
  obtain g t where "TSS vnew stack = Inr t" "used g = 8" and
    "exceptions_init vnew ops stack r
      = Inr (r\<lparr>gdtr := Some g, cs_reg := 8, ds_reg := 16, es_reg := 24, fs_reg := 32,
          gs_reg := 40, tr_reg := 48\<rparr>)" and
    "entry g = (entry (gdt_new ops))(8 \<mapsto> kernel_code_segment, 16 \<mapsto> kernel_data_segment,
      24 \<mapsto> kernel_data_segment, 32 \<mapsto> kernel_data_segment, 40 \<mapsto> kernel_data_segment,
      48 \<mapsto> tss_segment t)"
    by (rule exceptions_init_run [OF assms])
  then show ?thesis by simp
qed

text \<open>A table as the crate keeps it: the next free slot and the descriptors by selector.\<close>

definition list_gdt :: "(nat \<times> (u16 \<rightharpoonup> descriptor)) gdt_ops" where
  "list_gdt = \<lparr>gdt_new = (1, Map.empty),
     add_entry = (\<lambda>d (n, m). if n + descriptor_slots d \<le> 8
        then Inr (of_nat (8 * n), (n + descriptor_slots d, m(of_nat (8 * n) \<mapsto> d)))
        else Inl (Panic ExplicitPanic))\<rparr>"

theorem exceptions_init_loads_witness:
  "\<exists>r' g t. exceptions_init Inr list_gdt (\<lambda>_. 0x200000)
        \<lparr>gdtr = None, cs_reg = 0, ds_reg = 0, es_reg = 0, fs_reg = 0, gs_reg = 0, tr_reg = 0\<rparr>
        = Inr r' \<and> gdtr r' = Some g
     \<and> TSS Inr (\<lambda>_. 0x200000) = Inr t \<and> fst g = 8
     \<and> snd g (cs_reg r') = Some kernel_code_segment
     \<and> (\<forall>s \<in> {ds_reg r', es_reg r', fs_reg r', gs_reg r'}. snd g s = Some kernel_data_segment)
     \<and> snd g (tr_reg r') = Some (tss_segment t)
     \<and> distinct [cs_reg r', ds_reg r', es_reg r', fs_reg r', gs_reg r', tr_reg r']"
  by (rule exceptions_init_loads)
    (auto simp: stacks_ok_def STACK_LEN_def gdt_ops_ok_def list_gdt_def)

end
