(* ===== verification/Irq_Dispatch.thy ===== *)
theory Irq_Dispatch
  imports Ahci_Irq Exceptions
begin

text \<open>
  From an interrupt to its handler. \<open>Interrupts\<close> has the table and the handlers for faults,
  \<open>Ahci_Irq\<close> the handler of the disk controller; here are the handlers of
  \<^verbatim>\<open>src/arch/x86_64/interrupts.rs\<close> that only acknowledge, the breakpoint, and the \<^verbatim>\<open>msi_x\<close> handler of
  \<^verbatim>\<open>src/drivers/pci_impl.rs\<close>, and the processor's way to all of them.

  \<open>irq_world\<close> is what handlers change: processes and scheduler, the machine, and how often
  \<^verbatim>\<open>end_of_interrupt\<close> was called on the local interrupt controller. \<open>irq_frame\<close> is what the processor
  passes: the code segment of the interrupted code, whether the error code is empty, the faulting
  address. \<open>deliver\<close> is the processor: it takes the handler from the loaded table, and an empty entry
  is the fault \<^verbatim>\<open>#NP\<close>, vector 11.
\<close>

section \<open>Handlers\<close>

record ('m, 'd, 'f, 'e) irq_world =
  iw_sched :: "('f, 'e) sched"
  iw_machine :: "('m, 'd) mstate"
  iw_eois :: nat

record ('m, 'd) dispatch_env =
  ie_machine :: "('m, 'd) menv"
  ie_locks :: lock_ops
  ie_errno :: perrno
  ie_lapic_ids :: "u32 list"
  ie_ahci :: "ahci_ctrl option"
  ie_cs :: u16
  ie_rip :: u64
  ie_code :: "u64 \<Rightarrow> u8"

record irq_frame =
  code_segment :: u64
  code_empty :: bool
  fault_address :: u64

text \<open>\<^verbatim>\<open>rpl\<close> of a selector is its two lowest bits.\<close>

definition rpl :: "u16 \<Rightarrow> privilege" where
  "rpl sel = (if sel AND 3 = 0 then Ring0 else if sel AND 3 = 1 then Ring1
     else if sel AND 3 = 2 then Ring2 else Ring3)"

definition current_privilege_level :: "irq_frame \<Rightarrow> privilege" where
  "current_privilege_level frame = rpl (ucast (code_segment frame))"

definition end_of_interrupt :: "('m, 'd, 'f, 'e) irq_world \<Rightarrow> ('m, 'd, 'f, 'e) irq_world" where
  "end_of_interrupt w = w\<lparr>iw_eois := iw_eois w + 1\<rparr>"

definition spurious :: "('m, 'd, 'f, 'e) irq_world \<Rightarrow> ('m, 'd, 'f, 'e) irq_world exec" where
  "spurious w = Inr (end_of_interrupt w)"

definition lapic_err :: "('m, 'd, 'f, 'e) irq_world \<Rightarrow> ('m, 'd, 'f, 'e) irq_world exec" where
  "lapic_err w = Inr (end_of_interrupt w)"

definition pin_inta :: "('m, 'd, 'f, 'e) irq_world \<Rightarrow> ('m, 'd, 'f, 'e) irq_world exec" where
  "pin_inta w = Inr (end_of_interrupt w)"

definition pin_intb :: "('m, 'd, 'f, 'e) irq_world \<Rightarrow> ('m, 'd, 'f, 'e) irq_world exec" where
  "pin_intb w = Inr (end_of_interrupt w)"

definition pin_intc :: "('m, 'd, 'f, 'e) irq_world \<Rightarrow> ('m, 'd, 'f, 'e) irq_world exec" where
  "pin_intc w = Inr (end_of_interrupt w)"

definition pin_intd :: "('m, 'd, 'f, 'e) irq_world \<Rightarrow> ('m, 'd, 'f, 'e) irq_world exec" where
  "pin_intd w = Inr (end_of_interrupt w)"

definition pci_handler :: "('m, 'd, 'f, 'e) irq_world \<Rightarrow> ('m, 'd, 'f, 'e) irq_world exec" where
  "pci_handler w = Inr (end_of_interrupt w)"

text \<open>\<^verbatim>\<open>breakpoint\<close> waits until the byte at \<^verbatim>\<open>read_rip()\<close>, an address inside the handler itself, is not
  \<^verbatim>\<open>INT3\<close>; nothing it does changes that byte.\<close>

definition breakpoint ::
  "('m, 'd) dispatch_env \<Rightarrow> ('m, 'd, 'f, 'e) irq_world \<Rightarrow> ('m, 'd, 'f, 'e) irq_world exec" where
  "breakpoint env w = (if ie_code env (ie_rip env) \<noteq> 0xcc then Inr w else Inl Diverge)"

text \<open>The handler of message interrupts is the only one that is registered later, and the only one
  for a device that does not acknowledge.\<close>

definition msi_x :: "('m, 'd, 'f, 'e) irq_world \<Rightarrow> ('m, 'd, 'f, 'e) irq_world exec" where
  "msi_x w = Inr w"

section \<open>Dispatch\<close>

definition on_sched ::
  "(('f, 'e) sched \<Rightarrow> ('f, 'e) sched exec) \<Rightarrow> ('m, 'd, 'f, 'e) irq_world
    \<Rightarrow> ('m, 'd, 'f, 'e) irq_world exec" where
  "on_sched f w = rbind (f (iw_sched w)) (\<lambda>s. Inr (w\<lparr>iw_sched := s\<rparr>))"

definition ahci_handler ::
  "('m, 'd) dispatch_env \<Rightarrow> ('m, 'd, 'f, 'e) irq_world \<Rightarrow> ('m, 'd, 'f, 'e) irq_world exec" where
  "ahci_handler env w =
     rbind (ahci_irq (ie_machine env) (ret ()) (ie_ahci env) (iw_machine w)) (\<lambda>(_, st).
       Inr (end_of_interrupt (w\<lparr>iw_machine := st\<rparr>)))"

definition page_fault_handler ::
  "('m, 'd) dispatch_env \<Rightarrow> irq_frame \<Rightarrow> ('m, 'd, 'f, 'e) irq_world \<Rightarrow> ('m, 'd, 'f, 'e) irq_world exec" where
  "page_fault_handler env frame w =
     rbind (page_fault (mpage (ie_machine env)) (mflags (ie_machine env)) (fault_address frame)
         (code_empty frame) (rpl (ie_cs env)) (mkm (iw_machine w), iw_sched w)) (\<lambda>(km, s).
       Inr (w\<lparr>iw_machine := (iw_machine w)\<lparr>mkm := km\<rparr>, iw_sched := s\<rparr>))"

fun run_handler ::
  "('m, 'd) dispatch_env \<Rightarrow> irq_frame \<Rightarrow> idt_handler \<Rightarrow> ('m, 'd, 'f, 'e) irq_world
    \<Rightarrow> ('m, 'd, 'f, 'e) irq_world exec" where
  "run_handler env fr h_double_fault w = on_sched double_fault w"
| "run_handler env fr h_page_fault w = page_fault_handler env fr w"
| "run_handler env fr h_sigfpe w = on_sched (sigfpe (current_privilege_level fr)) w"
| "run_handler env fr h_invalid_tss w = on_sched invalid_tss w"
| "run_handler env fr h_sigbus w = on_sched (sigbus (current_privilege_level fr)) w"
| "run_handler env fr h_sigsegv w = on_sched (sigsegv (current_privilege_level fr)) w"
| "run_handler env fr h_general_protection w =
     on_sched (general_protection (current_privilege_level fr)) w"
| "run_handler env fr h_breakpoint w = breakpoint env w"
| "run_handler env fr h_bound_range_exceeded w =
     on_sched (bound_range_exceeded (current_privilege_level fr)) w"
| "run_handler env fr h_invalid_op w = on_sched (invalid_op (current_privilege_level fr)) w"
| "run_handler env fr h_navail w = on_sched (navail (current_privilege_level fr)) w"
| "run_handler env fr h_timer w = rbind (on_sched timer w) (\<lambda>w. Inr (end_of_interrupt w))"
| "run_handler env fr h_lapic_err w = lapic_err w"
| "run_handler env fr h_spurious w = spurious w"
| "run_handler env fr h_pin_inta w = pin_inta w"
| "run_handler env fr h_pin_intb w = pin_intb w"
| "run_handler env fr h_pin_intc w = pin_intc w"
| "run_handler env fr h_pin_intd w = pin_intd w"
| "run_handler env fr h_syscall w = on_sched syscall_handler w"
| "run_handler env fr h_task_sched w =
     rbind (on_sched (task_sched (ie_locks env) (ie_errno env) (ie_lapic_ids env)) w) (\<lambda>w.
       Inr (end_of_interrupt w))"
| "run_handler env fr h_pci w = pci_handler w"
| "run_handler env fr h_ahci w = ahci_handler env w"
| "run_handler env fr (h_registered n) w = msi_x w"

definition deliver ::
  "('m, 'd) dispatch_env \<Rightarrow> irq_frame \<Rightarrow> idt \<Rightarrow> nat \<Rightarrow> ('m, 'd, 'f, 'e) irq_world
    \<Rightarrow> ('m, 'd, 'f, 'e) irq_world exec" where
  "deliver env fr table vector w =
     (case table vector of
        Some h \<Rightarrow> run_handler env fr h w
      | None \<Rightarrow> (case table 11 of Some h \<Rightarrow> run_handler env fr h w | None \<Rightarrow> Inl Abort))"

section \<open>Lemmas\<close>

fun acknowledges :: "idt_handler \<Rightarrow> bool" where
  "acknowledges h \<longleftrightarrow> h \<in> {h_timer, h_lapic_err, h_spurious, h_pin_inta, h_pin_intb, h_pin_intc,
     h_pin_intd, h_task_sched, h_pci, h_ahci}"

lemmas acknowledge_defs = spurious_def lapic_err_def pin_inta_def pin_intb_def pin_intc_def
  pin_intd_def pci_handler_def msi_x_def end_of_interrupt_def

lemma on_sched_eois: "on_sched f w = Inr w' \<Longrightarrow> iw_eois w' = iw_eois w"
  by (auto simp: on_sched_def exec_simps)

lemma run_handler_eois:
  assumes "run_handler env fr h w = Inr w'"
  shows "iw_eois w' = (if acknowledges h then iw_eois w + 1 else iw_eois w)"
proof -
  have "iw_eois w' = iw_eois w" if "page_fault_handler env fr w = Inr w'"
    using that by (auto simp: page_fault_handler_def exec_simps)
  moreover have "iw_eois w' = iw_eois w + 1" if "ahci_handler env w = Inr w'"
    using that by (auto simp: ahci_handler_def exec_simps end_of_interrupt_def)
  moreover have "iw_eois w' = iw_eois w" if "breakpoint env w = Inr w'"
    using that by (auto simp: breakpoint_def split: if_splits)
  ultimately show ?thesis
    using assms by (cases h) (auto simp: acknowledge_defs exec_simps dest: on_sched_eois)
qed

text \<open>The exceptions that are signalled to the process.\<close>

definition fault_vectors :: "(nat \<times> signal) list" where
  "fault_vectors = [(0, SIGFPE), (5, SIGFPE), (6, SIGILL), (7, SIGSYS), (11, SIGBUS), (12, SIGSEGV),
     (13, SIGABRT)]"

lemma build_idt_faults:
  assumes "(v, s) \<in> set fault_vectors" and "32 \<le> a" "32 \<le> b" "32 \<le> c" "32 \<le> d"
  shows "deliver env fr (build_idt a b c d) v w = on_sched (fault s (current_privilege_level fr)) w"
  using assms by (auto simp: fault_vectors_def deliver_def build_idt_def sigfpe_def sigbus_def
      sigsegv_def general_protection_def bound_range_exceeded_def invalid_op_def navail_def on_sched_def)

lemma build_idt_external:
  assumes "32 \<le> v" "build_idt a b c d v = Some h"
  shows "acknowledges h \<or> h = h_syscall"
  using assms by (auto simp: build_idt_def split: if_splits)

lemma task_sched_ipi:
  assumes "task_sched lo en ids st = Inr st'"
  shows "\<exists>i. (100, i) \<in> set (ipis st')"
  using assms by (auto simp: task_sched_def sched_ipi_def exec_simps split: if_splits)

section \<open>Properties\<close>


definition example_process_at :: "(unit, unit) process" where
  "example_process_at = example_process (WithoutResult (Inr ())) 0"

definition example_irq_world :: "(unit, u64 \<Rightarrow> u32, unit, unit) irq_world" where
  "example_irq_world = \<lparr>iw_sched = example_sched [(0, example_process_at)],
     iw_machine = \<lparr>mkm = \<lparr>kmapper = None, kfalloc = None\<rparr>, mdev = (\<lambda>_. 0)\<rparr>, iw_eois = 0\<rparr>"

definition example_dispatch :: "(unit, u64 \<Rightarrow> u32) dispatch_env" where
  "example_dispatch = \<lparr>ie_machine = irq_env, ie_locks = ref_lock_ops, ie_errno = example_errno,
     ie_lapic_ids = [1, 2], ie_ahci = None, ie_cs = 8, ie_rip = 0, ie_code = (\<lambda>_. 0x90)\<rparr>"

definition frame_of :: "u64 \<Rightarrow> irq_frame" where
  "frame_of cs = \<lparr>code_segment = cs, code_empty = False, fault_address = 0\<rparr>"


text \<open>The interrupt that the scheduler sends to the next processor has no handler in the table built at
  start: it panics the kernel there, and in user mode it marks the current process with \<^verbatim>\<open>SIGBUS\<close>.\<close>

theorem scheduler_interrupt_faults:
  assumes "task_sched lo en ids st = Inr st'"
  shows "\<exists>v i. (v, i) \<in> set (ipis st') \<and> (\<forall>fr w. deliver env fr (build_idt 0 0 0 0) (unat v) w
    = on_sched (fault SIGBUS (current_privilege_level fr)) w)"
proof -
  have "deliver env fr (build_idt 0 0 0 0) (unat (100 :: u8)) w
    = on_sched (fault SIGBUS (current_privilege_level fr)) w" for fr w
    by (simp add: deliver_def build_idt_def sigbus_def on_sched_def)
  then show ?thesis using task_sched_ipi [OF assms] by blast
qed

end
