(* ===== verification/Acpi_Handler.thy ===== *)
theory Acpi_Handler
  imports Pci
begin

text \<open>
  The kernel's side of ACPI, \<^verbatim>\<open>src/drivers/acpi_impl.rs\<close>, and the interrupt controllers,
  \<^verbatim>\<open>src/drivers/apic_impl.rs\<close>.

  \<^item> \<open>acpi_world\<close> is what these files change: the machine of \<open>Machine\<close>, the I/O ports, the interrupt
    table, which is built when it is first used, the interrupt numbers of the four PCI pins, the
    interrupt controllers, and the statics that are filled once.
  \<^item> The \<^verbatim>\<open>aml\<close> crate is the parameter \<open>aml_ops\<close>, whose operations may call back into the handler and
    so act on the whole world; the tables the \<^verbatim>\<open>acpi\<close> crate finds are the record \<open>acpi_tables\<close>;
    \<open>x2apic_ops\<close> is the \<^verbatim>\<open>x2apic\<close> crate and \<open>port_ops\<close> the machine instructions for ports.
  \<^item> Log messages are left out, and so are the wrappers that only forward to a method of the handler.

  What is written through the handler is read again; configuration addresses are different for
  different registers, but beyond segment 127 they are no addresses; the pins of the first device
  get their handlers, those of later devices do not; every redirection entry gets its own number as
  vector.
\<close>

section \<open>Memory\<close>

definition page_align :: "('m, 'd) menv \<Rightarrow> u64 \<Rightarrow> u64 \<Rightarrow> nat exec" where
  "page_align env len addr =
     rbind (virt_new (mpage env) addr) (\<lambda>_.
     rbind (nat_sub_ck (unat len) 1) (\<lambda>n.
     rbind (usize_add_ck (n div 4096) 1) (\<lambda>k. usize_mul_ck k 4096)))"

text \<open>\<^verbatim>\<open>PhysicalMapping\<close>: physical start, virtual start, length asked for and length mapped.\<close>

record physical_mapping =
  pm_physical :: u64
  pm_virtual :: u64
  pm_region :: nat
  pm_mapped :: nat

definition map_physical_region ::
  "('m, 'd) menv \<Rightarrow> u64 \<Rightarrow> u64 \<Rightarrow> (('m, 'd) mstate, physical_mapping) act" where
  "map_physical_region env phys len =
     sbind (pure_exec (add_ck phys (moffset env))) (\<lambda>a.
     sbind (pure_exec (virt_new (mpage env) a)) (\<lambda>v.
     let virt = page_of (mpage env) v in
     sthen (mmap env phys virt)
     (if virt = 0 then halt (Panic UnwrapNone)
      else sbind (pure_exec (page_align env len virt)) (\<lambda>n.
        ret \<lparr>pm_physical = phys, pm_virtual = virt, pm_region = unat len, pm_mapped = n\<rparr>))))"

definition unmap_physical_region ::
  "('m, 'd) menv \<Rightarrow> physical_mapping \<Rightarrow> (('m, 'd) mstate, unit) act" where
  "unmap_physical_region env region st =
     rbind (virt_new (mpage env) (pm_virtual region)) (\<lambda>v.
     rbind (unmap_page (mpage env) (page_of (mpage env) v) (mkm st)) (\<lambda>km. Inr ((), st\<lparr>mkm := km\<rparr>)))"

text \<open>The part all accesses share: a page is mapped, one page above the one that is then accessed.\<close>

definition handler_map :: "('m, 'd) menv \<Rightarrow> u64 \<Rightarrow> (('m, 'd) mstate, unit) act" where
  "handler_map env address =
     sbind (pure_exec (virt_new (mpage env) address)) (\<lambda>v.
     sbind (pure_exec (add_ck (page_of (mpage env) v) (moffset env))) (\<lambda>a.
     sbind (pure_exec (add_ck a 4096)) (\<lambda>virt. mmap env address virt)))"

definition handler_read :: "('m, 'd) menv \<Rightarrow> nat \<Rightarrow> u64 \<Rightarrow> (('m, 'd) mstate, u64) act" where
  "handler_read env w address =
     sthen (handler_map env address) (sbind (pure_exec (add_ck address (moffset env))) (rd env w))"

definition handler_write :: "('m, 'd) menv \<Rightarrow> nat \<Rightarrow> u64 \<Rightarrow> u64 \<Rightarrow> (('m, 'd) mstate, unit) act" where
  "handler_write env w address v =
     sthen (handler_map env address) (sbind (pure_exec (add_ck address (moffset env))) (\<lambda>a. wr env w a v))"

definition read_u8 :: "('m, 'd) menv \<Rightarrow> u64 \<Rightarrow> (('m, 'd) mstate, u8) act" where
  "read_u8 env address = sbind (handler_read env 1 address) (\<lambda>v. ret (ucast v))"

definition read_u16 :: "('m, 'd) menv \<Rightarrow> u64 \<Rightarrow> (('m, 'd) mstate, u16) act" where
  "read_u16 env address = sbind (handler_read env 2 address) (\<lambda>v. ret (ucast v))"

definition read_u32 :: "('m, 'd) menv \<Rightarrow> u64 \<Rightarrow> (('m, 'd) mstate, u32) act" where
  "read_u32 env address = sbind (handler_read env 4 address) (\<lambda>v. ret (ucast v))"

definition read_u64 :: "('m, 'd) menv \<Rightarrow> u64 \<Rightarrow> (('m, 'd) mstate, u64) act" where
  "read_u64 env address = handler_read env 8 address"

definition write_u8 :: "('m, 'd) menv \<Rightarrow> u64 \<Rightarrow> u8 \<Rightarrow> (('m, 'd) mstate, unit) act" where
  "write_u8 env address v = handler_write env 1 address (ucast v)"

definition write_u16 :: "('m, 'd) menv \<Rightarrow> u64 \<Rightarrow> u16 \<Rightarrow> (('m, 'd) mstate, unit) act" where
  "write_u16 env address v = handler_write env 2 address (ucast v)"

definition write_u32 :: "('m, 'd) menv \<Rightarrow> u64 \<Rightarrow> u32 \<Rightarrow> (('m, 'd) mstate, unit) act" where
  "write_u32 env address v = handler_write env 4 address (ucast v)"

definition write_u64 :: "('m, 'd) menv \<Rightarrow> u64 \<Rightarrow> u64 \<Rightarrow> (('m, 'd) mstate, unit) act" where
  "write_u64 env address v = handler_write env 8 address v"

section \<open>Ports and configuration space\<close>

record 'io port_ops =
  port_in :: "nat \<Rightarrow> u16 \<Rightarrow> 'io \<Rightarrow> u64 \<times> 'io"
  port_out :: "nat \<Rightarrow> u16 \<Rightarrow> u64 \<Rightarrow> 'io \<Rightarrow> 'io"

text \<open>The functions for ports of \<^verbatim>\<open>pci_impl.rs\<close>, and the same instructions in the handler.\<close>

definition outb :: "'io port_ops \<Rightarrow> u16 \<Rightarrow> u8 \<Rightarrow> 'io \<Rightarrow> 'io" where
  "outb ops port value io = port_out ops 1 port (ucast value) io"

definition outw :: "'io port_ops \<Rightarrow> u16 \<Rightarrow> u16 \<Rightarrow> 'io \<Rightarrow> 'io" where
  "outw ops port value io = port_out ops 2 port (ucast value) io"

definition outl :: "'io port_ops \<Rightarrow> u16 \<Rightarrow> u32 \<Rightarrow> 'io \<Rightarrow> 'io" where
  "outl ops port value io = port_out ops 4 port (ucast value) io"

definition inb :: "'io port_ops \<Rightarrow> u16 \<Rightarrow> 'io \<Rightarrow> u8 \<times> 'io" where
  "inb ops port io = map_prod ucast id (port_in ops 1 port io)"

definition inw :: "'io port_ops \<Rightarrow> u16 \<Rightarrow> 'io \<Rightarrow> u16 \<times> 'io" where
  "inw ops port io = map_prod ucast id (port_in ops 2 port io)"

definition inl :: "'io port_ops \<Rightarrow> u16 \<Rightarrow> 'io \<Rightarrow> u32 \<times> 'io" where
  "inl ops port io = map_prod ucast id (port_in ops 4 port io)"

definition read_io_u8 :: "'io port_ops \<Rightarrow> u16 \<Rightarrow> 'io \<Rightarrow> u8 \<times> 'io" where
  "read_io_u8 ops port io = map_prod ucast id (port_in ops 1 port io)"

definition read_io_u16 :: "'io port_ops \<Rightarrow> u16 \<Rightarrow> 'io \<Rightarrow> u16 \<times> 'io" where
  "read_io_u16 ops port io = map_prod ucast id (port_in ops 2 port io)"

definition read_io_u32 :: "'io port_ops \<Rightarrow> u16 \<Rightarrow> 'io \<Rightarrow> u32 \<times> 'io" where
  "read_io_u32 ops port io = map_prod ucast id (port_in ops 4 port io)"

definition write_io_u8 :: "'io port_ops \<Rightarrow> u16 \<Rightarrow> u8 \<Rightarrow> 'io \<Rightarrow> 'io" where
  "write_io_u8 ops port v io = port_out ops 1 port (ucast v) io"

definition write_io_u16 :: "'io port_ops \<Rightarrow> u16 \<Rightarrow> u16 \<Rightarrow> 'io \<Rightarrow> 'io" where
  "write_io_u16 ops port v io = port_out ops 2 port (ucast v) io"

definition write_io_u32 :: "'io port_ops \<Rightarrow> u16 \<Rightarrow> u32 \<Rightarrow> 'io \<Rightarrow> 'io" where
  "write_io_u32 ops port v io = port_out ops 4 port (ucast v) io"

text \<open>The address of a configuration register: segment, bus, device, function and offset, each in bytes
  of its own.\<close>

definition pci_address :: "u16 \<Rightarrow> u8 \<Rightarrow> u8 \<Rightarrow> u8 \<Rightarrow> u16 \<Rightarrow> u64" where
  "pci_address segment bus device func offs =
     of_nat (be_value ([0] @ be_bytes 2 segment @ [bus, device, func] @ be_bytes 2 offs))"

definition read_pci_u8 ::
  "('m, 'd) menv \<Rightarrow> u16 \<Rightarrow> u8 \<Rightarrow> u8 \<Rightarrow> u8 \<Rightarrow> u16 \<Rightarrow> (('m, 'd) mstate, u8) act" where
  "read_pci_u8 env segment bus device func offs =
     sbind (handler_read env 1 (pci_address segment bus device func offs)) (\<lambda>v. ret (ucast v))"

definition read_pci_u16 ::
  "('m, 'd) menv \<Rightarrow> u16 \<Rightarrow> u8 \<Rightarrow> u8 \<Rightarrow> u8 \<Rightarrow> u16 \<Rightarrow> (('m, 'd) mstate, u16) act" where
  "read_pci_u16 env segment bus device func offs =
     sbind (handler_read env 2 (pci_address segment bus device func offs)) (\<lambda>v. ret (ucast v))"

definition read_pci_u32 ::
  "('m, 'd) menv \<Rightarrow> u16 \<Rightarrow> u8 \<Rightarrow> u8 \<Rightarrow> u8 \<Rightarrow> u16 \<Rightarrow> (('m, 'd) mstate, u32) act" where
  "read_pci_u32 env segment bus device func offs =
     sbind (handler_read env 4 (pci_address segment bus device func offs)) (\<lambda>v. ret (ucast v))"

definition write_pci_u8 ::
  "('m, 'd) menv \<Rightarrow> u16 \<Rightarrow> u8 \<Rightarrow> u8 \<Rightarrow> u8 \<Rightarrow> u16 \<Rightarrow> u8 \<Rightarrow> (('m, 'd) mstate, unit) act" where
  "write_pci_u8 env segment bus device func offs v =
     handler_write env 1 (pci_address segment bus device func offs) (ucast v)"

definition write_pci_u16 ::
  "('m, 'd) menv \<Rightarrow> u16 \<Rightarrow> u8 \<Rightarrow> u8 \<Rightarrow> u8 \<Rightarrow> u16 \<Rightarrow> u16 \<Rightarrow> (('m, 'd) mstate, unit) act" where
  "write_pci_u16 env segment bus device func offs v =
     handler_write env 2 (pci_address segment bus device func offs) (ucast v)"

definition write_pci_u32 ::
  "('m, 'd) menv \<Rightarrow> u16 \<Rightarrow> u8 \<Rightarrow> u8 \<Rightarrow> u8 \<Rightarrow> u16 \<Rightarrow> u32 \<Rightarrow> (('m, 'd) mstate, unit) act" where
  "write_pci_u32 env segment bus device func offs v =
     handler_write env 4 (pci_address segment bus device func offs) (ucast v)"

definition stall :: "u64 \<Rightarrow> ('s, unit) act" where
  "stall microseconds = halt (Panic NotImplemented)"

definition sleep :: "u64 \<Rightarrow> ('s, unit) act" where
  "sleep milliseconds = halt (Panic NotImplemented)"

section \<open>The world of ACPI\<close>

record fadt =
  dsdt_address :: "u64 option"
  smi_cmd_port :: u32
  acpi_enable :: u8
  pm1a_control_block :: "u64 option"
  pm1b_control_block :: "u64 option"

record ('m, 'd, 'io, 'x, 'a) acpi_world =
  a_machine :: "('m, 'd) mstate"
  a_ports :: 'io
  a_idt :: "idt_state option"
  a_int_irqs :: "u64 list"
  a_interrupts :: bool
  a_apics :: 'x
  a_apic_ready :: bool
  a_aml :: "'a option"
  a_fadt :: "fadt option"
  a_dsdt_mapped :: u64

definition acpi_machine :: "(('m, 'd) mstate, 'r) act \<Rightarrow> (('m, 'd, 'io, 'x, 'a) acpi_world, 'r) act" where
  "acpi_machine f w = rbind (f (a_machine w)) (\<lambda>(x, s). Inr (x, w\<lparr>a_machine := s\<rparr>))"

definition acpi_out :: "'io port_ops \<Rightarrow> nat \<Rightarrow> u16 \<Rightarrow> u64 \<Rightarrow> (('m, 'd, 'io, 'x, 'a) acpi_world, unit) act" where
  "acpi_out ops n port v w = Inr ((), w\<lparr>a_ports := port_out ops n port v (a_ports w)\<rparr>)"

section \<open>Interrupt controllers\<close>

record ('s, 'l, 'i, 'e) x2apic_ops =
  lapic_build :: "nat \<Rightarrow> nat \<Rightarrow> nat \<Rightarrow> u64 \<Rightarrow> ('s, 'l option) act"
  lapic_id :: "'l \<Rightarrow> ('s, u32) act"
  ioapic_new :: "u64 \<Rightarrow> 'i"
  ioapic_init :: "'i \<Rightarrow> u8 \<Rightarrow> ('s, unit) act"
  ioapic_set_entry :: "'i \<Rightarrow> u8 \<Rightarrow> 'e \<Rightarrow> ('s, unit) act"
  ioapic_enable :: "'i \<Rightarrow> u8 \<Rightarrow> ('s, unit) act"
  entry_default :: 'e
  entry_set_mode_fixed :: "'e \<Rightarrow> 'e"
  entry_set_level_low :: "'e \<Rightarrow> 'e"
  entry_set_vector :: "u8 \<Rightarrow> 'e \<Rightarrow> 'e"
  entry_set_dest :: "u8 \<Rightarrow> 'e \<Rightarrow> 'e"

text \<open>The identifiers of the processors; \<open>topology\<close> is what \<^verbatim>\<open>CPUID\<close> reports, \<open>active\<close> the identifier of
  the processor this runs on.\<close>

definition get_lapic_ids :: "u32 list option \<Rightarrow> u32 \<Rightarrow> u32 list" where
  "get_lapic_ids topology active = (case topology of Some ids \<Rightarrow> ids | None \<Rightarrow> [active])"

text \<open>The 8259 controllers: initialisation words, then all lines masked; port \<^verbatim>\<open>0x80\<close> is a delay.\<close>

definition pic_writes :: "(u16 \<times> u8) list" where
  "pic_writes = [(0x20, 0x11), (0xa0, 0x11), (0x80, 0), (0x21, 0xf8), (0xa1, 0xff), (0x80, 0),
     (0x21, 4), (0x80, 0), (0xa1, 2), (0x80, 0), (0x21, 1), (0xa1, 1), (0x80, 0), (0x21, 0xff), (0xa1, 0xff)]"

text \<open>\<open>model\<close> is \<^verbatim>\<open>INTERRUPT_MODEL\<close>: not set, no APIC, or the address of the local APIC and those of the
  I/O APICs.\<close>

definition add_ioapic ::
  "('m, 'd) menv \<Rightarrow> (('m, 'd, 'io, 'x, 'a) acpi_world, 'l, 'i, 'e) x2apic_ops \<Rightarrow> u32
   \<Rightarrow> (('m, 'd, 'io, 'x, 'a) acpi_world, 'i) act" where
  "add_ioapic env ops addr =
     sbind (pure_exec (add_ck (ucast addr) (moffset env))) (\<lambda>virt.
     sthen (acpi_machine (mmap env (ucast addr) virt)) (ret (ioapic_new ops virt)))"

fun add_ioapics ::
  "('m, 'd) menv \<Rightarrow> (('m, 'd, 'io, 'x, 'a) acpi_world, 'l, 'i, 'e) x2apic_ops \<Rightarrow> u32 list
   \<Rightarrow> (('m, 'd, 'io, 'x, 'a) acpi_world, 'i list) act" where
  "add_ioapics env ops [] = ret []"
| "add_ioapics env ops (a # as) =
     sbind (add_ioapic env ops a) (\<lambda>i. sbind (add_ioapics env ops as) (\<lambda>is. ret (i # is)))"

definition build_all_available_apics ::
  "('m, 'd) menv \<Rightarrow> 'io port_ops \<Rightarrow> (('m, 'd, 'io, 'x, 'a) acpi_world, 'l, 'i, 'e) x2apic_ops
   \<Rightarrow> (u64 \<times> u32 list) option option
   \<Rightarrow> (('m, 'd, 'io, 'x, 'a) acpi_world, ('l \<times> 'i list) option) act" where
  "build_all_available_apics env io ops model =
     sthen (for_act (\<lambda>(port, v). acpi_out io 1 port (ucast v)) pic_writes)
     (sbind (pure_exec (unwrap model)) (\<lambda>apic.
       case apic of
         None \<Rightarrow> ret None
       | Some (lapic_addr, io_apics) \<Rightarrow>
           sbind (pure_exec (add_ck lapic_addr (moffset env))) (\<lambda>lapic_virt.
           sthen (acpi_machine (mmap env lapic_addr lapic_virt))
           (sbind (lapic_build ops (irq_number Timer) (irq_number LapicErr) (irq_number Spurious) lapic_virt) (\<lambda>l.
             case l of
               None \<Rightarrow> halt (Panic ExplicitPanic)
             | Some lapic \<Rightarrow> sbind (add_ioapics env ops io_apics) (\<lambda>is. ret (Some (lapic, is))))))))"

text \<open>\<^verbatim>\<open>ioapic_irq!\<close>, and the loop that uses it.\<close>

definition ioapic_irq ::
  "('s, 'l, 'i, 'e) x2apic_ops \<Rightarrow> 'i \<Rightarrow> u8 \<Rightarrow> u32 \<Rightarrow> ('s, unit) act" where
  "ioapic_irq ops pic irq dest =
     sthen (ioapic_set_entry ops pic irq
       (entry_set_dest ops (ucast dest) (entry_set_vector ops irq
         (entry_set_level_low ops (entry_set_mode_fixed ops (entry_default ops))))))
     (ioapic_enable ops pic irq)"

definition init_ioapic :: "('s, 'l, 'i, 'e) x2apic_ops \<Rightarrow> 'l \<Rightarrow> 'i \<Rightarrow> ('s, unit) act" where
  "init_ioapic ops lapic pic =
     sthen (ioapic_init ops pic 32)
       (for_act (\<lambda>i. sbind (lapic_id ops lapic) (ioapic_irq ops pic (of_nat i))) [0..<255 - 32])"

definition init_all_available_apics ::
  "('m, 'd) menv \<Rightarrow> 'io port_ops \<Rightarrow> (('m, 'd, 'io, 'x, 'a) acpi_world, 'l, 'i, 'e) x2apic_ops
   \<Rightarrow> (u64 \<times> u32 list) option option \<Rightarrow> (('m, 'd, 'io, 'x, 'a) acpi_world, unit) act" where
  "init_all_available_apics env io ops model =
     sbind (build_all_available_apics env io ops model) (\<lambda>r.
     sbind (pure_exec (expect r)) (\<lambda>(lapic, ioapics).
     sthen (for_act (init_ioapic ops lapic) ioapics)
       (\<lambda>w. Inr ((), w\<lparr>a_interrupts := True, a_apic_ready := True\<rparr>))))"

section \<open>AML\<close>

datatype aml_value = AmlInteger u64 | AmlPackage "aml_value list" | AmlOther

datatype pin = IntA | IntB | IntC | IntD

text \<open>\<open>None\<close> stands for an error; paths are written without the backslash of the root. \<open>aml_parse_table\<close> gets the address and the length of the table.\<close>

record ('s, 'a, 'p) aml_ops =
  aml_new :: 'a
  aml_initialize_objects :: "'a \<Rightarrow> ('s, bool \<times> 'a) act"
  aml_parse_table :: "u64 \<times> nat \<Rightarrow> 'a \<Rightarrow> ('s, bool \<times> 'a) act"
  aml_invoke_method :: "string \<Rightarrow> u64 list \<Rightarrow> 'a \<Rightarrow> ('s, aml_value option \<times> 'a) act"
  aml_from_prt_path :: "string \<Rightarrow> 'a \<Rightarrow> ('s, 'p option \<times> 'a) act"
  aml_route_pin :: "'p \<Rightarrow> u16 \<Rightarrow> u16 \<Rightarrow> pin \<Rightarrow> 'a \<Rightarrow> ('s, u32 option \<times> 'a) act"

record ('b, 'h, 'q, 'c) acpi_tables =
  tab_bgrt :: "'b option"
  tab_fadt :: "fadt option"
  tab_hpet :: "'h option"
  tab_madt :: "'q option"
  tab_mcfg :: "'c list option"
  tab_dsdt :: "(u64 \<times> u32) option"
  tab_ssdts :: "(u64 \<times> u32) list"

text \<open>The header of a system description table has 36 bytes.\<close>

definition sdt_header_size :: nat where
  "sdt_header_size = 36"

definition aml_init ::
  "('m, 'd) menv \<Rightarrow> 'io port_ops \<Rightarrow> (('m, 'd, 'io, 'x, 'a) acpi_world, 'a, 'p) aml_ops
   \<Rightarrow> ('b, 'h, 'q, 'c) acpi_tables \<Rightarrow> (('m, 'd, 'io, 'x, 'a) acpi_world, unit) act" where
  "aml_init env io ops tables =
     sbind (pure_exec (unwrap (tab_fadt tables))) (\<lambda>f.
     sthen (\<lambda>w. Inr ((), w\<lparr>a_fadt := Some (case_option f id (a_fadt w))\<rparr>))
     (sbind (pure_exec (unwrap (dsdt_address f))) (\<lambda>dsdt_addr.
      sbind (pure_exec (unwrap (tab_dsdt tables))) (\<lambda>dsdt.
      let dsdt_len = unat (snd dsdt) in
      sbind (pure_exec (virt_new (mpage env) dsdt_addr)) (\<lambda>v.
      sbind (pure_exec (add_ck (page_of (mpage env) v) (moffset env))) (\<lambda>aml_virt.
      sthen (acpi_machine (mmap env dsdt_addr aml_virt))
      (sbind (aml_initialize_objects ops (aml_new ops)) (\<lambda>(ok, ctx).
       if \<not> ok then ret ()
       else
         sbind (aml_parse_table ops (aml_virt + of_nat sdt_header_size, dsdt_len) ctx) (\<lambda>(ok, ctx).
         if \<not> ok then ret ()
         else
           sbind (aml_invoke_method ops ''_PIC'' [1] ctx) (\<lambda>(_, ctx).
           sthen (acpi_out io 1 (ucast (smi_cmd_port f)) (ucast (acpi_enable f)))
             (\<lambda>w. Inr ((), w\<lparr>a_aml := Some (case_option ctx id (a_aml w)), a_dsdt_mapped := aml_virt\<rparr>))))))))))))"

text \<open>The context behind its lock: taken out, used, and put back.\<close>

definition with_aml ::
  "('a \<Rightarrow> (('m, 'd, 'io, 'x, 'a) acpi_world, 'r \<times> 'a) act) \<Rightarrow> (('m, 'd, 'io, 'x, 'a) acpi_world, 'r) act" where
  "with_aml f w =
     rbind (expect (a_aml w)) (\<lambda>c.
     rbind (f c w) (\<lambda>((r, c), w). Inr (r, w\<lparr>a_aml := Some c\<rparr>)))"

text \<open>One pin: its number is stored as a vector, and kept for the result. Device and function are both
  the class of the header.\<close>

definition route_one ::
  "(('m, 'd, 'io, 'x, 'a) acpi_world, 'a, 'p) aml_ops \<Rightarrow> 'p \<Rightarrow> u8 \<Rightarrow> nat \<times> pin
   \<Rightarrow> (('m, 'd, 'io, 'x, 'a) acpi_world, u32) act" where
  "route_one ops prt base np =
     sbind (with_aml (aml_route_pin ops prt (ucast base) (ucast base) (snd np))) (\<lambda>r.
       case r of
         None \<Rightarrow> ret 0
       | Some irq \<Rightarrow>
           sbind (pure_exec (add_ck irq 32)) (\<lambda>v w.
             Inr (irq, w\<lparr>a_int_irqs := (a_int_irqs w)[fst np := ucast v]\<rparr>)))"

fun route_pins ::
  "(('m, 'd, 'io, 'x, 'a) acpi_world, 'a, 'p) aml_ops \<Rightarrow> 'p \<Rightarrow> u8 \<Rightarrow> (nat \<times> pin) list
   \<Rightarrow> (('m, 'd, 'io, 'x, 'a) acpi_world, (u32 \<times> pin) list) act" where
  "route_pins ops prt base [] = ret []"
| "route_pins ops prt base (np # nps) =
     sbind (route_one ops prt base np) (\<lambda>irq.
     sbind (route_pins ops prt base nps) (\<lambda>a. ret ((irq, snd np) # a)))"

text \<open>The interrupt table when it is used for the first time: a vector above 255 panics.\<close>

definition force_idt :: "(('m, 'd, 'io, 'x, 'a) acpi_world, unit) act" where
  "force_idt w =
     (case a_idt w of
        Some _ \<Rightarrow> Inr ((), w)
      | None \<Rightarrow>
          (let irqs = a_int_irqs w in
           if \<exists>i \<in> set irqs. 255 < unat i then Inl (Panic IndexOutOfBounds)
           else Inr ((), w\<lparr>a_idt := Some \<lparr>idt_table = build_idt (unat (irqs ! 0)) (unat (irqs ! 1))
                  (unat (irqs ! 2)) (unat (irqs ! 3)), idt_clone = None, idt_loaded = None\<rparr>\<rparr>)))"

definition idt_init :: "(('m, 'd, 'io, 'x, 'a) acpi_world, unit) act" where
  "idt_init = sthen force_idt (\<lambda>w. Inr ((), w\<lparr>a_idt := map_option interrupts_init (a_idt w)\<rparr>))"

text \<open>\<open>apics\<close> is \<^verbatim>\<open>init_all_available_apics\<close>.\<close>

definition aml_route ::
  "(('m, 'd, 'io, 'x, 'a) acpi_world, 'a, 'p) aml_ops \<Rightarrow> (('m, 'd, 'io, 'x, 'a) acpi_world, unit) act
   \<Rightarrow> u8 \<Rightarrow> (('m, 'd, 'io, 'x, 'a) acpi_world, (u32 \<times> pin) list option) act" where
  "aml_route ops apics base =
     sbind (with_aml (aml_from_prt_path ops ''_SB.PCI0._PRT'')) (\<lambda>prt.
       case prt of
         None \<Rightarrow> ret None
       | Some prt \<Rightarrow>
           sbind (route_pins ops prt base [(0, IntA), (1, IntB), (2, IntC), (3, IntD)]) (\<lambda>a.
           sthen idt_init
           (sthen (\<lambda>w. if a_apic_ready w then Inr ((), w) else apics w) (ret (Some a)))))"

section \<open>Tables for user mode, and shutting down\<close>

record ('b, 'h, 'q, 'c) user_acpi =
  u_bgrt :: 'b
  u_fadt :: fadt
  u_hpet :: 'h
  u_madt :: 'q
  u_mcfg :: "'c list"
  u_dsdt :: "(u64 \<times> u32) option"
  u_ssdts :: "(u64 \<times> u32) list"

definition found :: "'a option \<Rightarrow> 'a exec" where
  "found t = (case t of None \<Rightarrow> Inl (Panic ExplicitPanic) | Some x \<Rightarrow> Inr x)"

definition user_acpi_new :: "('b, 'h, 'q, 'c) acpi_tables \<Rightarrow> ('b, 'h, 'q, 'c) user_acpi exec" where
  "user_acpi_new tables =
     rbind (found (tab_bgrt tables)) (\<lambda>b.
     rbind (found (tab_fadt tables)) (\<lambda>f.
     rbind (found (tab_hpet tables)) (\<lambda>h.
     rbind (found (tab_madt tables)) (\<lambda>q.
     rbind (found (tab_mcfg tables)) (\<lambda>c.
       Inr \<lparr>u_bgrt = b, u_fadt = f, u_hpet = h, u_madt = q, u_mcfg = c,
            u_dsdt = map_option (\<lambda>t. (fst t, snd t)) (tab_dsdt tables),
            u_ssdts = fold (\<lambda>t v. v @ [(fst t, snd t)]) (tab_ssdts tables) []\<rparr>)))))"

definition user_acpi_clone :: "('b, 'h, 'q, 'c) user_acpi \<Rightarrow> ('b, 'h, 'q, 'c) user_acpi" where
  "user_acpi_clone u =
     \<lparr>u_bgrt = u_bgrt u, u_fadt = u_fadt u, u_hpet = u_hpet u, u_madt = u_madt u, u_mcfg = u_mcfg u,
      u_dsdt = map_option (\<lambda>t. (fst t, snd t)) (u_dsdt u),
      u_ssdts = fold (\<lambda>t v. v @ [(fst t, snd t)]) (u_ssdts u) []\<rparr>"

text \<open>One control block: the sleep type of the package, with the enable bit.\<close>

definition write_sleep ::
  "'io port_ops \<Rightarrow> aml_value list \<Rightarrow> nat \<Rightarrow> u64 \<Rightarrow> (('m, 'd, 'io, 'x, 'a) acpi_world, unit) act" where
  "write_sleep io pkg i addr =
     sbind (pure_exec (slice_get pkg i)) (\<lambda>v.
       case v of
         AmlInteger value \<Rightarrow> acpi_out io 2 (ucast addr) (ucast ((ucast value :: u16) OR push_bit 13 1))
       | _ \<Rightarrow> ret ())"

definition shutdown_writes ::
  "'io port_ops \<Rightarrow> (('m, 'd, 'io, 'x, 'a) acpi_world, 'a, 'p) aml_ops
   \<Rightarrow> (('m, 'd, 'io, 'x, 'a) acpi_world, unit) act" where
  "shutdown_writes io ops =
     sthen (with_aml (aml_invoke_method ops ''_PTS'' [5]))
     (sbind (\<lambda>w. rbind (unwrap (a_fadt w)) (\<lambda>f. Inr (f, w))) (\<lambda>f.
      sbind (with_aml (aml_invoke_method ops ''_S5'' [])) (\<lambda>r.
        case r of
          Some (AmlPackage pkg) \<Rightarrow>
            (case pm1a_control_block f of
               None \<Rightarrow> ret ()
             | Some pm1a \<Rightarrow>
                 sthen (write_sleep io pkg 0 pm1a)
                   (case pm1b_control_block f of
                      None \<Rightarrow> ret ()
                    | Some pm1b \<Rightarrow> write_sleep io pkg 1 pm1b))
        | _ \<Rightarrow> ret ())))"

definition system_shutdown ::
  "'io port_ops \<Rightarrow> (('m, 'd, 'io, 'x, 'a) acpi_world, 'a, 'p) aml_ops
   \<Rightarrow> (('m, 'd, 'io, 'x, 'a) acpi_world, unit) act" where
  "system_shutdown io ops = sthen (shutdown_writes io ops) (halt (Panic UnreachableCode))"

section \<open>Lemmas\<close>

lemma handler_map_run:
  assumes "direct_map_ok env" and "\<forall>a. unat (page_of (mpage env) a) \<le> unat a"
    and "unat a + unat (moffset env) + 4096 < 2 ^ 47"
    and "kmapper (mkm st) \<noteq> None" and "kfalloc (mkm st) \<noteq> None"
  shows "handler_map env a st = Inr ((), st)"
proof -
  let ?p = "page_of (mpage env) a"
  have p: "unat ?p \<le> unat a" using assms(2) by blast
  have v: "virt_new (mpage env) a = Inr a" using assms(1,3) by (simp add: direct_map_ok_def)
  have u: "unat (?p + moffset env) = unat ?p + unat (moffset env)"
    "unat (?p + moffset env + 4096) = unat ?p + unat (moffset env) + 4096"
    using p assms(3) by (simp_all add: unat_word_ariths)
  then have "add_ck ?p (moffset env) = Inr (?p + moffset env)"
    "add_ck (?p + moffset env) 4096 = Inr (?p + moffset env + 4096)"
    using p assms(3) by (simp_all add: add_ck_def)
  moreover have "unat (?p + moffset env + 4096) < 2 ^ 47" using p u(2) assms(3) by linarith
  then have "mmap env a (?p + moffset env + 4096) st = Inr ((), st)"
    using assms by (intro mmap_refused) auto
  ultimately show ?thesis using v by (simp add: handler_map_def act_simps)
qed

lemma handler_access_run:
  assumes "direct_map_ok env" and "\<forall>a. unat (page_of (mpage env) a) \<le> unat a"
    and "unat a + unat (moffset env) + 4096 < 2 ^ 47"
    and "kmapper (mkm st) \<noteq> None" and "kfalloc (mkm st) \<noteq> None"
  shows "handler_read env w a st = rd env w (a + moffset env) st"
    and "handler_write env w a v st = wr env w (a + moffset env) v st"
proof -
  have "add_ck a (moffset env) = Inr (a + moffset env)" using assms(3) by (simp add: add_ck_def)
  then show "handler_read env w a st = rd env w (a + moffset env) st"
    "handler_write env w a v st = wr env w (a + moffset env) v st"
    by (simp_all add: handler_read_def handler_write_def act_simps handler_map_run [OF assms])
qed

text \<open>The handler can be used for an address: the page tables already map everything, as after the
  boot loader, and the address and the page above it stay below the hole in the address space.\<close>

definition handler_reaches :: "('m, 'd) menv \<Rightarrow> ('m, 'd) mstate \<Rightarrow> u64 \<Rightarrow> bool" where
  "handler_reaches env st a \<longleftrightarrow> direct_map_ok env \<and> (\<forall>a. unat (page_of (mpage env) a) \<le> unat a)
     \<and> unat a + unat (moffset env) + 4096 < 2 ^ 47 \<and> kmapper (mkm st) \<noteq> None \<and> kfalloc (mkm st) \<noteq> None"

lemma write_read_run:
  assumes "handler_reaches env st a" and "memory_at (mbus env) view (a + moffset env) n" and "w \<le> n"
  shows "\<exists>d. handler_write env w a v st = Inr ((), st\<lparr>mdev := d\<rparr>)
    \<and> handler_read env w a (st\<lparr>mdev := d\<rparr>) = Inr (of_nat (unat v mod 256 ^ w), st\<lparr>mdev := d\<rparr>)
    \<and> view d = patch (view (mdev st)) 0 (le_bytes w v)"
proof -
  let ?d = "bus_write (mbus env) w (a + moffset env) v (mdev st)"
  note reach = assms(1) [unfolded handler_reaches_def]
  have view: "view ?d = patch (view (mdev st)) 0 (le_bytes w v)"
    using memory_at_numeral(4) [OF assms(2,3)] by simp
  have "take w (view ?d) = le_bytes w v"
    using read_patch(1) [of 0 "le_bytes w v" "view (mdev st)"] memory_atD(1) [OF assms(2)] assms(3)
    by (simp add: view)
  then have "bus_read (mbus env) w (a + moffset env) ?d = (of_nat (unat v mod 256 ^ w), ?d)"
    using memory_at_numeral(1) [OF assms(2,3), of ?d] by (simp add: le_value_le_bytes)
  then have "handler_write env w a v st = Inr ((), st\<lparr>mdev := ?d\<rparr>)"
    "handler_read env w a (st\<lparr>mdev := ?d\<rparr>) = Inr (of_nat (unat v mod 256 ^ w), st\<lparr>mdev := ?d\<rparr>)"
    using reach by (simp_all add: handler_access_run wr_def rd_def)
  with view show ?thesis by blast
qed

lemma narrow_word:
  fixes x :: "'a::len word"
  assumes "LENGTH('a) = 8 * n" and "n \<le> 8"
  shows "ucast (of_nat (unat (ucast x :: u64) mod 256 ^ n) :: u64) = x"
    and "le_bytes n (ucast x :: u64) = le_bytes n x"
proof -
  have lt: "unat x < 256 ^ n" using unsigned_less [of x] assms(1) by (simp add: power_mult)
  moreover have "(256 :: nat) ^ n \<le> 256 ^ 8" using assms(2) by (intro power_increasing) simp_all
  ultimately have "unat x < 2 ^ 64" by simp
  then have u: "unat (ucast x :: u64) = unat x" by (simp add: unsigned_ucast_eq take_bit_nat_eq_self)
  have "of_nat (unat (ucast x :: u64) mod 256 ^ n) = (ucast x :: u64)" using u lt by simp
  then show "ucast (of_nat (unat (ucast x :: u64) mod 256 ^ n) :: u64) = x"
    using assms by (simp add: ucast_up_ucast_id is_up)
  show "le_bytes n (ucast x :: u64) = le_bytes n x"
    using assms by (auto simp: le_bytes_def intro!: bit_eqI simp: bit_simps)
qed

lemmas narrow_words = narrow_word [where 'a = 8 and n = 1, simplified]
  narrow_word [where 'a = 16 and n = 2, simplified] narrow_word [where 'a = 32 and n = 4, simplified]

lemma unat_pci_address:
  "unat (pci_address segment bus device func offs)
    = unat offs + 2 ^ 16 * (unat func + 2 ^ 8 * (unat device + 2 ^ 8 * (unat bus + 2 ^ 8 * unat segment)))"
proof -
  have "be_value ([0] @ be_bytes 2 segment @ [bus, device, func] @ be_bytes 2 offs)
      = unat offs mod 2 ^ 16 + 2 ^ 16 * (unat func + 2 ^ 8 * (unat device + 2 ^ 8 * (unat bus
        + 2 ^ 8 * (unat segment mod 2 ^ 16))))"
    by (simp add: be_value_def be_bytes_def le_value_append le_value_le_bytes)
  moreover have "unat offs < 2 ^ 16" "unat segment < 2 ^ 16" "unat func < 2 ^ 8" "unat device < 2 ^ 8" "unat bus < 2 ^ 8"
    using unsigned_less [of offs, where 'a = nat] unsigned_less [of segment, where 'a = nat]
      unsigned_less [of func, where 'a = nat] unsigned_less [of device, where 'a = nat]
      unsigned_less [of bus, where 'a = nat] by simp_all
  moreover have id: "n < 2 ^ 64 \<Longrightarrow> unat (of_nat n :: u64) = n" for n by (simp add: unat_of_nat)
  ultimately show ?thesis unfolding pci_address_def by (subst id) simp_all
qed

text \<open>The crate finds the routing table and answers from it; only its context changes.\<close>

definition aml_answers ::
  "('s, 'a, 'p) aml_ops \<Rightarrow> 'p \<Rightarrow> (u16 \<Rightarrow> u16 \<Rightarrow> pin \<Rightarrow> u32 option) \<Rightarrow> bool" where
  "aml_answers ops prt route \<longleftrightarrow>
     (\<forall>c w. \<exists>c'. aml_from_prt_path ops ''_SB.PCI0._PRT'' c w = Inr ((Some prt, c'), w))
     \<and> (\<forall>d f p c w. \<exists>c'. aml_route_pin ops prt d f p c w = Inr ((route d f p, c'), w))"

lemma route_one_run:
  assumes "aml_answers ops prt route" and "a_aml w \<noteq> None" and "route (ucast base) (ucast base) p = Some irq"
    and "unat irq + 32 < 2 ^ 32"
  shows "\<exists>c. route_one ops prt base (n, p) w
    = Inr (irq, w\<lparr>a_aml := Some c, a_int_irqs := (a_int_irqs w)[n := ucast (irq + 32)]\<rparr>)"
proof -
  from assms(2) obtain c where c: "a_aml w = Some c" by blast
  obtain c' where "aml_route_pin ops prt (ucast base) (ucast base) p c w = Inr ((Some irq, c'), w)"
    using assms(1,3) unfolding aml_answers_def by metis
  then show ?thesis
    using c assms(4) by (auto simp: route_one_def with_aml_def expect_def act_simps add_ck_def)
qed

lemma route_pins_run:
  assumes "aml_answers ops prt route" and "a_aml w \<noteq> None"
    and "\<forall>p. route (ucast base) (ucast base) p = Some (irq p)" and "\<forall>p. unat (irq p) + 32 < 2 ^ 32"
  shows "\<exists>c. route_pins ops prt base nps w = Inr (map (\<lambda>(n, p). (irq p, p)) nps,
    w\<lparr>a_aml := Some c, a_int_irqs := fold (\<lambda>(n, p) xs. xs[n := ucast (irq p + 32)]) nps (a_int_irqs w)\<rparr>)"
  using assms(2)
proof (induction nps arbitrary: w)
  case Nil
  then obtain c where "a_aml w = Some c" by blast
  then have "w\<lparr>a_aml := Some c, a_int_irqs := a_int_irqs w\<rparr> = w" by (cases w) simp
  then show ?case by (auto simp: ret_def intro: exI [of _ c])
next
  case (Cons np nps)
  obtain n p where np: "np = (n, p)" by fastforce
  obtain c where c: "route_one ops prt base (n, p) w
      = Inr (irq p, w\<lparr>a_aml := Some c, a_int_irqs := (a_int_irqs w)[n := ucast (irq p + 32)]\<rparr>)"
    using route_one_run [OF assms(1) Cons.prems] assms(3,4) by blast
  show ?case
    using Cons.IH [of "w\<lparr>a_aml := Some c, a_int_irqs := (a_int_irqs w)[n := ucast (irq p + 32)]\<rparr>"]
    by (auto simp: np c act_simps)
qed

lemma with_aml_prt:
  assumes "aml_answers ops prt route" and "a_aml w \<noteq> None"
  shows "\<exists>c. with_aml (aml_from_prt_path ops ''_SB.PCI0._PRT'') w = Inr (Some prt, w\<lparr>a_aml := Some c\<rparr>)"
proof -
  from assms(2) obtain c where "a_aml w = Some c" by blast
  moreover obtain c' where "aml_from_prt_path ops ''_SB.PCI0._PRT'' c w = Inr ((Some prt, c'), w)"
    using assms(1) unfolding aml_answers_def by blast
  ultimately show ?thesis by (simp add: with_aml_def expect_def) blast
qed

lemma route_four:
  assumes "aml_answers ops prt route" and "a_aml w \<noteq> None"
    and "\<forall>p. route (ucast base) (ucast base) p = Some (irq p)" and "\<forall>p. unat (irq p) + 32 < 256"
    and "length (a_int_irqs w) = 4"
  shows "\<exists>w'. route_pins ops prt base [(0, IntA), (1, IntB), (2, IntC), (3, IntD)] w
      = Inr ([(irq IntA, IntA), (irq IntB, IntB), (irq IntC, IntC), (irq IntD, IntD)], w')
    \<and> a_idt w' = a_idt w \<and> a_apic_ready w' = a_apic_ready w
    \<and> map unat (a_int_irqs w') = map (\<lambda>p. unat (irq p) + 32) [IntA, IntB, IntC, IntD]"
proof -
  have v: "unat (ucast (irq p + 32) :: u64) = unat (irq p) + 32" "unat (irq p) + 32 < 2 ^ 32" for p
  proof -
    have lt: "unat (irq p) + 32 < 256" using assms(4) by blast
    then have "unat (irq p + 32) = unat (irq p) + 32" by (simp add: unat_word_ariths)
    with lt show "unat (ucast (irq p + 32) :: u64) = unat (irq p) + 32"
      by (simp add: unsigned_ucast_eq take_bit_nat_eq_self)
    show "unat (irq p) + 32 < 2 ^ 32" using lt by simp
  qed
  obtain y0 y1 y2 y3 where y: "a_int_irqs w = [y0, y1, y2, y3]"
    using assms(5) by (auto simp: eval_nat_numeral length_Suc_conv)
  obtain c where "route_pins ops prt base [(0, IntA), (1, IntB), (2, IntC), (3, IntD)] w
      = Inr ([(irq IntA, IntA), (irq IntB, IntB), (irq IntC, IntC), (irq IntD, IntD)],
          w\<lparr>a_aml := Some c, a_int_irqs := map (\<lambda>p. ucast (irq p + 32)) [IntA, IntB, IntC, IntD]\<rparr>)"
    using route_pins_run [OF assms(1-3), of "[(0, IntA), (1, IntB), (2, IntC), (3, IntD)]"] v(2) y
    by (auto simp: numeral_2_eq_2 numeral_3_eq_3)
  then show ?thesis by (intro exI conjI) (assumption, simp_all add: v)
qed

lemma idt_init_first:
  assumes "a_idt w = None" and "map unat (a_int_irqs w) = [a, b, c, d]" and "a < 256" "b < 256" "c < 256" "d < 256"
  shows "idt_init w = Inr ((), w\<lparr>a_idt := Some \<lparr>idt_table = build_idt a b c d,
    idt_clone = Some (build_idt a b c d), idt_loaded = Some (build_idt a b c d)\<rparr>\<rparr>)"
proof -
  obtain x0 x1 x2 x3 where x: "a_int_irqs w = [x0, x1, x2, x3]" "unat x0 = a" "unat x1 = b" "unat x2 = c" "unat x3 = d"
    using assms(2) by (auto simp: map_eq_Cons_conv)
  then show ?thesis
    using assms(1,3-6) by (auto simp: idt_init_def force_idt_def act_simps interrupts_init_def Let_def numeral_2_eq_2 numeral_3_eq_3)
qed

text \<open>The vectors the table has handlers of its own for.\<close>

definition fixed_vectors :: "nat set" where
  "fixed_vectors = {49, 128, 130, 132, 139, 151, 254, 255}"

lemma build_idt_pins:
  assumes "distinct [a, b, c, d]" and "\<forall>i \<in> {a, b, c, d}. 32 \<le> i \<and> i < 256 \<and> i \<notin> fixed_vectors"
  shows "build_idt a b c d a = Some h_pin_inta" "build_idt a b c d b = Some h_pin_intb"
    "build_idt a b c d c = Some h_pin_intc" "build_idt a b c d d = Some h_pin_intd"
  using assms by (auto simp: build_idt_def fixed_vectors_def)

text \<open>The interrupt controllers keep what they are told, seen through \<open>view\<close>: the entry of a line and
  whether the line is enabled. Nothing else changes.\<close>

definition chips_ok ::
  "(('m, 'd, 'io, 'x, 'a) acpi_world, 'l, 'i, 'e) x2apic_ops \<Rightarrow> ('x \<Rightarrow> 'i \<times> u8 \<Rightarrow> 'e \<times> bool) \<Rightarrow> 'l \<Rightarrow> u32 \<Rightarrow> bool" where
  "chips_ok ops view lapic ident \<longleftrightarrow>
     (\<forall>w. lapic_id ops lapic w = Inr (ident, w))
     \<and> (\<forall>pic n w. \<exists>x. ioapic_init ops pic n w = Inr ((), w\<lparr>a_apics := x\<rparr>)
          \<and> (\<forall>k. fst k \<noteq> pic \<longrightarrow> view x k = view (a_apics w) k))
     \<and> (\<forall>pic n e w. \<exists>x. ioapic_set_entry ops pic n e w = Inr ((), w\<lparr>a_apics := x\<rparr>)
          \<and> view x = (view (a_apics w))((pic, n) := (e, snd (view (a_apics w) (pic, n)))))
     \<and> (\<forall>pic n w. \<exists>x. ioapic_enable ops pic n w = Inr ((), w\<lparr>a_apics := x\<rparr>)
          \<and> view x = (view (a_apics w))((pic, n) := (fst (view (a_apics w) (pic, n)), True)))"

definition line_entry :: "('s, 'l, 'i, 'e) x2apic_ops \<Rightarrow> u32 \<Rightarrow> u8 \<Rightarrow> 'e" where
  "line_entry ops ident n = entry_set_dest ops (ucast ident) (entry_set_vector ops n
     (entry_set_level_low ops (entry_set_mode_fixed ops (entry_default ops))))"

lemma ioapic_irq_run:
  assumes "chips_ok ops view lapic ident"
  shows "\<exists>x. sbind (lapic_id ops lapic) (ioapic_irq ops pic n) w = Inr ((), w\<lparr>a_apics := x\<rparr>)
    \<and> view x = (view (a_apics w))((pic, n) := (line_entry ops ident n, True))"
proof -
  obtain x where x: "ioapic_set_entry ops pic n (line_entry ops ident n) w = Inr ((), w\<lparr>a_apics := x\<rparr>)"
    "view x = (view (a_apics w))((pic, n) := (line_entry ops ident n, snd (view (a_apics w) (pic, n))))"
    using assms unfolding chips_ok_def by blast
  obtain y where y: "ioapic_enable ops pic n (w\<lparr>a_apics := x\<rparr>) = Inr ((), (w\<lparr>a_apics := x\<rparr>)\<lparr>a_apics := y\<rparr>)"
    "view y = (view (a_apics (w\<lparr>a_apics := x\<rparr>)))((pic, n) := (fst (view (a_apics (w\<lparr>a_apics := x\<rparr>)) (pic, n)), True))"
    using assms unfolding chips_ok_def by blast
  have "lapic_id ops lapic w = Inr (ident, w)" using assms by (simp add: chips_ok_def)
  then show ?thesis
    using x y by (simp add: act_simps ioapic_irq_def line_entry_def) (rule exI, rule conjI, rule refl, simp)
qed

lemma ioapic_lines_run:
  assumes "chips_ok ops view lapic ident"
  shows "\<exists>x. for_act (\<lambda>i. sbind (lapic_id ops lapic) (ioapic_irq ops pic (of_nat i))) [0..<n] w = Inr ((), w\<lparr>a_apics := x\<rparr>)
    \<and> (\<forall>i < n. view x (pic, of_nat i) = (line_entry ops ident (of_nat i), True))
    \<and> (\<forall>k. fst k \<noteq> pic \<longrightarrow> view x k = view (a_apics w) k)"
proof (induction n)
  case 0
  have "w\<lparr>a_apics := a_apics w\<rparr> = w" by (cases w) simp
  then show ?case by (auto simp: act_simps intro: exI [of _ "a_apics w"])
next
  case (Suc n)
  then obtain x where x: "for_act (\<lambda>i. sbind (lapic_id ops lapic) (ioapic_irq ops pic (of_nat i))) [0..<n] w = Inr ((), w\<lparr>a_apics := x\<rparr>)"
    "\<forall>i < n. view x (pic, of_nat i) = (line_entry ops ident (of_nat i), True)"
    "\<forall>k. fst k \<noteq> pic \<longrightarrow> view x k = view (a_apics w) k" by blast
  obtain y where y: "sbind (lapic_id ops lapic) (ioapic_irq ops pic (of_nat n)) (w\<lparr>a_apics := x\<rparr>) = Inr ((), (w\<lparr>a_apics := x\<rparr>)\<lparr>a_apics := y\<rparr>)"
    "view y = (view x)((pic, of_nat n) := (line_entry ops ident (of_nat n), True))"
    using ioapic_irq_run [OF assms, of pic "of_nat n" "w\<lparr>a_apics := x\<rparr>"] by auto
  have "for_act (\<lambda>i. sbind (lapic_id ops lapic) (ioapic_irq ops pic (of_nat i))) [0..<Suc n] w = Inr ((), w\<lparr>a_apics := y\<rparr>)"
    using x(1) y(1) by (simp add: for_act_append) (simp add: sthen_def sbind_def ret_def)
  moreover have "\<forall>i < Suc n. view y (pic, of_nat i) = (line_entry ops ident (of_nat i), True)"
    using x(2) by (auto simp: y(2) less_Suc_eq)
  moreover have "\<forall>k. fst k \<noteq> pic \<longrightarrow> view y k = view (a_apics w) k" using x(3) by (auto simp: y(2))
  ultimately show ?case by blast
qed

lemma init_ioapics_run:
  assumes "chips_ok ops view lapic ident"
  shows "\<exists>x. for_act (init_ioapic ops lapic) pics w = Inr ((), w\<lparr>a_apics := x\<rparr>)
    \<and> (\<forall>pic \<in> set pics. \<forall>i < 223. view x (pic, of_nat i) = (line_entry ops ident (of_nat i), True))
    \<and> (\<forall>k. fst k \<notin> set pics \<longrightarrow> view x k = view (a_apics w) k)"
proof (induction pics arbitrary: w)
  case Nil
  have "w\<lparr>a_apics := a_apics w\<rparr> = w" by (cases w) simp
  then show ?case by (auto simp: act_simps intro: exI [of _ "a_apics w"])
next
  case (Cons p pics)
  obtain x where x: "ioapic_init ops p 32 w = Inr ((), w\<lparr>a_apics := x\<rparr>)" "\<forall>k. fst k \<noteq> p \<longrightarrow> view x k = view (a_apics w) k"
    using assms unfolding chips_ok_def by blast
  obtain y where y: "for_act (\<lambda>i. sbind (lapic_id ops lapic) (ioapic_irq ops p (of_nat i))) [0..<223] (w\<lparr>a_apics := x\<rparr>) = Inr ((), w\<lparr>a_apics := y\<rparr>)"
    "\<forall>i < 223. view y (p, of_nat i) = (line_entry ops ident (of_nat i), True)" "\<forall>k. fst k \<noteq> p \<longrightarrow> view y k = view x k"
    using ioapic_lines_run [OF assms, of p 223 "w\<lparr>a_apics := x\<rparr>"] by auto
  have first: "init_ioapic ops lapic p w = Inr ((), w\<lparr>a_apics := y\<rparr>)"
    using x(1) y(1) by (simp add: init_ioapic_def act_simps)
  obtain z where z: "for_act (init_ioapic ops lapic) pics (w\<lparr>a_apics := y\<rparr>) = Inr ((), (w\<lparr>a_apics := y\<rparr>)\<lparr>a_apics := z\<rparr>)"
    "\<forall>pic \<in> set pics. \<forall>i < 223. view z (pic, of_nat i) = (line_entry ops ident (of_nat i), True)"
    "\<forall>k. fst k \<notin> set pics \<longrightarrow> view z k = view (a_apics (w\<lparr>a_apics := y\<rparr>)) k"
    using Cons.IH [of "w\<lparr>a_apics := y\<rparr>"] by blast
  have "for_act (init_ioapic ops lapic) (p # pics) w = Inr ((), w\<lparr>a_apics := z\<rparr>)"
    using z(1) by (simp add: act_simps first)
  moreover have "view z (p, of_nat i) = (line_entry ops ident (of_nat i), True)" if "i < 223" for i
    using that y(2) z(2,3) by (cases "p \<in> set pics") simp_all
  ultimately show ?case using x(2) y(3) z(2,3) by (intro exI [of _ z]) auto
qed

lemma pic_writes_run:
  "for_act (\<lambda>(port, v). acpi_out io 1 port (ucast v)) ws w
    = Inr ((), w\<lparr>a_ports := fold (\<lambda>(port, v). port_out io 1 port (ucast v)) ws (a_ports w)\<rparr>)"
proof (induction ws arbitrary: w)
  case Nil
  show ?case by (cases w) (simp add: ret_def)
next
  case (Cons pv ws)
  then show ?case by (cases pv) (simp add: act_simps acpi_out_def)
qed

definition address_ok :: "('m, 'd) menv \<Rightarrow> u64 \<Rightarrow> bool" where
  "address_ok env a \<longleftrightarrow> unat a + unat (moffset env) < 2 ^ 47"

lemma map_at_offset:
  assumes "direct_map_ok env" and "kmapper (mkm (a_machine w)) \<noteq> None" "kfalloc (mkm (a_machine w)) \<noteq> None"
    and "address_ok env a"
  shows "add_ck a (moffset env) = Inr (a + moffset env)"
    and "acpi_machine (mmap env a (a + moffset env)) w = Inr ((), w)"
proof -
  have u: "unat (a + moffset env) = unat a + unat (moffset env)" and lt: "unat a + unat (moffset env) < 2 ^ 47"
    using assms(4) by (simp_all add: address_ok_def unat_word_ariths)
  then show "add_ck a (moffset env) = Inr (a + moffset env)" by (simp add: add_ck_def)
  have "mmap env a (a + moffset env) (a_machine w) = Inr ((), a_machine w)"
    using u lt by (intro mmap_refused [OF assms(1) _ _ assms(2,3)]) auto
  moreover have "w\<lparr>a_machine := a_machine w\<rparr> = w" by (cases w) simp
  ultimately show "acpi_machine (mmap env a (a + moffset env)) w = Inr ((), w)"
    by (simp add: acpi_machine_def)
qed

lemma add_ioapics_run:
  assumes "direct_map_ok env" and "kmapper (mkm (a_machine w)) \<noteq> None" "kfalloc (mkm (a_machine w)) \<noteq> None"
    and "\<forall>a \<in> set as. address_ok env (ucast a)"
  shows "add_ioapics env ops as w = Inr (map (\<lambda>a. ioapic_new ops (ucast a + moffset env)) as, w)"
  using assms(4)
  by (induction "as") (simp_all add: act_simps add_ioapic_def map_at_offset [OF assms(1-3)])

section \<open>An example\<close>

text \<open>Plain memory, ports that record what is written, controllers that are functions from lines to
  entries, and a routing table with four numbers.\<close>

definition example_ports :: "(u16 \<times> u64) list port_ops" where
  "example_ports = \<lparr>port_in = (\<lambda>n port io. (0, io)), port_out = (\<lambda>n port v io. io @ [(port, v)])\<rparr>"

type_synonym example_world =
  "(unit, u64 \<Rightarrow> u8, (u16 \<times> u64) list, u64 \<times> u8 \<Rightarrow> (u8 \<times> u8) \<times> bool, unit) acpi_world"

definition example_apics :: "(example_world, unit, u64, u8 \<times> u8) x2apic_ops" where
  "example_apics = \<lparr>lapic_build = (\<lambda>t e s a w. Inr (Some (), w)), lapic_id = (\<lambda>l w. Inr (7, w)), ioapic_new = id,
     ioapic_init = (\<lambda>pic n w. Inr ((), w)),
     ioapic_set_entry = (\<lambda>pic n e w. Inr ((), w\<lparr>a_apics := (a_apics w)((pic, n) := (e, snd (a_apics w (pic, n))))\<rparr>)),
     ioapic_enable = (\<lambda>pic n w. Inr ((), w\<lparr>a_apics := (a_apics w)((pic, n) := (fst (a_apics w (pic, n)), True))\<rparr>)),
     entry_default = (0, 0), entry_set_mode_fixed = id, entry_set_level_low = id,
     entry_set_vector = (\<lambda>v e. (v, snd e)), entry_set_dest = (\<lambda>d e. (fst e, d))\<rparr>"

fun example_irq :: "pin \<Rightarrow> u32" where
  "example_irq IntA = 16"
| "example_irq IntB = 18"
| "example_irq IntC = 19"
| "example_irq IntD = 20"

definition example_aml :: "(example_world, unit, unit) aml_ops" where
  "example_aml = \<lparr>aml_new = (), aml_initialize_objects = (\<lambda>c w. Inr ((True, c), w)),
     aml_parse_table = (\<lambda>t c w. Inr ((True, c), w)),
     aml_invoke_method = (\<lambda>m args c w. Inr ((Some (AmlPackage [AmlInteger 5, AmlInteger 0]), c), w)),
     aml_from_prt_path = (\<lambda>p c w. Inr ((Some (), c), w)),
     aml_route_pin = (\<lambda>prt d f p c w. Inr ((Some (example_irq p), c), w))\<rparr>"

definition example_fadt :: fadt where
  "example_fadt = \<lparr>dsdt_address = None, smi_cmd_port = 0xB2, acpi_enable = 2, pm1a_control_block = Some 0x604,
     pm1b_control_block = Some 0x608\<rparr>"

definition example_aworld :: example_world where
  "example_aworld = \<lparr>a_machine = ahci_state\<lparr>mdev := \<lambda>_. 0\<rparr>, a_ports = [], a_idt = None, a_int_irqs = [0, 0, 0, 0],
     a_interrupts = False, a_apics = (\<lambda>_. ((0, 0), False)), a_apic_ready = False, a_aml = Some (),
     a_fadt = Some example_fadt, a_dsdt_mapped = 0\<rparr>"

lemma example_pci_env_direct: "direct_map_ok example_pci_env"
  by (simp add: direct_map_ok_def example_pci_env_def ahci_env_def ref_phys_ops_ok)

lemma example_pci_env_values:
  "moffset example_pci_env = 0" "mbus example_pci_env = plain_bus" "page_of (mpage example_pci_env) = page_down"
  by (simp_all add: example_pci_env_def ahci_env_def)

lemma example_chips_ok: "chips_ok example_apics (\<lambda>x. x) () 7"
proof -
  have "w\<lparr>a_apics := a_apics w\<rparr> = w" for w :: example_world by (cases w) simp
  then have "\<exists>x. Inr ((), w) = Inr ((), w\<lparr>a_apics := x\<rparr>) \<and> (\<forall>k. fst k \<noteq> pic \<longrightarrow> x k = a_apics w k)" for w :: example_world and pic
    by (intro exI [of _ "a_apics w"]) simp
  then show ?thesis unfolding chips_ok_def by (auto simp: example_apics_def)
qed

section \<open>Properties\<close>



text \<open>C24. The address of a configuration register has segment, bus, device, function and offset in
  separate bits, so that different registers have different addresses.\<close>

theorem pci_address_injective:
  "unat (pci_address s b d f k) = unat k + 2 ^ 16 * unat f + 2 ^ 24 * unat d + 2 ^ 32 * unat b + 2 ^ 40 * unat s
   \<and> (pci_address s b d f k = pci_address s' b' d' f' k' \<longleftrightarrow> s = s' \<and> b = b' \<and> d = d' \<and> f = f' \<and> k = k')"
proof -
  have split: "x + m * y = x' + m * y' \<longleftrightarrow> x = x' \<and> y = y'" if "x < m" "x' < m" for x x' y y' m :: nat
  proof
    assume eq: "x + m * y = x' + m * y'"
    then have "(x + m * y) mod m = (x' + m * y') mod m" "(x + m * y) div m = (x' + m * y') div m" by simp_all
    then show "x = x' \<and> y = y'" using that by simp
  qed simp
  have 16: "unat x < 2 ^ 16" for x :: u16 using unsigned_less [of x, where 'a = nat] by simp
  have 8: "unat x < 2 ^ 8" for x :: u8 using unsigned_less [of x, where 'a = nat] by simp
  have "pci_address s b d f k = pci_address s' b' d' f' k' \<longleftrightarrow> s = s' \<and> b = b' \<and> d = d' \<and> f = f' \<and> k = k'"
    unfolding word_unat_eq_iff unat_pci_address split [OF 16 16] split [OF 8 8] by blast
  then show ?thesis by (simp add: unat_pci_address)
qed

text \<open>A segment from 128 on gives an address that is not canonical, and every access panics.\<close>

theorem pci_segment_panics:
  assumes "128 \<le> segment" and "\<forall>a. 2 ^ 47 \<le> unat a \<and> unat a < 2 ^ 64 - 2 ^ 47 \<longrightarrow> (\<exists>e. virt_new (mpage env) a = Inl e)"
  shows "\<exists>e. read_pci_u32 env segment bus device func offs st = Inl e
    \<and> write_pci_u32 env segment bus device func offs v st = Inl e"
proof -
  let ?a = "pci_address segment bus device func offs"
  have "unat segment < 2 ^ 16" "unat func < 2 ^ 8" "unat device < 2 ^ 8" "unat bus < 2 ^ 8" "unat offs < 2 ^ 16"
    using unsigned_less [of segment, where 'a = nat] unsigned_less [of func, where 'a = nat]
      unsigned_less [of device, where 'a = nat] unsigned_less [of bus, where 'a = nat]
      unsigned_less [of offs, where 'a = nat] by simp_all
  moreover have "128 \<le> unat segment" using assms(1) by (simp add: word_le_nat_alt)
  ultimately have "2 ^ 47 \<le> unat ?a" "unat ?a < 2 ^ 64 - 2 ^ 47" by (simp_all add: unat_pci_address)
  then obtain e where "virt_new (mpage env) ?a = Inl e" using assms(2) by blast
  then show ?thesis
    by (simp add: read_pci_u32_def write_pci_u32_def handler_read_def handler_write_def handler_map_def act_simps)
qed



text \<open>Routing another device changes the stored numbers only: the loaded table is the copy made for the
  first device, so the new vectors get no handlers.\<close>

theorem aml_route_later_device:
  assumes aml: "aml_answers ops prt route" "a_aml w \<noteq> None"
    and route: "\<forall>p. route (ucast base) (ucast base) p = Some (irq p)" "\<forall>p. unat (irq p) + 32 < 256"
    and later: "a_idt w = Some st" "idt_clone st = Some t" "a_apic_ready w" "length (a_int_irqs w) = 4"
  shows "\<exists>w'. aml_route ops apics base w
      = Inr (Some [(irq IntA, IntA), (irq IntB, IntB), (irq IntC, IntC), (irq IntD, IntD)], w')
    \<and> map unat (a_int_irqs w') = map (\<lambda>p. unat (irq p) + 32) [IntA, IntB, IntC, IntD]
    \<and> a_idt w' = Some (st\<lparr>idt_loaded := Some t\<rparr>)"
proof -
  obtain c0 where prt: "with_aml (aml_from_prt_path ops ''_SB.PCI0._PRT'') w = Inr (Some prt, w\<lparr>a_aml := Some c0\<rparr>)"
    using with_aml_prt [OF aml] by blast
  obtain w2 where pins: "route_pins ops prt base [(0, IntA), (1, IntB), (2, IntC), (3, IntD)] (w\<lparr>a_aml := Some c0\<rparr>)
        = Inr ([(irq IntA, IntA), (irq IntB, IntB), (irq IntC, IntC), (irq IntD, IntD)], w2)"
      "a_idt w2 = Some st" "map unat (a_int_irqs w2) = map (\<lambda>p. unat (irq p) + 32) [IntA, IntB, IntC, IntD]" "a_apic_ready w2"
    using route_four [OF aml(1), of "w\<lparr>a_aml := Some c0\<rparr>" base irq] route later by auto
  have "interrupts_init st = st\<lparr>idt_loaded := Some t\<rparr>"
    using later(2) by (cases st) (simp add: interrupts_init_def)
  then have "idt_init w2 = Inr ((), w2\<lparr>a_idt := Some (st\<lparr>idt_loaded := Some t\<rparr>)\<rparr>)"
    using pins(2) by (simp add: idt_init_def force_idt_def act_simps)
  then show ?thesis
    using pins(3,4) by (simp add: aml_route_def act_simps prt pins(1) del: route_pins.simps One_nat_def)
qed



text \<open>C27. Shutting down writes the sleep types of the package the firmware returns, with the enable bit 13,
  to the two control blocks of the description table, and never returns.\<close>

theorem system_shutdown_ports:
  assumes "\<forall>c w. \<exists>v c'. aml_invoke_method ops ''_PTS'' [5] c w = Inr ((v, c'), w)"
    and "\<forall>c w. \<exists>c'. aml_invoke_method ops ''_S5'' [] c w = Inr ((Some (AmlPackage (AmlInteger a # AmlInteger b # vs)), c'), w)"
    and "a_aml w \<noteq> None" and "a_fadt w = Some f"
    and "pm1a_control_block f = Some pa" and "pm1b_control_block f = Some pb"
  shows "(\<exists>c. shutdown_writes io ops w = Inr ((), w\<lparr>a_aml := Some c,
      a_ports := port_out io 2 (ucast pb) (ucast ((ucast b :: u16) OR 0x2000))
        (port_out io 2 (ucast pa) (ucast ((ucast a :: u16) OR 0x2000)) (a_ports w))\<rparr>))
    \<and> system_shutdown io ops w = Inl (Panic UnreachableCode)"
proof -
  from assms(3) obtain c where c: "a_aml w = Some c" by blast
  obtain v c1 where 1: "aml_invoke_method ops ''_PTS'' [5] c w = Inr ((v, c1), w)" using assms(1) by blast
  obtain c2 where 2: "aml_invoke_method ops ''_S5'' [] c1 (w\<lparr>a_aml := Some c1\<rparr>)
      = Inr ((Some (AmlPackage (AmlInteger a # AmlInteger b # vs)), c2), w\<lparr>a_aml := Some c1\<rparr>)"
    using assms(2) by blast
  have bit: "push_bit 13 (1 :: u16) = 0x2000" by simp
  have "shutdown_writes io ops w = Inr ((), w\<lparr>a_aml := Some c2,
      a_ports := port_out io 2 (ucast pb) (ucast ((ucast b :: u16) OR 0x2000))
        (port_out io 2 (ucast pa) (ucast ((ucast a :: u16) OR 0x2000)) (a_ports w))\<rparr>)"
    using c 1 2 assms(4-6)
    by (simp add: shutdown_writes_def with_aml_def expect_def unwrap_def act_simps write_sleep_def slice_get_def acpi_out_def)
  then show ?thesis by (intro conjI exI [of _ c2]) (simp_all add: system_shutdown_def act_simps)
qed

theorem system_shutdown_ports_witness:
  "system_shutdown example_ports example_aml example_aworld = Inl (Panic UnreachableCode)"
proof -
  have "aml_invoke_method example_aml m xs c w = Inr ((Some (AmlPackage [AmlInteger 5, AmlInteger 0]), c), w)" for m xs c w
    by (simp add: example_aml_def)
  then show ?thesis
    by (intro system_shutdown_ports [where a = 5 and b = 0 and vs = "[]" and f = example_fadt and pa = "0x604" and pb = "0x608", THEN conjunct2])
      (simp_all add: example_aworld_def example_fadt_def)
qed

end
