(* ===== verification/Boot.thy ===== *)
theory Boot
  imports Exceptions Acpi_Handler
begin

text \<open>
  The entry point \<^verbatim>\<open>maink\<close> of \<^verbatim>\<open>src/src/main.rs\<close>, up to its rendering loop, with the statics it
  fills, and the kernel's logger \<^verbatim>\<open>Printk\<close> of \<^verbatim>\<open>src/src/common/mod.rs\<close>.

  \<open>boot\<close> holds the statics (\<^verbatim>\<open>PRINTK\<close>, \<^verbatim>\<open>USER_ACPI\<close>, \<^verbatim>\<open>INTERRUPT_MODEL\<close>, \<^verbatim>\<open>PCI_CONFIG\<close>,
  \<^verbatim>\<open>TLS_TEMPLATE_ADDR\<close>; \<^verbatim>\<open>MAPPER\<close> and \<^verbatim>\<open>FRAME_ALLOCATOR\<close> are in the memory manager of the PCI
  subsystem's world), the segment registers and the logger of the \<^verbatim>\<open>log\<close> crate. \<open>boot_env\<close> is what
  the boot loader passes and the crates return: the memory map, the frame buffer, the address of
  the root table, the ACPI tables, the platform's interrupt model and PCI regions, the address a
  box is given on the heap, and whether \<^verbatim>\<open>CPUID\<close> names a vendor.

  \<^verbatim>\<open>heap_init\<close>, \<^verbatim>\<open>exceptions::init\<close>, \<^verbatim>\<open>UserAcpi::new\<close> and \<^verbatim>\<open>pci_impl::init\<close> are the definitions
  of the other theories. The messages printed on the way are left out. The loop after the last
  step is \<open>render\<close> of the theory of the canvases, repeated.
\<close>

section \<open>The logger\<close>

datatype level = Error | Warn | Info | Debug | Trace

primrec level_number :: "level \<Rightarrow> nat" where
  "level_number Error = 1"
| "level_number Warn = 2"
| "level_number Info = 3"
| "level_number Debug = 4"
| "level_number Trace = 5"

primrec level_name :: "level \<Rightarrow> string" where
  "level_name Error = ''ERROR''"
| "level_name Warn = ''WARN''"
| "level_name Info = ''INFO''"
| "level_name Debug = ''DEBUG''"
| "level_name Trace = ''TRACE''"

text \<open>The writer of the boot loader's crate is a parameter: it takes a string and may fail.\<close>

record 'fb printk =
  pk_lock :: lock_state
  pk_writer :: 'fb

definition printk_new :: "'fb \<Rightarrow> 'fb printk" where
  "printk_new w = \<lparr>pk_lock = Free, pk_writer = w\<rparr>"

text \<open>\<^verbatim>\<open>try_read\<close> succeeds exactly when \<^verbatim>\<open>read\<close> need not wait; the guard it returns is dropped at
  once.\<close>

definition is_locked :: "lock_ops \<Rightarrow> 'fb printk \<Rightarrow> bool" where
  "is_locked lo p = (case lk_read lo (pk_lock p) of Inr _ \<Rightarrow> False | Inl _ \<Rightarrow> True)"

definition printk_force_unlock :: "'fb printk \<Rightarrow> 'fb printk" where
  "printk_force_unlock p = p\<lparr>pk_lock := Free\<rparr>"

definition log_enabled :: "nat \<Rightarrow> level \<Rightarrow> bool" where
  "log_enabled max_level l \<longleftrightarrow> level_number l \<le> max_level"

text \<open>The format \<^verbatim>\<open>"{:5}: {}"\<close> and the line feed of \<^verbatim>\<open>writeln!\<close>.\<close>

definition log_line :: "level \<Rightarrow> string \<Rightarrow> string" where
  "log_line l msg =
     level_name l @ replicate (5 - length (level_name l)) (CHR '' '') @ '': '' @ msg @ [CHR 0x0A]"

definition write_str ::
  "lock_ops \<Rightarrow> (string \<Rightarrow> 'fb \<Rightarrow> bool \<times> 'fb) \<Rightarrow> string \<Rightarrow> 'fb printk \<Rightarrow> (bool \<times> 'fb printk) exec" where
  "write_str lo fbw s p =
     rbind (lk_write lo (pk_lock p)) (\<lambda>_.
       let (ok, w) = fbw s (pk_writer p) in Inr (ok, p\<lparr>pk_lock := Free, pk_writer := w\<rparr>))"

definition printk_log ::
  "lock_ops \<Rightarrow> (string \<Rightarrow> 'fb \<Rightarrow> bool \<times> 'fb) \<Rightarrow> nat \<Rightarrow> level \<Rightarrow> string \<Rightarrow> 'fb printk \<Rightarrow> 'fb printk exec" where
  "printk_log lo fbw max_level l msg p =
     (if log_enabled max_level l then
        rbind (write_str lo fbw (log_line l msg) p) (\<lambda>(ok, p).
          if ok then Inr p else Inl (Panic UnwrapNone))
      else Inr p)"

text \<open>\<^verbatim>\<open>detect_deadlock\<close> panics while the logger is locked, and otherwise returns \<^verbatim>\<open>None\<close>.\<close>

definition detect_deadlock :: "lock_ops \<Rightarrow> 'fb printk option \<Rightarrow> unit exec" where
  "detect_deadlock lo pk =
     rbind (unwrap pk) (\<lambda>p. if is_locked lo p then Inl (Panic ExplicitPanic) else Inr ())"

section \<open>The statics and what the boot loader passes\<close>

definition BOOT_INFO_ADDR :: u64 where
  "BOOT_INFO_ADDR = BEGIN_HEAP div 32"

definition KERNEL_STACK_ADDR :: u64 where
  "KERNEL_STACK_ADDR = 0xffff00000000"

datatype mapping = FixedAddress u64 | Dynamic

record boot_mappings =
  map_kernel_stack :: mapping
  map_boot_info :: mapping
  map_framebuffer :: mapping
  map_physical_memory :: "mapping option"
  map_page_table_recursive :: "mapping option"
  map_aslr :: bool
  dynamic_range_start :: "u64 option"
  dynamic_range_end :: "u64 option"

text \<open>\<^verbatim>\<open>MAPPINGS\<close>, all of whose fields the source sets, and the size of the stack in \<^verbatim>\<open>CONFIG\<close>.\<close>

definition MAPPINGS :: boot_mappings where
  "MAPPINGS = \<lparr>map_kernel_stack = FixedAddress KERNEL_STACK_ADDR,
     map_boot_info = FixedAddress BOOT_INFO_ADDR, map_framebuffer = Dynamic,
     map_physical_memory = Some Dynamic, map_page_table_recursive = None, map_aslr = False,
     dynamic_range_start = Some 0, dynamic_range_end = Some 0xffffffffffff\<rparr>"

definition kernel_stack_size :: nat where
  "kernel_stack_size = 1024 * 1024 * 128"

definition TLS_TEMPLATE_SIZE :: u64 where
  "TLS_TEMPLATE_SIZE = 0x6000000"

record tls_template =
  tls_start_addr :: u64
  tls_file_size :: u64
  tls_mem_size :: u64

record ('m, 'd, 'h, 'g, 'fb, 'b, 'p, 'q, 'c, 'i, 'r) boot =
  b_world :: "('m, 'd, 'h) pci_world"
  b_segments :: "'g segment_regs"
  b_tls_addr :: u64
  b_tls :: "tls_template option"
  b_printk :: "'fb printk option"
  b_logger :: bool
  b_max_level :: nat
  b_user_acpi :: "('b, 'p, 'q, 'c) user_acpi option"
  b_interrupt_model :: "'i option"
  b_pci_config :: "'r option option"

record ('m, 'd, 'g, 'fb, 'b, 'p, 'q, 'c, 'i, 'r) boot_env =
  be_machine :: "('m, 'd) menv"
  be_page_table :: 'm
  be_regions :: "mem_region list"
  be_gdt :: "'g gdt_ops"
  be_stacks :: "u16 \<Rightarrow> u64"
  be_framebuffer :: "'fb option"
  be_rsdp :: "u64 option"
  be_vendor :: bool
  be_opt_level_0 :: bool
  be_box :: u64
  be_tables :: "u64 \<Rightarrow> (('m, 'd) mstate, ('b, 'p, 'q, 'c) acpi_tables option) act"
  be_platform :: "('b, 'p, 'q, 'c) acpi_tables \<Rightarrow> 'i option"
  be_pci_regions :: "('b, 'p, 'q, 'c) acpi_tables \<Rightarrow> 'r option"
  be_physical_address :: "'r \<Rightarrow> u16 \<Rightarrow> u8 \<Rightarrow> u8 \<Rightarrow> u8 \<Rightarrow> u64 option"

text \<open>\<^verbatim>\<open>get_next_usable_frame\<close>: the first of the usable frames, whether or not it was allocated.\<close>

definition get_next_usable_frame :: "phys_ops \<Rightarrow> 'm kmem \<Rightarrow> u64 exec" where
  "get_next_usable_frame ops km =
     rbind (unwrap (kfalloc km)) (\<lambda>fa. rbind (usable_nth ops fa 0) expect)"

definition get_mcfg :: "'r option option \<Rightarrow> 'r option exec" where
  "get_mcfg pci_config = unwrap pci_config"

section \<open>Booting\<close>

text \<open>\<^verbatim>\<open>printk_init\<close>: the logger may be set once only.\<close>

definition printk_init ::
  "bool \<Rightarrow> 'fb \<Rightarrow> ('m, 'd, 'h, 'g, 'fb, 'b, 'p, 'q, 'c, 'i, 'r) boot
   \<Rightarrow> ('m, 'd, 'h, 'g, 'fb, 'b, 'p, 'q, 'c, 'i, 'r) boot exec" where
  "printk_init opt0 buffer s =
     (if b_logger s then Inl (Panic ExpectFailed)
      else Inr (s\<lparr>b_printk := Some (case_option (printk_new buffer) id (b_printk s)), b_logger := True,
                  b_max_level := level_number (if opt0 then Trace else Info)\<rparr>))"

text \<open>Heap, descriptor tables, template for thread-local storage, logger.\<close>

definition boot_early ::
  "('m, 'd, 'g, 'fb, 'b, 'p, 'q, 'c, 'i, 'r) boot_env \<Rightarrow> ('m, 'd, 'h, 'g, 'fb, 'b, 'p, 'q, 'c, 'i, 'r) boot
   \<Rightarrow> (u64 \<times> ('m, 'd, 'h, 'g, 'fb, 'b, 'p, 'q, 'c, 'i, 'r) boot) exec" where
  "boot_early env s =
     (let menv = be_machine env; m = w_machine (b_world s) in
      rbind (heap_init (mpage menv) (mflags menv) (be_page_table env) (be_regions env) (mkm m)) (\<lambda>km.
      rbind (exceptions_init (virt_new (mpage menv)) (be_gdt env) (be_stacks env) (b_segments s)) (\<lambda>segs.
      let s = s\<lparr>b_world := (b_world s)\<lparr>w_machine := m\<lparr>mkm := km\<rparr>\<rparr>, b_segments := segs,
            b_tls_addr := be_box env,
            b_tls := Some \<lparr>tls_start_addr = be_box env, tls_file_size = TLS_TEMPLATE_SIZE - 1,
              tls_mem_size = TLS_TEMPLATE_SIZE\<rparr>\<rparr> in
      rbind (unwrap (be_framebuffer env)) (\<lambda>buffer.
      rbind (unwrap (be_rsdp env)) (\<lambda>rsdp.
      rbind (printk_init (be_opt_level_0 env) buffer s) (\<lambda>s.
      rbind (unwrap (if be_vendor env then Some () else None)) (\<lambda>_.
      rbind (unwrap (if be_regions env = [] then None else Some ())) (\<lambda>_. Inr (rsdp, s)))))))))"

text \<open>The ACPI tables. The result tells whether devices are to be set up next: not when there are
  no tables or no platform information.\<close>

definition boot_acpi ::
  "('m, 'd, 'g, 'fb, 'b, 'p, 'q, 'c, 'i, 'r) boot_env \<Rightarrow> u64
   \<Rightarrow> ('m, 'd, 'h, 'g, 'fb, 'b, 'p, 'q, 'c, 'i, 'r) boot
   \<Rightarrow> (('b, 'p, 'q, 'c) acpi_tables option \<times> ('m, 'd, 'h, 'g, 'fb, 'b, 'p, 'q, 'c, 'i, 'r) boot) exec" where
  "boot_acpi env rsdp s =
     rbind (be_tables env rsdp (w_machine (b_world s))) (\<lambda>(t, m).
     let s = s\<lparr>b_world := (b_world s)\<lparr>w_machine := m\<rparr>\<rparr> in
     case t of
       None \<Rightarrow> Inr (None, s)
     | Some tables \<Rightarrow>
         rbind (case b_user_acpi s of None \<Rightarrow> user_acpi_new tables | Some u \<Rightarrow> Inr u) (\<lambda>u.
         let s = s\<lparr>b_user_acpi := Some u\<rparr> in
         case be_platform env tables of
           None \<Rightarrow> Inr (None, s)
         | Some im \<Rightarrow>
             Inr (Some tables, s\<lparr>b_interrupt_model := Some (case_option im id (b_interrupt_model s)),
               b_pci_config := Some (case_option (be_pci_regions env tables) id (b_pci_config s))\<rparr>)))"

text \<open>The accessors of the boot information, and the ends of the kernel: the handler of panics and that of
  failed allocations. \<open>shutdown_on_panic\<close> is the feature of that name.\<close>

definition get_framebuffer :: "'fb option \<Rightarrow> 'fb exec" where
  "get_framebuffer fb = unwrap fb"

definition get_phys_offset :: "u64 option \<Rightarrow> u64 exec" where
  "get_phys_offset physical_memory_offset = unwrap physical_memory_offset"

definition panic_handler ::
  "bool \<Rightarrow> 'io port_ops \<Rightarrow> (('m, 'd, 'io, 'x, 'a) acpi_world, 'a, 'p) aml_ops
   \<Rightarrow> (('m, 'd, 'io, 'x, 'a) acpi_world, unit) act" where
  "panic_handler shutdown_on_panic io ops =
     (if shutdown_on_panic then system_shutdown io ops else halt Diverge)"

definition alloc_err :: "'a exec" where
  "alloc_err = Inl (Panic ExplicitPanic)"

text \<open>The whole of \<^verbatim>\<open>maink\<close> before its loop. \<open>aml_setup\<close>, \<open>aml\<close>, \<open>xhci\<close> and \<open>start\<close> are the calls
  \<^verbatim>\<open>pci_impl::init\<close> makes into the ACPI interpreter and the drivers.\<close>

definition maink ::
  "('m, 'd, 'g, 'fb, 'b, 'p, 'q, 'c, 'i, 'r) boot_env \<Rightarrow> 'h pcics_ops \<Rightarrow> apic_env
   \<Rightarrow> (('b, 'p, 'q, 'c) acpi_tables \<Rightarrow> (('m, 'd, 'h) pci_world, unit) act)
   \<Rightarrow> ('h \<Rightarrow> (('m, 'd, 'h) pci_world, unit) act) \<Rightarrow> (('m, 'd, 'h) pci_world, unit) act
   \<Rightarrow> (pci_driver \<Rightarrow> 'h \<Rightarrow> (('m, 'd, 'h) pci_world, 'h) act)
   \<Rightarrow> ('m, 'd, 'h, 'g, 'fb, 'b, 'p, 'q, 'c, 'i, 'r) boot
   \<Rightarrow> ('m, 'd, 'h, 'g, 'fb, 'b, 'p, 'q, 'c, 'i, 'r) boot exec" where
  "maink env ops ap aml_setup aml xhci start s =
     rbind (boot_early env s) (\<lambda>(rsdp, s).
     rbind (boot_acpi env rsdp s) (\<lambda>(t, s).
       case t of
         None \<Rightarrow> Inr s
       | Some tables \<Rightarrow>
           rbind (get_mcfg (b_pci_config s)) (\<lambda>regions.
           rbind (pci_init (be_machine env) ops ap (be_opt_level_0 env)
               (map_option (be_physical_address env) regions) (aml_setup tables) aml xhci start
               (b_world s)) (\<lambda>(_, w). Inr (s\<lparr>b_world := w\<rparr>)))))"

section \<open>Lemmas\<close>

text \<open>What the boot loader and the crates promise: a page table without the heap's pages and enough
  usable frames, stacks and descriptor table as in the theory of exceptions, a frame buffer, the
  root table's address, and tables that parse, without unmapping anything, and are complete.\<close>

definition boot_env_ok ::
  "('m, 'd, 'g, 'fb, 'b, 'p, 'q, 'c, 'i, 'r) boot_env \<Rightarrow> ('m \<Rightarrow> u64 \<rightharpoonup> u64) \<Rightarrow> ('g \<Rightarrow> nat)
   \<Rightarrow> ('g \<Rightarrow> u16 \<rightharpoonup> descriptor) \<Rightarrow> 'fb \<Rightarrow> u64 \<Rightarrow> ('b, 'p, 'q, 'c) acpi_tables \<Rightarrow> bool" where
  "boot_env_ok env tr used entry buffer rsdp tables \<longleftrightarrow>
     page_ops_ok (mpage (be_machine env)) tr \<and> memory_map_ok (be_regions env)
     \<and> 32768 \<le> length (usable_addrs (be_regions env))
     \<and> (\<forall>p \<in> set heap_pages. tr (be_page_table env) p = None)
     \<and> stacks_ok (virt_new (mpage (be_machine env))) (be_stacks env)
     \<and> gdt_ops_ok (be_gdt env) used entry
     \<and> be_framebuffer env = Some buffer \<and> be_rsdp env = Some rsdp \<and> be_vendor env
     \<and> (\<forall>m mp. kmapper (mkm m) = Some mp \<longrightarrow>
          (\<exists>m' mp'. be_tables env rsdp m = Inr (Some tables, m') \<and> kmapper (mkm m') = Some mp'
             \<and> (\<forall>p f. tr mp p = Some f \<longrightarrow> tr mp' p = Some f)))"

lemma boot_env_okD:
  assumes "boot_env_ok env tr used entry buffer rsdp tables"
  shows "page_ops_ok (mpage (be_machine env)) tr" "memory_map_ok (be_regions env)"
    "32768 \<le> length (usable_addrs (be_regions env))"
    "\<forall>p \<in> set heap_pages. tr (be_page_table env) p = None"
    "stacks_ok (virt_new (mpage (be_machine env))) (be_stacks env)"
    "gdt_ops_ok (be_gdt env) used entry"
    "be_framebuffer env = Some buffer" "be_rsdp env = Some rsdp" "be_vendor env"
    "be_regions env \<noteq> []"
  using assms by (auto simp: boot_env_ok_def usable_addrs_def)

lemma boot_env_tables:
  assumes "boot_env_ok env tr used entry buffer rsdp tables" "kmapper (mkm m) = Some mp"
  obtains m' mp' where "be_tables env rsdp m = Inr (Some tables, m')" "kmapper (mkm m') = Some mp'"
    "\<And>p f. tr mp p = Some f \<Longrightarrow> tr mp' p = Some f"
  using assms unfolding boot_env_ok_def by blast

definition statics_fresh :: "('m, 'd, 'h, 'g, 'fb, 'b, 'p, 'q, 'c, 'i, 'r) boot \<Rightarrow> bool" where
  "statics_fresh s \<longleftrightarrow> mkm (w_machine (b_world s)) = \<lparr>kmapper = None, kfalloc = None\<rparr>
     \<and> \<not> b_logger s \<and> b_printk s = None \<and> b_user_acpi s = None \<and> b_interrupt_model s = None
     \<and> b_pci_config s = None"

lemma heap_pages_mapped:
  assumes "length fs = length heap_pages" "p \<in> set heap_pages"
  shows "((m :: u64 \<rightharpoonup> u64)(heap_pages [\<mapsto>] fs)) p \<noteq> None"
  using assms map_upds_nth [OF distinct_heap_pages assms(1)] by (metis in_set_conv_nth option.distinct(1))

text \<open>The first half: heap, segments and logger are in place.\<close>

lemma boot_early_run:
  assumes ok: "boot_env_ok env tr used entry buffer rsdp tables" and "statics_fresh s"
  obtains s1 mp where "boot_early env s = Inr (rsdp, s1)"
    "kmapper (mkm (w_machine (b_world s1))) = Some mp" "\<forall>p \<in> set heap_pages. tr mp p \<noteq> None"
    "gdtr (b_segments s1) \<noteq> None" "b_printk s1 = Some (printk_new buffer)" "b_logger s1"
    "b_user_acpi s1 = None" "b_interrupt_model s1 = None" "b_pci_config s1 = None"
proof -
  note env = boot_env_okD [OF ok]
  obtain mp fa fs where heap: "heap_init (mpage (be_machine env)) (mflags (be_machine env))
        (be_page_table env) (be_regions env) \<lparr>kmapper = None, kfalloc = None\<rparr>
      = Inr \<lparr>kmapper = Some mp, kfalloc = Some fa\<rparr>"
    and fs: "length fs = length heap_pages" "tr mp = (tr (be_page_table env))(heap_pages [\<mapsto>] fs)"
    using heap_init_run [OF env(1-4)] by metis
  obtain g where segs: "exceptions_init (virt_new (mpage (be_machine env))) (be_gdt env)
      (be_stacks env) (b_segments s) = Inr ((b_segments s)\<lparr>gdtr := Some g, cs_reg := 8, ds_reg := 16,
        es_reg := 24, fs_reg := 32, gs_reg := 40, tr_reg := 48\<rparr>)"
    by (rule exceptions_init_run [OF env(5,6), of "b_segments s"])
  define s1 where "s1 = s\<lparr>b_world := (b_world s)\<lparr>w_machine := (w_machine (b_world s))
      \<lparr>mkm := \<lparr>kmapper = Some mp, kfalloc = Some fa\<rparr>\<rparr>\<rparr>,
    b_segments := (b_segments s)\<lparr>gdtr := Some g, cs_reg := 8, ds_reg := 16, es_reg := 24,
      fs_reg := 32, gs_reg := 40, tr_reg := 48\<rparr>,
    b_tls_addr := be_box env,
    b_tls := Some \<lparr>tls_start_addr = be_box env, tls_file_size = TLS_TEMPLATE_SIZE - 1,
      tls_mem_size = TLS_TEMPLATE_SIZE\<rparr>,
    b_printk := Some (printk_new buffer), b_logger := True,
    b_max_level := level_number (if be_opt_level_0 env then Trace else Info)\<rparr>"
  have fresh: "mkm (w_machine (b_world s)) = \<lparr>kmapper = None, kfalloc = None\<rparr>" "\<not> b_logger s"
    "b_printk s = None" "b_user_acpi s = None" "b_interrupt_model s = None" "b_pci_config s = None"
    using assms(2) by (simp_all add: statics_fresh_def)
  have run: "boot_early env s = Inr (rsdp, s1)"
    by (simp add: boot_early_def fresh heap segs env(7-10) unwrap_def printk_init_def rbind_def
        s1_def)
  have mapped: "\<forall>p \<in> set heap_pages. tr mp p \<noteq> None"
    using heap_pages_mapped [OF fs(1)] by (simp add: fs(2))
  show thesis by (rule that [OF run _ mapped]) (simp_all add: s1_def fresh)
qed

section \<open>Properties\<close>


text \<open>The logger writes one line for a message of an enabled level, nothing for another, and is
  unlocked again. But a message from an interrupt handler that came while the logger was locked
  never gets written: the handler waits for the code it interrupted. This is what
  \<^verbatim>\<open>detect_deadlock\<close> reports.\<close>

theorem printk_log_once:
  assumes "lock_ops_ok lo" and "\<forall>s w. fst (fbw s w)" and "pk_lock p \<in> {Free, Writer}"
  shows "printk_log lo fbw max_level l msg p
      = (if \<not> log_enabled max_level l then Inr p
         else if pk_lock p = Writer then Inl Diverge
         else Inr (p\<lparr>pk_writer := snd (fbw (log_line l msg) (pk_writer p))\<rparr>))
    \<and> detect_deadlock lo (Some p) = (if pk_lock p = Writer then Inl (Panic ExplicitPanic) else Inr ())"
proof -
  obtain lk w where p: "p = \<lparr>pk_lock = lk, pk_writer = w\<rparr>" by (cases p)
  obtain w' where w: "fbw (log_line l msg) w = (True, w')" using assms(2) by (metis (full_types) prod.collapse)
  show ?thesis
    using assms(1,3) w
    by (auto simp: p printk_log_def write_str_def detect_deadlock_def is_locked_def lock_ops_ok_def
        unwrap_def rbind_def)
qed

text \<open>A boot with 255 MiB of memory, all stacks in one place, and tables that are there.\<close>

definition plain_tables :: "(unit, unit, unit, unit) acpi_tables" where
  "plain_tables = \<lparr>tab_bgrt = Some (),
     tab_fadt = Some \<lparr>dsdt_address = None, smi_cmd_port = 0, acpi_enable = 0,
       pm1a_control_block = None, pm1b_control_block = None\<rparr>,
     tab_hpet = Some (), tab_madt = Some (), tab_mcfg = Some [], tab_dsdt = None, tab_ssdts = []\<rparr>"

definition plain_env ::
  "(u64 \<rightharpoonup> u64, unit, nat \<times> (u16 \<rightharpoonup> descriptor), unit, unit, unit, unit, unit, unit, unit) boot_env" where
  "plain_env = \<lparr>be_machine = \<lparr>mpage = map_instance, mflags = mflags ahci_env, moffset = 0,
       mbus = \<lparr>bus_read = (\<lambda>w a d. (0, d)), bus_write = (\<lambda>w a v d. d)\<rparr>, mbits = ref_bit_ops,
       mphys_new = (\<lambda>a. Inr a)\<rparr>,
     be_page_table = Map.empty, be_regions = big_map, be_gdt = list_gdt,
     be_stacks = (\<lambda>_. 0x200000), be_framebuffer = Some (), be_rsdp = Some 0xe0000, be_vendor = True,
     be_opt_level_0 = False, be_box = 0, be_tables = (\<lambda>r m. Inr (Some plain_tables, m)),
     be_platform = (\<lambda>t. Some ()), be_pci_regions = (\<lambda>t. Some ()),
     be_physical_address = (\<lambda>r s b d f. None)\<rparr>"

definition plain_boot ::
  "(u64 \<rightharpoonup> u64, unit, unit, nat \<times> (u16 \<rightharpoonup> descriptor), unit, unit, unit, unit, unit, unit, unit) boot" where
  "plain_boot = \<lparr>b_world = \<lparr>w_machine = \<lparr>mkm = \<lparr>kmapper = None, kfalloc = None\<rparr>, mdev = ()\<rparr>,
       w_idt = \<lparr>idt_table = Map.empty, idt_clone = None, idt_loaded = None\<rparr>, w_table = pci_table_new\<rparr>,
     b_segments = \<lparr>gdtr = None, cs_reg = 0, ds_reg = 0, es_reg = 0, fs_reg = 0, gs_reg = 0, tr_reg = 0\<rparr>,
     b_tls_addr = 0, b_tls = None, b_printk = None, b_logger = False, b_max_level = 0,
     b_user_acpi = None, b_interrupt_model = None, b_pci_config = None\<rparr>"

lemma list_gdt_ok: "gdt_ops_ok list_gdt fst snd"
  by (auto simp: gdt_ops_ok_def list_gdt_def)

lemma plain_env_ok: "boot_env_ok plain_env id fst snd () 0xe0000 plain_tables"
  using map_instance_ok big_map_ok list_gdt_ok
  by (simp add: boot_env_ok_def plain_env_def big_map_length stacks_ok_def STACK_LEN_def
      map_instance_def)


text \<open>The handler of panics does not return, whether it shuts the machine down or waits.\<close>

theorem panic_handler_never_returns: "\<exists>e. panic_handler b io ops w = Inl e"
proof (cases "shutdown_writes io ops w")
  case (Inr r)
  then show ?thesis by (cases r) (simp add: panic_handler_def system_shutdown_def act_simps)
qed (simp add: panic_handler_def system_shutdown_def act_simps)

end
