(* ===== verification/Hmfs.thy ===== *)
theory Hmfs
  imports Prelude
begin

text \<open>
  The file system of \<^verbatim>\<open>src/src/fs/hmfs.rs\<close>; \<^verbatim>\<open>src/hmfsprogs/src/main.rs\<close> is a copy of it.

  Directories, entries and root entries are shared through \<^verbatim>\<open>Arc\<close>. The heap keeps each kind of
  cell with its reference count, so that \<^verbatim>\<open>Arc::clone\<close>, \<^verbatim>\<open>drop\<close>, \<^verbatim>\<open>Arc::strong_count\<close> and
  \<^verbatim>\<open>Arc::get_mut\<close>, which succeeds for the only owner alone, are what they are in the source. A
  value that goes out of scope gives up the references it holds; a directory or a root entry
  never loses its last one in these functions.

  The crates are parameters. \<open>hm_ops\<close> are \<^verbatim>\<open>hashbrown\<close>'s map (\<open>'c\<close> its contents), \<^verbatim>\<open>Sha3_512\<close> on
  the bytes written so far, the conversion of a name to a \<^verbatim>\<open>PathBuf\<close>, and the bytes that the hashes
  of \<^verbatim>\<open>PathBuf\<close> and \<^verbatim>\<open>Mime\<close> write. A checksum follows the references of a value; \<open>hash_depth\<close> is how
  many it may follow one after the other before the stack is used up.
\<close>

section \<open>The hasher\<close>

text \<open>\<^verbatim>\<open>split_at_mut(8)\<close> panics on a shorter slice.\<close>

definition u64_from_slice :: "u8 list \<Rightarrow> u64 exec" where
  "u64_from_slice s =
     (if length s < 8 then Inl (Panic IndexOutOfBounds) else Inr (of_nat (be_value (take 8 s))))"

record HMFSHasher =
  written :: "u8 list"

definition hasher_default :: HMFSHasher where
  "hasher_default = \<lparr>written = []\<rparr>"

definition hasher_finish :: "(u8 list \<Rightarrow> u8 list) \<Rightarrow> HMFSHasher \<Rightarrow> u64 exec" where
  "hasher_finish sha3 hs = u64_from_slice (sha3 (written hs))"

definition hasher_write :: "u8 list \<Rightarrow> HMFSHasher \<Rightarrow> HMFSHasher" where
  "hasher_write bytes hs = hs\<lparr>written := written hs @ bytes\<rparr>"

section \<open>Entries\<close>

type_synonym time_t = "128 word"

type_synonym FileData = "u8 list"

datatype EntryKind = Directory nat | File FileData | Root nat

record Entry =
  e_kind :: EntryKind
  e_checksum :: u64
  e_parent :: "EntryKind option"

record ('p, 'm) Properties =
  p_name :: string
  p_full_path :: 'p
  p_entry_kind :: EntryKind
  p_mime_type :: "'m option"
  p_mode :: u32
  p_created_by :: string
  p_date_created :: time_t
  p_date_modified :: time_t
  p_owner :: string

record RootEntry =
  r_magic :: u32
  r_system_clock :: time_t
  r_entry_count :: nat
  r_checksum :: u64
  r_dir :: Entry

datatype errno = EACCES | ENOTDIR

section \<open>Reference counted cells\<close>

type_synonym 'v arcs = "nat \<rightharpoonup> nat \<times> 'v"

record 'c hmheap =
  dirs :: "'c arcs"
  entries :: "Entry arcs"
  roots :: "RootEntry arcs"
  next_cell :: nat

record ('c, 'p, 'm) hm_ops =
  hm_default :: 'c
  hm_insert :: "('p, 'm) Properties \<Rightarrow> nat \<Rightarrow> 'c \<Rightarrow> nat option \<times> 'c"
  hm_get :: "('p, 'm) Properties \<Rightarrow> 'c \<Rightarrow> nat option"
  hm_remove_entry :: "('p, 'm) Properties \<Rightarrow> 'c \<Rightarrow> (('p, 'm) Properties \<times> nat) option \<times> 'c"
  hm_iter :: "'c \<Rightarrow> (('p, 'm) Properties \<times> nat) list"
  hm_sha3 :: "u8 list \<Rightarrow> u8 list"
  to_path_buf :: "string \<Rightarrow> 'p"
  path_bytes :: "'p \<Rightarrow> u8 list"
  mime_bytes :: "'m \<Rightarrow> u8 list"
  hash_depth :: nat

text \<open>\<^verbatim>\<open>Arc::clone\<close>, \<^verbatim>\<open>drop\<close>, dereference, \<^verbatim>\<open>Arc::strong_count\<close> and
  \<^verbatim>\<open>Arc::get_mut(..).unwrap()\<close> on a table of cells. Safe code never holds a dangling reference.\<close>

definition arc_clone :: "nat \<Rightarrow> 'v arcs \<Rightarrow> 'v arcs" where
  "arc_clone a m = (case m a of None \<Rightarrow> m | Some (n, v) \<Rightarrow> m(a \<mapsto> (n + 1, v)))"

definition arc_drop :: "nat \<Rightarrow> 'v arcs \<Rightarrow> 'v arcs" where
  "arc_drop a m =
     (case m a of None \<Rightarrow> m | Some (n, v) \<Rightarrow> if n \<le> 1 then m(a := None) else m(a \<mapsto> (n - 1, v)))"

definition arc_deref :: "nat \<Rightarrow> 'v arcs \<Rightarrow> 'v exec" where
  "arc_deref a m = (case m a of None \<Rightarrow> Inl Abort | Some (n, v) \<Rightarrow> Inr v)"

definition strong_count :: "nat \<Rightarrow> 'v arcs \<Rightarrow> nat" where
  "strong_count a m = (case m a of None \<Rightarrow> 0 | Some (n, v) \<Rightarrow> n)"

definition arc_get_mut :: "nat \<Rightarrow> 'v arcs \<Rightarrow> 'v exec" where
  "arc_get_mut a m =
     (if strong_count a m = 1 then arc_deref a m else Inl (Panic UnwrapNone))"

definition arc_set :: "nat \<Rightarrow> 'v \<Rightarrow> 'v arcs \<Rightarrow> 'v arcs" where
  "arc_set a v m = (case m a of None \<Rightarrow> m | Some (n, _) \<Rightarrow> m(a \<mapsto> (n, v)))"

text \<open>\<^verbatim>\<open>Arc::new\<close> for the three kinds of cell.\<close>

definition new_dir :: "'c \<Rightarrow> 'c hmheap \<Rightarrow> nat \<times> 'c hmheap" where
  "new_dir c h = (next_cell h,
     h\<lparr>dirs := (dirs h)(next_cell h \<mapsto> (1, c)), next_cell := next_cell h + 1\<rparr>)"

definition new_entry :: "Entry \<Rightarrow> 'c hmheap \<Rightarrow> nat \<times> 'c hmheap" where
  "new_entry e h = (next_cell h,
     h\<lparr>entries := (entries h)(next_cell h \<mapsto> (1, e)), next_cell := next_cell h + 1\<rparr>)"

definition new_root :: "RootEntry \<Rightarrow> 'c hmheap \<Rightarrow> nat \<times> 'c hmheap" where
  "new_root r h = (next_cell h,
     h\<lparr>roots := (roots h)(next_cell h \<mapsto> (1, r)), next_cell := next_cell h + 1\<rparr>)"

text \<open>The derived \<^verbatim>\<open>clone\<close> of a value takes a reference for each one it holds, and dropping the
  value gives them up again.\<close>

fun clone_kind :: "EntryKind \<Rightarrow> 'c hmheap \<Rightarrow> 'c hmheap" where
  "clone_kind (Directory d) h = h\<lparr>dirs := arc_clone d (dirs h)\<rparr>"
| "clone_kind (File data) h = h"
| "clone_kind (Root r) h = h\<lparr>roots := arc_clone r (roots h)\<rparr>"

fun drop_kind :: "EntryKind \<Rightarrow> 'c hmheap \<Rightarrow> 'c hmheap" where
  "drop_kind (Directory d) h = h\<lparr>dirs := arc_drop d (dirs h)\<rparr>"
| "drop_kind (File data) h = h"
| "drop_kind (Root r) h = h\<lparr>roots := arc_drop r (roots h)\<rparr>"

definition clone_entry :: "Entry \<Rightarrow> 'c hmheap \<Rightarrow> 'c hmheap" where
  "clone_entry e h = case_option id clone_kind (e_parent e) (clone_kind (e_kind e) h)"

definition drop_entry :: "Entry \<Rightarrow> 'c hmheap \<Rightarrow> 'c hmheap" where
  "drop_entry e h = case_option id drop_kind (e_parent e) (drop_kind (e_kind e) h)"

definition drop_entry_arc :: "nat \<Rightarrow> 'c hmheap \<Rightarrow> 'c hmheap" where
  "drop_entry_arc a h =
     (case entries h a of None \<Rightarrow> h
      | Some (n, e) \<Rightarrow>
          (let h' = h\<lparr>entries := arc_drop a (entries h)\<rparr> in if n \<le> 1 then drop_entry e h' else h'))"

section \<open>Checksums\<close>

text \<open>What the \<^verbatim>\<open>Hash\<close> of the standard library writes: an integer its bytes in the order of the
  machine, a string its bytes and \<^verbatim>\<open>0xff\<close>, a vector its length and its elements, an option the
  number of its variant first. A derived \<^verbatim>\<open>Hash\<close> goes through the fields in their order, and an
  \<^verbatim>\<open>Arc\<close> hashes what it refers to. \<open>kh\<close> is the hash of an \<^verbatim>\<open>EntryKind\<close>.\<close>

definition hash_int :: "nat \<Rightarrow> 'a::len word \<Rightarrow> HMFSHasher \<Rightarrow> HMFSHasher" where
  "hash_int n w = hasher_write (le_bytes n w)"

definition hash_usize :: "nat \<Rightarrow> HMFSHasher \<Rightarrow> HMFSHasher" where
  "hash_usize n = hash_int 8 (of_nat n :: usize)"

definition hash_str :: "string \<Rightarrow> HMFSHasher \<Rightarrow> HMFSHasher" where
  "hash_str s hs = hasher_write [0xff] (hasher_write (map of_char s) hs)"

definition hash_bytes :: "u8 list \<Rightarrow> HMFSHasher \<Rightarrow> HMFSHasher" where
  "hash_bytes bs hs = hasher_write bs (hash_usize (length bs) hs)"

definition hash_option ::
  "('a \<Rightarrow> HMFSHasher \<Rightarrow> HMFSHasher exec) \<Rightarrow> 'a option \<Rightarrow> HMFSHasher \<Rightarrow> HMFSHasher exec" where
  "hash_option f x hs =
     (case x of None \<Rightarrow> Inr (hash_usize 0 hs) | Some v \<Rightarrow> f v (hash_usize 1 hs))"

definition entry_hash ::
  "(EntryKind \<Rightarrow> HMFSHasher \<Rightarrow> HMFSHasher exec) \<Rightarrow> Entry \<Rightarrow> HMFSHasher \<Rightarrow> HMFSHasher exec" where
  "entry_hash kh e hs =
     rbind (kh (e_kind e) hs) (\<lambda>hs. hash_option kh (e_parent e) (hash_int 8 (e_checksum e) hs))"

definition properties_hash ::
  "('c, 'p, 'm) hm_ops \<Rightarrow> (EntryKind \<Rightarrow> HMFSHasher \<Rightarrow> HMFSHasher exec) \<Rightarrow> ('p, 'm) Properties
    \<Rightarrow> HMFSHasher \<Rightarrow> HMFSHasher exec" where
  "properties_hash ops kh p hs =
     rbind (kh (p_entry_kind p)
       (hasher_write (path_bytes ops (p_full_path p)) (hash_str (p_name p) hs))) (\<lambda>hs.
     rbind (hash_option (\<lambda>m hs. Inr (hasher_write (mime_bytes ops m) hs)) (p_mime_type p) hs) (\<lambda>hs.
       Inr (hash_str (p_owner p) (hash_int 16 (p_date_modified p) (hash_int 16 (p_date_created p)
         (hash_str (p_created_by p) (hash_int 4 (p_mode p) hs)))))))"

definition root_entry_hash ::
  "(EntryKind \<Rightarrow> HMFSHasher \<Rightarrow> HMFSHasher exec) \<Rightarrow> RootEntry \<Rightarrow> HMFSHasher \<Rightarrow> HMFSHasher exec" where
  "root_entry_hash kh r hs =
     entry_hash kh (r_dir r) (hash_int 8 (r_checksum r) (hash_usize (r_entry_count r)
       (hash_int 16 (r_system_clock r) (hash_int 4 (r_magic r) hs))))"

definition dir_item_hash ::
  "('c, 'p, 'm) hm_ops \<Rightarrow> 'c hmheap \<Rightarrow> (EntryKind \<Rightarrow> HMFSHasher \<Rightarrow> HMFSHasher exec)
    \<Rightarrow> ('p, 'm) Properties \<times> nat \<Rightarrow> HMFSHasher \<Rightarrow> HMFSHasher exec" where
  "dir_item_hash ops h kh item hs =
     rbind (properties_hash ops kh (fst item) hs) (\<lambda>hs.
     rbind (arc_deref (snd item) (entries h)) (\<lambda>e. entry_hash kh e hs))"

fun kind_hash ::
  "('c, 'p, 'm) hm_ops \<Rightarrow> 'c hmheap \<Rightarrow> nat \<Rightarrow> EntryKind \<Rightarrow> HMFSHasher \<Rightarrow> HMFSHasher exec" where
  "kind_hash ops h 0 k hs = Inl Diverge"
| "kind_hash ops h (Suc n) k hs =
     (case k of
        Directory d \<Rightarrow>
          rbind (arc_deref d (dirs h)) (\<lambda>c.
            for_each (dir_item_hash ops h (kind_hash ops h n)) (hm_iter ops c) hs)
      | File data \<Rightarrow> Inr (hash_bytes data hs)
      | Root r \<Rightarrow>
          rbind (arc_deref r (roots h)) (\<lambda>re. root_entry_hash (kind_hash ops h n) re hs))"

text \<open>\<^verbatim>\<open>hasher().hash_one\<close> of a kind and of an entry.\<close>

definition hash_kind :: "('c, 'p, 'm) hm_ops \<Rightarrow> 'c hmheap \<Rightarrow> EntryKind \<Rightarrow> u64 exec" where
  "hash_kind ops h k =
     rbind (kind_hash ops h (hash_depth ops) k hasher_default) (hasher_finish (hm_sha3 ops))"

definition hash_entry :: "('c, 'p, 'm) hm_ops \<Rightarrow> 'c hmheap \<Rightarrow> Entry \<Rightarrow> u64 exec" where
  "hash_entry ops h e =
     rbind (entry_hash (kind_hash ops h (hash_depth ops)) e hasher_default) (hasher_finish (hm_sha3 ops))"

section \<open>Operations\<close>

definition properties_new ::
  "('c, 'p, 'm) hm_ops \<Rightarrow> string \<Rightarrow> EntryKind \<Rightarrow> 'm option \<Rightarrow> u32 \<Rightarrow> string \<Rightarrow> time_t \<Rightarrow> time_t
    \<Rightarrow> string \<Rightarrow> ('p, 'm) Properties" where
  "properties_new ops name entry_kind mime mode created_by created modified owner =
     \<lparr>p_name = name, p_full_path = to_path_buf ops name, p_entry_kind = entry_kind,
      p_mime_type = mime, p_mode = mode, p_created_by = created_by, p_date_created = created,
      p_date_modified = modified, p_owner = owner\<rparr>"

definition HMFS_MAGIC :: u32 where
  "HMFS_MAGIC = 0x90a7cafe"

definition get_root_dir :: "RootEntry \<Rightarrow> 'c hmheap \<Rightarrow> (Entry \<times> 'c hmheap) exec" where
  "get_root_dir r h =
     (if r_magic r = HMFS_MAGIC then Inr (r_dir r, clone_entry (r_dir r) h)
      else Inl (Panic AssertFailed))"

definition entry_parent :: "Entry \<Rightarrow> 'c hmheap \<Rightarrow> EntryKind option \<times> 'c hmheap" where
  "entry_parent e h = (e_parent e, case_option id clone_kind (e_parent e) h)"

text \<open>\<^verbatim>\<open>Entry::new\<close> takes over the references of its arguments.\<close>

definition entry_new ::
  "('c, 'p, 'm) hm_ops \<Rightarrow> EntryKind \<Rightarrow> EntryKind option \<Rightarrow> 'c hmheap \<Rightarrow> (Entry \<times> 'c hmheap) exec" where
  "entry_new ops kind parent h =
     (let new = \<lparr>e_kind = kind, e_checksum = 0, e_parent = parent\<rparr>;
          h = case_option id clone_kind parent h
      in case parent of
        None \<Rightarrow> Inr (new, h)
      | Some (Directory d) \<Rightarrow>
          rbind (hash_entry ops h new) (\<lambda>checksum.
            Inr (new\<lparr>e_checksum := checksum\<rparr>, drop_kind (Directory d) h))
      | Some (File _) \<Rightarrow> Inl (Panic ExplicitPanic)
      | Some (Root r) \<Rightarrow>
          (let h = clone_kind (Root r) h in
           rbind (arc_deref r (roots h)) (\<lambda>re.
           rbind (get_root_dir re h) (\<lambda>(root, h).
             case e_kind root of
               Directory d \<Rightarrow>
                 rbind (hash_entry ops h new) (\<lambda>checksum.
                   Inr (new\<lparr>e_checksum := checksum\<rparr>,
                     drop_kind (Root r) (drop_kind (Root r) (drop_entry root h))))
             | _ \<Rightarrow> Inl (Panic UnreachableCode)))))"

text \<open>\<^verbatim>\<open>Arc::get_mut(dir).unwrap().insert(props, entry)\<close>, then the look-up of the new entry by the
  same properties and a clone of it. The key and the entry take over the references of \<open>props\<close>
  and of \<open>to_insert\<close>; an entry that was there before is dropped.\<close>

definition insert_dir ::
  "('c, 'p, 'm) hm_ops \<Rightarrow> nat \<Rightarrow> ('p, 'm) Properties \<Rightarrow> Entry \<Rightarrow> 'c hmheap \<Rightarrow> (Entry \<times> 'c hmheap) exec" where
  "insert_dir ops d props to_insert h =
     rbind (arc_get_mut d (dirs h)) (\<lambda>c.
       let h = clone_kind (p_entry_kind props) h;
           (e, h) = new_entry to_insert h;
           (old, c) = hm_insert ops props e c;
           h = case_option id drop_entry_arc old (h\<lparr>dirs := arc_set d c (dirs h)\<rparr>)
       in rbind (unwrap (hm_get ops props c)) (\<lambda>ret.
          rbind (arc_deref ret (entries h)) (\<lambda>entry.
            Inr (entry, clone_entry entry h))))"

text \<open>The part of \<^verbatim>\<open>mkdir\<close> that adds the new directory to the directory \<open>d\<close>.\<close>

definition mkdir_in ::
  "('c, 'p, 'm) hm_ops \<Rightarrow> nat \<Rightarrow> string \<Rightarrow> time_t \<Rightarrow> 'c hmheap \<Rightarrow> (Entry \<times> 'c hmheap) exec" where
  "mkdir_in ops d name timestamp h =
     (let h = clone_kind (Directory d) h;
          (new_map, h) = new_dir (hm_default ops) h;
          h = clone_kind (Directory d) h;
          props = properties_new ops name (Directory d) None 511 ''root'' timestamp timestamp ''root'';
          kind = Directory new_map
      in rbind (hash_kind ops h kind) (\<lambda>checksum.
         let to_insert = \<lparr>e_kind = kind, e_checksum = checksum, e_parent = Some (Directory d)\<rparr>
         in rbind (insert_dir ops d props to_insert h) (\<lambda>(entry, h).
              Inr (entry, drop_kind (Directory d) h))))"

definition mkdir ::
  "('c, 'p, 'm) hm_ops \<Rightarrow> Entry \<Rightarrow> string \<Rightarrow> time_t \<Rightarrow> 'c hmheap \<Rightarrow> ((errno + Entry) \<times> 'c hmheap) exec" where
  "mkdir ops self name timestamp h =
     (let h = clone_kind (e_kind self) h
      in case e_kind self of
        Directory d \<Rightarrow>
          rbind (mkdir_in ops d name timestamp h) (\<lambda>(entry, h).
            Inr (Inr entry, drop_kind (Directory d) h))
      | Root r \<Rightarrow>
          rbind (arc_get_mut r (roots h)) (\<lambda>re.
            case e_kind (r_dir re) of
              Directory d \<Rightarrow>
                rbind (mkdir_in ops d name timestamp h) (\<lambda>(entry, h).
                  Inr (Inr entry, drop_kind (Root r) h))
            | _ \<Rightarrow> Inl (Panic UnreachableCode))
      | File _ \<Rightarrow> Inr (Inl ENOTDIR, h))"

definition create_file ::
  "('c, 'p, 'm) hm_ops \<Rightarrow> Entry \<Rightarrow> 'm \<Rightarrow> string \<Rightarrow> time_t \<Rightarrow> FileData \<Rightarrow> 'c hmheap
    \<Rightarrow> ((errno + Entry) \<times> 'c hmheap) exec" where
  "create_file ops self mime name timestamp data h =
     (let h = clone_kind (e_kind self) h
      in case e_kind self of
        Directory d \<Rightarrow>
          (let h = clone_kind (Directory d) (clone_kind (Directory d) h);
               props = properties_new ops name (Directory d) (Some mime) 511 ''root''
                 timestamp timestamp ''root'';
               kind = File data
           in rbind (hash_kind ops h kind) (\<lambda>checksum.
              let to_insert = \<lparr>e_kind = kind, e_checksum = checksum, e_parent = Some (Directory d)\<rparr>
              in rbind (insert_dir ops d props to_insert h) (\<lambda>(entry, h).
                   Inr (Inr entry, drop_kind (Directory d) (drop_kind (Directory d) h)))))
      | File _ \<Rightarrow> Inr (Inl ENOTDIR, h)
      | Root r \<Rightarrow> Inr (Inl EACCES, drop_kind (Root r) h))"

text \<open>\<^verbatim>\<open>RootEntry::new\<close>: the root's map is built twice, then the entry of the root is put into the
  map it is the directory of. \<open>root_map_new\<close> is the first step and \<open>refresh_root\<close> the last.\<close>

definition refresh_root ::
  "('c, 'p, 'm) hm_ops \<Rightarrow> nat \<Rightarrow> ('p, 'm) Properties \<Rightarrow> Entry \<Rightarrow> 'c hmheap \<Rightarrow> 'c hmheap exec" where
  "refresh_root ops d root_props entry h =
     rbind (arc_get_mut d (dirs h)) (\<lambda>c.
       let (removed, c) = hm_remove_entry ops root_props c;
           h = h\<lparr>dirs := arc_set d c (dirs h)\<rparr>;
           h = (case removed of None \<Rightarrow> h
                | Some (p, e) \<Rightarrow> drop_entry_arc e (drop_kind (p_entry_kind p) h))
       in rbind (arc_get_mut d (dirs h)) (\<lambda>c.
         let (e, h) = new_entry entry h;
             (old, c) = hm_insert ops root_props e c
         in Inr (case_option id drop_entry_arc old (h\<lparr>dirs := arc_set d c (dirs h)\<rparr>))))"

definition root_map_new ::
  "('c, 'p, 'm) hm_ops \<Rightarrow> time_t \<Rightarrow> 'c hmheap \<Rightarrow> (nat \<times> ('p, 'm) Properties \<times> 'c hmheap) exec" where
  "root_map_new ops timestamp h =
     (let (root_map, h) = new_dir (hm_default ops) h;
          h = clone_kind (Directory root_map) h;
          root_props = properties_new ops ''/'' (Directory root_map) None 511 ''root'' timestamp
            timestamp ''root'';
          h = clone_kind (Directory root_map) (clone_kind (p_entry_kind root_props) h)
      in rbind (entry_new ops (Directory root_map) None h) (\<lambda>(entry, h).
      let (e, h) = new_entry entry h;
          (old, inner) = hm_insert ops root_props e (hm_default ops);
          h = drop_kind (Directory root_map) (case_option id drop_entry_arc old h);
          (new_root_map, h) = new_dir inner h
      in Inr (new_root_map, root_props, h)))"

definition root_entry_new ::
  "('c, 'p, 'm) hm_ops \<Rightarrow> time_t \<Rightarrow> 'c hmheap \<Rightarrow> (RootEntry \<times> 'c hmheap) exec" where
  "root_entry_new ops timestamp h =
     rbind (root_map_new ops timestamp h) (\<lambda>(new_root_map, root_props, h).
      let h = clone_kind (Directory new_root_map) h
      in rbind (entry_new ops (Directory new_root_map) None h) (\<lambda>(old_entry, h).
      rbind (hash_entry ops h old_entry) (\<lambda>old_checksum.
      let parent = \<lparr>r_magic = HMFS_MAGIC, r_system_clock = timestamp,
            r_entry_count = strong_count new_root_map (dirs h),
            r_checksum = old_checksum, r_dir = old_entry\<rparr>;
          h = clone_entry old_entry (clone_kind (Directory new_root_map) h);
          (r, h) = new_root parent h
      in rbind (entry_new ops (Directory new_root_map) (Some (Root r)) h) (\<lambda>(first_entry, h).
      let h = drop_entry old_entry (clone_entry first_entry h);
          parent = parent\<lparr>r_dir := first_entry\<rparr>;
          (r', h) = new_root parent (clone_entry first_entry h);
          h = case_option id drop_kind (e_parent first_entry) h;
          dir = first_entry\<lparr>e_parent := Some (Root r')\<rparr>;
          h = drop_kind (e_kind dir) (clone_kind (Directory new_root_map) h);
          dir = dir\<lparr>e_kind := Directory new_root_map\<rparr>
      in rbind (hash_entry ops h first_entry) (\<lambda>checksum.
      let parent = parent\<lparr>r_dir := dir, r_checksum := checksum\<rparr>;
          h = clone_entry dir h
      in rbind (refresh_root ops new_root_map root_props dir h) (\<lambda>h.
           Inr (parent, drop_kind (Directory new_root_map) (drop_entry first_entry h))))))))"

section \<open>Lemmas\<close>

text \<open>A heap is well formed when every cell was handed out before and has an owner.\<close>

definition cells_ok :: "nat \<Rightarrow> 'v arcs \<Rightarrow> bool" where
  "cells_ok n m \<longleftrightarrow> (\<forall>a cv. m a = Some cv \<longrightarrow> a < n \<and> 0 < fst cv)"

definition hmheap_ok :: "'c hmheap \<Rightarrow> bool" where
  "hmheap_ok h \<longleftrightarrow> cells_ok (next_cell h) (dirs h) \<and> cells_ok (next_cell h) (entries h)
     \<and> cells_ok (next_cell h) (roots h)"

fun kind_valid :: "EntryKind \<Rightarrow> 'c hmheap \<Rightarrow> bool" where
  "kind_valid (Directory d) h \<longleftrightarrow> dirs h d \<noteq> None"
| "kind_valid (File data) h \<longleftrightarrow> True"
| "kind_valid (Root r) h \<longleftrightarrow> roots h r \<noteq> None"

lemma strong_count_clone [simp]:
  "m a \<noteq> None \<Longrightarrow> strong_count a (arc_clone a m) = strong_count a m + 1"
  by (auto simp: strong_count_def arc_clone_def)

lemma arc_clone_other [simp]: "b \<noteq> a \<Longrightarrow> arc_clone a m b = m b"
  by (auto simp: arc_clone_def split: option.splits)

lemma cells_okD: "cells_ok n m \<Longrightarrow> m a = Some (c, v) \<Longrightarrow> a < n \<and> 0 < c"
  unfolding cells_ok_def by fastforce

lemma arc_clone_drop:
  "m a \<noteq> None \<Longrightarrow> cells_ok n m \<Longrightarrow> arc_drop a (arc_clone a m) = m"
  by (auto simp: arc_clone_def arc_drop_def fun_eq_iff dest: cells_okD)

lemma arc_clone_dom [simp]: "arc_clone a m b = None \<longleftrightarrow> m b = None"
  by (auto simp: arc_clone_def split: option.splits)

lemma get_mut_shared:
  "strong_count a m \<noteq> 1 \<Longrightarrow> arc_get_mut a m = Inl (Panic UnwrapNone)"
  by (simp add: arc_get_mut_def)

lemma strong_count_pos:
  "cells_ok n m \<Longrightarrow> m a \<noteq> None \<Longrightarrow> 0 < strong_count a m \<and> a < n"
  by (auto simp: strong_count_def dest: cells_okD)

text \<open>What the operations rely on: a new map is empty, the first insertion finds no earlier entry
  and leaves one, a digest has 64 bytes, and three references may be followed.\<close>

definition hm_ops_ok :: "('c, 'p, 'm) hm_ops \<Rightarrow> bool" where
  "hm_ops_ok ops \<longleftrightarrow> hm_iter ops (hm_default ops) = [] \<and> (\<forall>bs. length (hm_sha3 ops bs) = 64)
     \<and> (\<forall>p e. fst (hm_insert ops p e (hm_default ops)) = None
          \<and> hm_iter ops (snd (hm_insert ops p e (hm_default ops))) = [(p, e)])
     \<and> 3 \<le> hash_depth ops"

lemma hasher_finish_ok: "hm_ops_ok ops \<Longrightarrow> \<exists>w. hasher_finish (hm_sha3 ops) hs = Inr w"
  by (simp add: hm_ops_ok_def hasher_finish_def u64_from_slice_def)

lemma hm_ops_depth:
  assumes "hm_ops_ok ops" obtains n where "hash_depth ops = Suc (Suc (Suc n))"
proof -
  have "3 \<le> hash_depth ops" using assms by (simp add: hm_ops_ok_def)
  then have "hash_depth ops = Suc (Suc (Suc (hash_depth ops - 3)))" by simp
  then show thesis using that by blast
qed

lemma hash_new_kind:
  assumes "hm_ops_ok ops"
  shows "dirs h d = Some (n, hm_default ops) \<Longrightarrow> \<exists>w. hash_kind ops h (Directory d) = Inr w"
    and "\<exists>w. hash_kind ops h (File data) = Inr w"
proof -
  obtain m where m: "hash_depth ops = Suc (Suc (Suc m))" using hm_ops_depth [OF assms] by blast
  show "\<exists>w. hash_kind ops h (File data) = Inr w"
    by (simp add: hash_kind_def m hasher_finish_ok [OF assms])
  show "\<exists>w. hash_kind ops h (Directory d) = Inr w" if "dirs h d = Some (n, hm_default ops)"
    using that assms by (simp add: hash_kind_def m arc_deref_def hasher_finish_ok hm_ops_ok_def
        hasher_finish_def u64_from_slice_def)
qed

lemma rbind_stops: "(\<exists>w. m = Inr w) \<Longrightarrow> (\<And>w. f w = Inl x) \<Longrightarrow> rbind m f = Inl x"
  by auto

lemma insert_dir_shared:
  "strong_count d (dirs h) \<noteq> 1 \<Longrightarrow> insert_dir ops d props e h = Inl (Panic UnwrapNone)"
  by (simp add: insert_dir_def get_mut_shared rbind_def)

lemma mkdir_in_shared:
  assumes "hmheap_ok h" "dirs h d \<noteq> None" "hm_ops_ok ops"
  shows "mkdir_in ops d name ts (clone_kind k h) = Inl (Panic UnwrapNone)"
proof -
  let ?h = "clone_kind k h"
  have d: "dirs ?h d \<noteq> None" "d < next_cell ?h"
    using assms by (cases k; auto simp: hmheap_ok_def cells_ok_def)+
  let ?m = "(arc_clone d (dirs ?h))(next_cell ?h \<mapsto> (1, hm_default ops))"
  have "?m d \<noteq> None" using d by simp
  moreover have "0 < strong_count d ?m"
    using d strong_count_clone [of "dirs ?h" d] by (simp add: strong_count_def)
  ultimately have "strong_count d (arc_clone d ?m) \<noteq> 1" by simp
  moreover have "arc_clone d ?m (next_cell ?h) = Some (1, hm_default ops)" using d by simp
  ultimately show ?thesis
    by (auto simp: mkdir_in_def new_dir_def Let_def insert_dir_shared simp del: fun_upd_apply
        intro!: rbind_stops hash_new_kind [OF assms(3)])
qed

lemma clone_drop_kind:
  assumes "hmheap_ok h" "kind_valid k h"
  shows "drop_kind k (clone_kind k h) = h"
  using assms by (cases k) (auto simp: hmheap_ok_def arc_clone_drop)

section \<open>Properties\<close>

text \<open>C40. What adding to an entry does, for every entry whose reference is alive. A file is no
  directory, and a file may not be created in the root: both are errors and leave the heap as it
  was. In a directory, \<^verbatim>\<open>mkdir\<close> and \<^verbatim>\<open>create_file\<close> always panic, and so does \<^verbatim>\<open>mkdir\<close> in the
  root: the entry's own reference and the ones taken for the new entry make the directory
  shared, and \<^verbatim>\<open>Arc::get_mut\<close> on it gives nothing to unwrap.\<close>

theorem directories_never_grow:
  assumes "hmheap_ok h" and "kind_valid (e_kind self) h" and "hm_ops_ok ops"
  shows "mkdir ops self name ts h
      = (case e_kind self of File _ \<Rightarrow> Inr (Inl ENOTDIR, h) | _ \<Rightarrow> Inl (Panic UnwrapNone))
    \<and> create_file ops self mime name ts data h
      = (case e_kind self of Directory _ \<Rightarrow> Inl (Panic UnwrapNone)
         | File _ \<Rightarrow> Inr (Inl ENOTDIR, h) | Root _ \<Rightarrow> Inr (Inl EACCES, h))"
proof (cases "e_kind self")
  case (Directory d)
  have "strong_count d (arc_clone d (arc_clone d (arc_clone d (dirs h)))) \<noteq> 1"
    using assms Directory by simp
  then have "create_file ops self mime name ts data h = Inl (Panic UnwrapNone)"
    using Directory by (auto simp: create_file_def Let_def insert_dir_shared
        intro!: rbind_stops hash_new_kind [OF assms(3)])
  then show ?thesis
    using assms Directory mkdir_in_shared [OF assms(1) _ assms(3), of d name ts "Directory d"]
    by (simp add: mkdir_def)
next
  case (File d)
  then show ?thesis by (simp add: mkdir_def create_file_def)
next
  case (Root r)
  have "strong_count r (arc_clone r (roots h)) \<noteq> 1"
    using assms Root strong_count_pos [of "next_cell h" "roots h" r] by (auto simp: hmheap_ok_def)
  then show ?thesis
    using Root clone_drop_kind [OF assms(1,2)]
    by (simp add: mkdir_def create_file_def Let_def get_mut_shared rbind_def)
qed

text \<open>A map as an association list, with a digest that keeps the first 64 bytes.\<close>

type_synonym plain_props = "(string, unit) Properties"

definition list_map :: "((plain_props \<times> nat) list, string, unit) hm_ops" where
  "list_map = \<lparr>hm_default = [],
     hm_insert = (\<lambda>p e c. (map_of c p, (p, e) # filter (\<lambda>x. fst x \<noteq> p) c)),
     hm_get = (\<lambda>p c. map_of c p),
     hm_remove_entry = (\<lambda>p c. (map_option (Pair p) (map_of c p), filter (\<lambda>x. fst x \<noteq> p) c)),
     hm_iter = id, hm_sha3 = (\<lambda>bs. take 64 (bs @ replicate 64 0)), to_path_buf = id,
     path_bytes = map of_char, mime_bytes = (\<lambda>_. []), hash_depth = 3\<rparr>"

definition one_dir :: "(plain_props \<times> nat) list hmheap" where
  "one_dir = \<lparr>dirs = [0 \<mapsto> (1, [])], entries = Map.empty, roots = Map.empty, next_cell = 1\<rparr>"

lemma list_map_ok: "hm_ops_ok list_map"
  by (auto simp: hm_ops_ok_def list_map_def min_def)

theorem directories_never_grow_witness:
  "mkdir list_map \<lparr>e_kind = Directory 0, e_checksum = 0, e_parent = None\<rparr> ''home'' 0 one_dir
      = Inl (Panic UnwrapNone)
   \<and> create_file list_map \<lparr>e_kind = Directory 0, e_checksum = 0, e_parent = None\<rparr> () ''a'' 0 [1]
      one_dir = Inl (Panic UnwrapNone)"
  using directories_never_grow [of one_dir "\<lparr>e_kind = Directory 0, e_checksum = 0, e_parent = None\<rparr>"
      list_map "''home''" 0 "()" "[]"]
    directories_never_grow [of one_dir "\<lparr>e_kind = Directory 0, e_checksum = 0, e_parent = None\<rparr>"
      list_map "''a''" 0 "()" "[1]"]
  by (simp add: hmheap_ok_def cells_ok_def one_dir_def list_map_ok)

text \<open>Making a file system panics as well: the new root's map is shared by the time its own entry
  is to be put into it.\<close>

lemma root_hash_ok:
  assumes "hm_ops_ok ops" and "dirs h b = Some (n, c)" and "hm_iter ops c = [(p, e)]"
    and "p_entry_kind p = Directory a" and "dirs h a = Some (m, hm_default ops)"
    and "entries h e = Some (l, x)" and "e_kind x = Directory a" and "e_parent x = None"
    and "e_kind y = Directory b"
    and "e_parent y = None \<or> (\<exists>r q re. e_parent y = Some (Root r) \<and> roots h r = Some (q, re)
      \<and> e_kind (r_dir re) = Directory b \<and> e_parent (r_dir re) = None)"
  shows "\<exists>w. hash_entry ops h y = Inr w"
proof -
  obtain k where k: "hash_depth ops = Suc (Suc (Suc k))" using hm_ops_depth [OF assms(1)] by blast
  have empty: "hm_iter ops (hm_default ops) = []" using assms(1) by (simp add: hm_ops_ok_def)
  have "\<exists>hs'. entry_hash (kind_hash ops h (hash_depth ops)) y hs = Inr hs'" for hs
    using assms(2-10)
    by (auto simp: k entry_hash_def arc_deref_def dir_item_hash_def properties_hash_def hash_option_def
        root_entry_hash_def empty split: option.splits)
  then obtain hs' where "entry_hash (kind_hash ops h (hash_depth ops)) y hasher_default = Inr hs'" by blast
  then show ?thesis by (simp add: hash_entry_def hasher_finish_ok [OF assms(1)])
qed

lemma root_map_new_run:
  assumes "hm_insert ops p (next_cell h + 1) (hm_default ops) = (None, c)"
    and "p = properties_new ops ''/'' (Directory (next_cell h)) None 511 ''root'' ts ts ''root''"
  shows "root_map_new ops ts h = Inr (next_cell h + 2, p, h\<lparr>dirs := (dirs h)
      (next_cell h \<mapsto> (3, hm_default ops), next_cell h + 2 \<mapsto> (1, c)),
      entries := (entries h)(next_cell h + 1 \<mapsto> (1, \<lparr>e_kind = Directory (next_cell h), e_checksum = 0,
        e_parent = None\<rparr>)), next_cell := next_cell h + 3\<rparr>)"
proof -
  have pk: "p_entry_kind p = Directory (next_cell h)" by (simp add: assms(2) properties_new_def)
  show ?thesis
    using assms(1) by (simp add: root_map_new_def new_dir_def Let_def entry_new_def
        new_entry_def assms(2) [symmetric] pk arc_clone_def arc_drop_def)
      (cases h, simp add: eval_nat_numeral)
qed

theorem root_entry_new_panics:
  assumes "hmheap_ok h" and "hm_ops_ok ops"
  shows "root_entry_new ops ts h = Inl (Panic UnwrapNone)"
proof -
  let ?n = "next_cell h"
  define p where "p = properties_new ops ''/'' (Directory ?n) None 511 ''root'' ts ts ''root''"
  obtain c where c: "hm_insert ops p (?n + 1) (hm_default ops) = (None, c)" "hm_iter ops c = [(p, ?n + 1)]"
    using assms(2) by (metis hm_ops_ok_def prod.collapse)
  have pk: "p_entry_kind p = Directory ?n" by (simp add: p_def properties_new_def)
  note hash = root_hash_ok [OF assms(2) _ c(2) pk, of _ _ _ _ _ "\<lparr>e_kind = Directory ?n, e_checksum = 0,
      e_parent = None\<rparr>"]
  show ?thesis
    unfolding root_entry_new_def root_map_new_run [OF c(1) p_def]
    apply (simp add: Let_def entry_new_def)
    apply (rule rbind_stops)
     apply (rule hash; simp add: arc_clone_def)
    apply (simp add: arc_clone_def new_root_def clone_entry_def arc_deref_def get_root_dir_def
        HMFS_MAGIC_def rbind_assoc)
    apply (rule rbind_stops)
     apply (rule hash; simp)
    apply (simp add: arc_clone_def arc_drop_def drop_entry_def clone_entry_def)
    apply (rule rbind_stops)
     apply (rule hash; simp)
    apply (simp add: arc_clone_def clone_entry_def refresh_root_def arc_get_mut_def strong_count_def)
    done
qed

lemma le_value_inj:
  "length xs = length ys \<Longrightarrow> le_value xs = le_value ys \<Longrightarrow> xs = ys"
proof (induction xs ys rule: list_induct2)
  case (Cons x xs y ys)
  have b: "unat x < 256" "unat y < 256"
    using unsigned_less [of x, where 'a = nat] unsigned_less [of y, where 'a = nat] by simp_all
  have eq: "unat x + 256 * le_value xs = unat y + 256 * le_value ys" using Cons.prems by simp
  then have "(unat x + 256 * le_value xs) mod 256 = (unat y + 256 * le_value ys) mod 256" by simp
  then have x: "unat x = unat y" using b by simp
  then have "le_value xs = le_value ys" using eq by simp
  then show ?case using Cons.IH x by (simp add: word_unat_eq_iff)
qed simp

lemma written_writes: "written (fold hasher_write bss hs) = written hs @ concat bss"
  by (induction bss arbitrary: hs) (simp_all add: hasher_write_def)

lemma hasher_finish_prefix:
  assumes "\<forall>bs. length (sha3 bs) = 64"
  shows "\<exists>w. hasher_finish sha3 hs = Inr w \<and> be_bytes 8 w = take 8 (sha3 (written hs))"
proof -
  let ?d = "take 8 (sha3 (written hs))"
  have d: "length ?d = 8" using assms by simp
  have "be_value ?d < 2 ^ 64"
    using le_value_bound [of "rev ?d"] d by (simp add: be_value_def)
  then have "be_value (be_bytes 8 (of_nat (be_value ?d) :: u64)) = be_value ?d"
    by (simp add: be_value_be_bytes unat_of_nat)
  then have "rev (be_bytes 8 (of_nat (be_value ?d) :: u64)) = rev ?d"
    using d by (intro le_value_inj) (simp_all add: be_value_def)
  then show ?thesis using assms by (simp add: hasher_finish_def u64_from_slice_def)
qed

text \<open>The hasher never panics on a 512-bit digest: however the bytes are split into writes, the
  checksum is the first eight bytes of the digest of all of them, most significant first.\<close>

theorem checksum_is_digest_prefix:
  assumes "\<forall>bs. length (sha3 bs) = 64"
  shows "\<exists>w. hasher_finish sha3 (fold hasher_write bss hasher_default) = Inr w
    \<and> be_bytes 8 w = take 8 (sha3 (concat bss))"
  using hasher_finish_prefix [OF assms, of "fold hasher_write bss hasher_default"]
  by (simp add: written_writes hasher_default_def)

theorem checksum_is_digest_prefix_witness:
  "\<exists>w. hasher_finish (\<lambda>bs. take 64 (bs @ replicate 64 0)) (fold hasher_write [[1], [2, 3]] hasher_default)
      = Inr w
    \<and> be_bytes 8 w = take 8 (take 64 (concat [[1], [2, 3]] @ replicate 64 0))"
  by (rule checksum_is_digest_prefix) (simp add: min_def)

section \<open>Checksums of trees\<close>

text \<open>A kind is a tree when following its references comes to an end and finds every cell.\<close>

inductive tree :: "('c, 'p, 'm) hm_ops \<Rightarrow> 'c hmheap \<Rightarrow> EntryKind \<Rightarrow> bool" for ops h where
  tree_file: "tree ops h (File data)"
| tree_dir: "dirs h d = Some (n, c)
    \<Longrightarrow> (\<And>p e. (p, e) \<in> set (hm_iter ops c) \<Longrightarrow> tree ops h (p_entry_kind p)
      \<and> (\<exists>m x. entries h e = Some (m, x) \<and> tree ops h (e_kind x)
          \<and> (\<forall>k. e_parent x = Some k \<longrightarrow> tree ops h k)))
    \<Longrightarrow> tree ops h (Directory d)"
| tree_root: "roots h r = Some (n, re) \<Longrightarrow> tree ops h (e_kind (r_dir re))
    \<Longrightarrow> (\<And>k. e_parent (r_dir re) = Some k \<Longrightarrow> tree ops h k) \<Longrightarrow> tree ops h (Root r)"

text \<open>\<open>appends f bs\<close>: the hash \<open>f\<close> writes the bytes \<open>bs\<close>, whatever was written before. \<open>settles\<close>: a
  hash with a bound on the depth writes the same bytes for every bound from some point on.\<close>

definition appends :: "(HMFSHasher \<Rightarrow> HMFSHasher exec) \<Rightarrow> u8 list \<Rightarrow> bool" where
  "appends f bs \<longleftrightarrow> (\<forall>hs. f hs = Inr (hasher_write bs hs))"

definition settles :: "(nat \<Rightarrow> HMFSHasher \<Rightarrow> HMFSHasher exec) \<Rightarrow> bool" where
  "settles F \<longleftrightarrow> (\<exists>n bs. \<forall>m\<ge>n. appends (F m) bs)"

lemma hasher_write_write [simp]: "hasher_write cs (hasher_write bs hs) = hasher_write (bs @ cs) hs"
  by (simp add: hasher_write_def)

lemma hasher_write_Nil [simp]: "hasher_write [] hs = hs"
  by (simp add: hasher_write_def)

lemmas hash_write_defs = hash_int_def hash_usize_def hash_str_def hash_bytes_def

lemma settles_write: "(\<And>hs. f hs = hasher_write bs hs) \<Longrightarrow> settles (\<lambda>_ hs. Inr (f hs))"
  unfolding settles_def appends_def by auto

lemma settles_bind:
  assumes "settles F" "settles G"
  shows "settles (\<lambda>m hs. rbind (F m hs) (G m))"
proof -
  obtain n bs where f: "appends (F m) bs" if "n \<le> m" for m using assms(1) by (auto simp: settles_def)
  obtain k cs where g: "appends (G m) cs" if "k \<le> m" for m using assms(2) by (auto simp: settles_def)
  have "appends (\<lambda>hs. rbind (F m hs) (G m)) (bs @ cs)" if "max n k \<le> m" for m
    using f [of m] g [of m] that by (simp add: appends_def)
  then show ?thesis unfolding settles_def by blast
qed

lemma settles_write_first:
  assumes "settles F" and "\<And>hs. f hs = hasher_write bs hs"
  shows "settles (\<lambda>m hs. F m (f hs))"
  using settles_bind [OF settles_write [of f bs, OF assms(2)] assms(1)] by simp

lemma settles_for_each:
  assumes "\<And>x. x \<in> set xs \<Longrightarrow> settles (\<lambda>m. F m x)"
  shows "settles (\<lambda>m. for_each (F m) xs)"
  using assms
proof (induction xs)
  case Nil
  then show ?case using settles_write [of "\<lambda>hs. hs" "[]"] by simp
next
  case (Cons x xs)
  then show ?case using settles_bind [of "\<lambda>m. F m x" "\<lambda>m. for_each (F m) xs"] by simp
qed

lemma settles_Suc: "settles (\<lambda>m. F (Suc m)) \<Longrightarrow> settles F"
  unfolding settles_def by (metis Suc_le_D Suc_le_mono)

lemma settles_option:
  assumes "\<And>v. x = Some v \<Longrightarrow> settles (\<lambda>m. F m v)"
  shows "settles (\<lambda>m. hash_option (F m) x)"
proof (cases x)
  case None
  then have "(\<lambda>m. hash_option (F m) x) = (\<lambda>_ hs. Inr (hash_usize 0 hs))"
    by (simp add: fun_eq_iff hash_option_def)
  then show ?thesis
    using settles_write [of "hash_usize 0" "le_bytes 8 (0 :: usize)"] by (simp add: hash_write_defs)
next
  case (Some v)
  then have "(\<lambda>m. hash_option (F m) x) = (\<lambda>m hs. F m v (hash_usize 1 hs))"
    by (simp add: fun_eq_iff hash_option_def)
  then show ?thesis
    using settles_write_first [OF assms [OF Some], of "hash_usize 1" "le_bytes 8 (1 :: usize)"]
    by (simp add: hash_write_defs)
qed

lemma settles_entry:
  assumes "settles (\<lambda>m. K m (e_kind e))" and "\<And>k. e_parent e = Some k \<Longrightarrow> settles (\<lambda>m. K m k)"
  shows "settles (\<lambda>m. entry_hash (K m) e)"
  unfolding entry_hash_def
  by (intro settles_bind assms(1) settles_write_first [OF settles_option [OF assms(2)]])
    (auto simp: hash_int_def)

lemma settles_properties:
  assumes "settles (\<lambda>m. K m (p_entry_kind p))"
  shows "settles (\<lambda>m. properties_hash ops (K m) p)"
  unfolding properties_hash_def
  by (intro settles_bind settles_write_first [OF assms] settles_option settles_write)
    (auto simp: hash_write_defs)

lemma settles_tree: "tree ops h k \<Longrightarrow> settles (\<lambda>m. kind_hash ops h m k)"
proof (induction rule: tree.induct)
  case (tree_file data)
  show ?case by (rule settles_Suc, simp, rule settles_write) (simp add: hash_write_defs)
next
  case (tree_dir d n c)
  have "settles (\<lambda>m. dir_item_hash ops h (kind_hash ops h m) x)" if "x \<in> set (hm_iter ops c)" for x
  proof -
    have "(fst x, snd x) \<in> set (hm_iter ops c)" using that by simp
    from tree_dir(2) [OF this] obtain l y where y: "entries h (snd x) = Some (l, y)" "settles (\<lambda>m. kind_hash ops h m (e_kind y))"
      "\<And>k. e_parent y = Some k \<Longrightarrow> settles (\<lambda>m. kind_hash ops h m k)"
      and p: "settles (\<lambda>m. kind_hash ops h m (p_entry_kind (fst x)))"
      by blast
    show ?thesis
      unfolding dir_item_hash_def
      using settles_bind [OF settles_properties [where K = "kind_hash ops h" and ops = ops, OF p]
          settles_entry [where K = "kind_hash ops h", OF y(2,3)]]
      by (simp add: arc_deref_def y(1))
  qed
  from settles_for_each [where F = "\<lambda>m. dir_item_hash ops h (kind_hash ops h m)", OF this]
  show ?case using tree_dir(1) by - (rule settles_Suc, simp add: arc_deref_def)
next
  case (tree_root r n re)
  have "settles (\<lambda>m. root_entry_hash (kind_hash ops h m) re)"
    unfolding root_entry_hash_def
    by (rule settles_write_first [OF settles_entry [where K = "kind_hash ops h"]])
      (use tree_root in \<open>auto simp: hash_write_defs\<close>)
  then show ?case using tree_root(1) by - (rule settles_Suc, simp add: arc_deref_def)
qed

lemma kind_hash_depth: "kind_hash (ops\<lparr>hash_depth := d\<rparr>) h n k hs = kind_hash ops h n k hs"
proof (induction n arbitrary: k hs)
  case (Suc n)
  then have "kind_hash (ops\<lparr>hash_depth := d\<rparr>) h n = kind_hash ops h n" by blast
  moreover have "dir_item_hash (ops\<lparr>hash_depth := d\<rparr>) h kh = dir_item_hash ops h kh" for kh
    by (simp add: dir_item_hash_def properties_hash_def fun_eq_iff)
  ultimately show ?case by (cases k) simp_all
qed simp


text \<open>A directory with one file, whose name begins with the character 79.\<close>

definition odd_props :: plain_props where
  "odd_props = \<lparr>p_name = ''O'' @ replicate 7 (CHR 0x00), p_full_path = [], p_entry_kind = File [],
     p_mime_type = None, p_mode = 511, p_created_by = [], p_date_created = 0, p_date_modified = 0,
     p_owner = []\<rparr>"

definition odd_dir :: "(plain_props \<times> nat) list hmheap" where
  "odd_dir = \<lparr>dirs = [0 \<mapsto> (1, [(odd_props, 1)])],
     entries = [1 \<mapsto> (1, \<lparr>e_kind = File [], e_checksum = 0, e_parent = None\<rparr>)],
     roots = Map.empty, next_cell = 2\<rparr>"

lemma odd_dir_tree: "tree list_map odd_dir (Directory 0)"
  by (rule tree_dir [of _ _ 1 "[(odd_props, 1)]"])
    (auto simp: odd_dir_def list_map_def odd_props_def intro: tree_file)


text \<open>The hash of a kind does not write which kind it is: a directory whose bytes begin with their
  own remaining length has the checksum of a file with the remaining bytes as its contents.\<close>

theorem directory_and_file_collide:
  assumes "appends (kind_hash ops h (hash_depth ops) (Directory d)) bs"
    and "take 8 bs = le_bytes 8 (of_nat (length bs - 8) :: usize)"
  shows "hash_kind ops h (Directory d) = hash_kind ops h (File (drop 8 bs))"
proof -
  obtain n where n: "hash_depth ops = Suc n"
    using assms(1) by (cases "hash_depth ops") (auto simp: appends_def)
  have "le_bytes 8 (of_nat (length bs - 8) :: usize) @ drop 8 bs = bs"
    using assms(2) by (metis append_take_drop_id)
  then show ?thesis
    using assms(1) by (simp add: hash_kind_def n appends_def hash_write_defs)
qed

theorem directory_and_file_collide_witness:
  "\<exists>bs. length bs = 87 \<and> appends (kind_hash list_map odd_dir 3 (Directory 0)) bs
    \<and> hash_kind list_map odd_dir (Directory 0) = hash_kind list_map odd_dir (File (drop 8 bs))"
proof -
  define bs :: "u8 list" where "bs = map of_char (p_name odd_props) @ [0xff] @ replicate 8 0 @ replicate 8 0
    @ le_bytes 4 (511 :: u32) @ [0xff] @ replicate 32 0 @ [0xff] @ replicate 24 0"
  have len: "length bs = 87" by (simp add: bs_def odd_props_def le_bytes_def)
  have z: "le_bytes 8 (0 :: u64) = replicate 8 0" "le_bytes 16 (0 :: u128) = replicate 16 0"
    by (simp_all add: le_bytes_def upt_conv_Cons eval_nat_numeral)
  have n: "le_bytes 8 (79 :: usize) = 79 # replicate 7 0" by code_simp
  have "appends (kind_hash list_map odd_dir 3 (Directory 0)) bs"
    by (simp add: appends_def numeral_3_eq_3 odd_dir_def list_map_def odd_props_def arc_deref_def
        dir_item_hash_def properties_hash_def entry_hash_def hash_option_def hash_write_defs z bs_def
        replicate_add [symmetric])
  moreover have "take 8 bs = le_bytes 8 (of_nat (length bs - 8) :: usize)"
    using n by (simp add: len) (simp add: bs_def odd_props_def)
  ultimately show ?thesis
    using directory_and_file_collide [of list_map odd_dir 0 bs] len by (auto simp: list_map_def)
qed

section \<open>The tools\<close>

text \<open>The program \<^verbatim>\<open>hmfsprogs\<close> has the definitions above and a \<^verbatim>\<open>main\<close> that is not written yet.\<close>

definition hmfsprogs_main :: "unit exec" where
  "hmfsprogs_main = Inl (Panic NotImplemented)"

end
