(* ===== verification/Runner.thy ===== *)
theory Runner
  imports Prelude "HOL-Library.Sublist"
begin

text \<open>
  The program that builds the disk image, runs it in an emulator or writes it to a device,
  \<^verbatim>\<open>src/runner/src/main.rs\<close>.

  The machine it runs on is a parameter, \<open>host\<close>: the platform of the build, the paths Cargo
  compiles in, what starting a command gives (a failure to start it, or how it ended, with no exit
  code when a signal killed it), whether a path exists, what the \<^verbatim>\<open>bootloader\<close> crate's image
  builder returns and what a line of the standard input is. Each may depend on and change the state
  \<open>'h\<close> of the host. \<open>rstate\<close> also keeps the commands started so far, in order, the disk images
  asked for and the environment variables set. Redirection and the messages printed are left out.

  The program ends early with an exit code or by a panic; what was done before stays done.
\<close>

section \<open>Hosts and sequencing\<close>

record cmd =
  program :: string
  args :: "string list"
  current_dir :: "string option"

datatype run_stop = ExitCode int | RunPanic panic_reason

datatype LevelFilter = LevelError | LevelTrace

record FrameBufferConfig =
  minimum_framebuffer_width :: "nat option"
  minimum_framebuffer_height :: "nat option"

record image_request =
  img_kernel :: string
  img_out :: string
  img_frame_buffer :: FrameBufferConfig
  img_log_level :: LevelFilter

record 'h host =
  target_linux :: bool
  target_windows :: bool
  opt_level_0 :: bool
  kernel_path :: string
  kernel_dir :: string
  ovmf_prebuilt :: string
  cmd_status :: "cmd \<Rightarrow> 'h \<Rightarrow> (unit + int option) \<times> 'h"
  cmd_output :: "cmd \<Rightarrow> 'h \<Rightarrow> (unit + string) \<times> 'h"
  path_exists :: "string \<Rightarrow> 'h \<Rightarrow> bool"
  build_image :: "image_request \<Rightarrow> 'h \<Rightarrow> bool \<times> 'h"
  read_line :: "'h \<Rightarrow> string option \<times> 'h"

record 'h rstate =
  world :: 'h
  commands :: "cmd list"
  images :: "image_request list"
  vars :: "(string \<times> string) list"

type_synonym ('h, 'a) run = "'h rstate \<Rightarrow> (run_stop + 'a) \<times> 'h rstate"

definition ret :: "'a \<Rightarrow> ('h, 'a) run" where
  "ret x s = (Inr x, s)"

definition halt :: "run_stop \<Rightarrow> ('h, 'a) run" where
  "halt e s = (Inl e, s)"

definition bnd :: "('h, 'a) run \<Rightarrow> ('a \<Rightarrow> ('h, 'b) run) \<Rightarrow> ('h, 'b) run" where
  "bnd m f s = (case m s of (Inl e, s') \<Rightarrow> (Inl e, s') | (Inr x, s') \<Rightarrow> f x s')"

definition command :: "string \<Rightarrow> string list \<Rightarrow> cmd" where
  "command p as = \<lparr>program = p, args = as, current_dir = None\<rparr>"

definition status :: "'h host \<Rightarrow> cmd \<Rightarrow> ('h, unit + int option) run" where
  "status env c s = (let (r, w) = cmd_status env c (world s)
     in (Inr r, s\<lparr>world := w, commands := commands s @ [c]\<rparr>))"

definition run_output :: "'h host \<Rightarrow> cmd \<Rightarrow> ('h, unit + string) run" where
  "run_output env c s = (let (r, w) = cmd_output env c (world s)
     in (Inr r, s\<lparr>world := w, commands := commands s @ [c]\<rparr>))"

definition set_var :: "string \<Rightarrow> string \<Rightarrow> ('h, unit) run" where
  "set_var k v s = (Inr (), s\<lparr>vars := vars s @ [(k, v)]\<rparr>)"

text \<open>\<^verbatim>\<open>success\<close> and \<^verbatim>\<open>exit_ok\<close> hold for exit code 0; \<^verbatim>\<open>exit(status.code().unwrap())\<close> panics when
  a signal ended the command.\<close>

definition success :: "int option \<Rightarrow> bool" where
  "success st \<longleftrightarrow> st = Some 0"

definition exit_with :: "int option \<Rightarrow> ('h, 'a) run" where
  "exit_with st = (case st of None \<Rightarrow> halt (RunPanic UnwrapNone) | Some c \<Rightarrow> halt (ExitCode c))"

definition which :: "string \<Rightarrow> cmd" where
  "which tool = command ''which'' [tool]"

definition path_join :: "string \<Rightarrow> string \<Rightarrow> string" where
  "path_join d f = (if d = [] \<or> last d = CHR ''/'' then d @ f else d @ ''/'' @ f)"

section \<open>The program\<close>

datatype HostDistro = Ubuntu | Archlinux

definition host_distro_new :: "'h host \<Rightarrow> ('h, HostDistro) run" where
  "host_distro_new env =
     bnd (status env (which ''apt-get'')) (\<lambda>u. case u of
       Inl _ \<Rightarrow> halt (RunPanic UnreachableCode)
     | Inr st \<Rightarrow>
         if success st then ret Ubuntu
         else bnd (status env (which ''pacman'')) (\<lambda>a. case a of
           Inl _ \<Rightarrow> halt (RunPanic NotImplemented)
         | Inr st \<Rightarrow> if success st then ret Archlinux else halt (RunPanic UnreachableCode)))"

text \<open>The three places of each \<^verbatim>\<open>install_*_deps\<close> that start the package manager differ in the
  packages only.\<close>

definition install :: "'h host \<Rightarrow> string list \<Rightarrow> ('h, unit) run" where
  "install env as =
     bnd (status env (command ''sudo'' as)) (\<lambda>r. case r of
       Inl _ \<Rightarrow> halt (ExitCode 1)
     | Inr st \<Rightarrow> if success st then ret () else exit_with st)"

definition install_missing ::
  "'h host \<Rightarrow> string list \<Rightarrow> string list \<Rightarrow> string list \<Rightarrow> ('h, unit) run" where
  "install_missing env all_missing qemu_there p7zip_missing =
     bnd (status env (which ''7z'')) (\<lambda>d1. case d1 of
       Inr _ \<Rightarrow> ret ()
     | Inl _ \<Rightarrow> bnd (status env (which ''gcc'')) (\<lambda>d2. case d2 of
         Inr _ \<Rightarrow> install env p7zip_missing
       | Inl _ \<Rightarrow> bnd (status env (which ''qemu-system-x86_64'')) (\<lambda>d3. case d3 of
           Inr _ \<Rightarrow> install env qemu_there
         | Inl _ \<Rightarrow> install env all_missing)))"

definition install_arch_deps :: "'h host \<Rightarrow> ('h, unit) run" where
  "install_arch_deps env = install_missing env
     [''pacman'', ''--noconfirm'', ''-S'', ''base-devel'', ''qemu-system-x86'', ''p7zip'']
     [''pacman'', ''--noconfirm'', ''-S'', ''base-devel'', ''p7zip'']
     [''pacman'', ''--noconfirm'', ''-S'', ''p7zip'']"

definition install_ubuntu_deps :: "'h host \<Rightarrow> ('h, unit) run" where
  "install_ubuntu_deps env = install_missing env
     [''apt-get'', ''-y'', ''install'', ''build-essential'', ''qemu-system-x86'', ''p7zip-full'']
     [''apt-get'', ''-y'', ''install'', ''build-essential'', ''p7zip-full'']
     [''apt-get'', ''-y'', ''install'', ''p7zip-full'']"

definition download_ovmf :: "'h host \<Rightarrow> ('h, unit) run" where
  "download_ovmf env =
     bnd (run_output env (command (ovmf_prebuilt env) [])) (\<lambda>r. case r of
       Inl _ \<Rightarrow> halt (RunPanic ExplicitPanic)
     | Inr _ \<Rightarrow>
         bnd (status env (command ''cp''
             [''target/download/extracted/usr/share/edk2.git/ovmf-x64/OVMF-pure-efi.fd'',
              kernel_dir env])) (\<lambda>r. case r of
           Inl _ \<Rightarrow> halt (RunPanic UnwrapNone)
         | Inr st \<Rightarrow> if success st then ret () else exit_with st))"

text \<open>Whether the editor of the given name is a snap: the program is looked up twice, for its
  status and for the path it prints.\<close>

definition editor_is_snap :: "'h host \<Rightarrow> string \<Rightarrow> ('h, bool option) run" where
  "editor_is_snap env editor =
     bnd (status env (which editor)) (\<lambda>r. case r of
       Inl _ \<Rightarrow> ret None
     | Inr st \<Rightarrow>
         if success st then
           bnd (run_output env (which editor)) (\<lambda>o'. case o' of
             Inl _ \<Rightarrow> halt (RunPanic UnwrapNone)
           | Inr full_path \<Rightarrow> ret (Some (sublist ''/snap'' full_path)))
         else ret None)"

definition is_snap :: "'h host \<Rightarrow> ('h, bool option) run" where
  "is_snap env =
     bnd (status env (which ''snap'')) (\<lambda>r. case r of
       Inl _ \<Rightarrow> ret None
     | Inr st \<Rightarrow>
         if success st then
           bnd (editor_is_snap env ''code'') (\<lambda>vscode.
           bnd (editor_is_snap env ''code-insiders'') (\<lambda>vscode_insiders.
             ret (if vscode_insiders \<noteq> None then vscode_insiders else vscode)))
         else ret None)"

definition qemu_args :: "string \<Rightarrow> string list" where
  "qemu_args out_path =
     [''-drive'', ''id=disk,format=raw,file='' @ out_path @ '',if=none'',
      ''-device'', ''ahci,id=ahci'', ''-device'', ''ide-hd,drive=disk,bus=ahci.0'',
      ''-device'', ''qemu-xhci'', ''-drive'', ''if=none,id=stick,format=raw,file=usb-storage.img'',
      ''-device'', ''nec-usb-xhci,id=xhci'', ''-device'', ''usb-storage,bus=xhci.0,drive=stick'',
      ''-bios'', ''OVMF-pure-efi.fd'', ''-machine'', ''q35'', ''-m'', ''4G'', ''-d'', ''int'',
      ''-nic'', ''none'']"

definition preload :: "HostDistro \<Rightarrow> string" where
  "preload d = (case d of Ubuntu \<Rightarrow> ''/usr/lib/x86_64-linux-gnu/libpthread.so.0''
     | Archlinux \<Rightarrow> ''/usr/lib/libpthread.so.0'')"

definition snap_workaround :: "'h host \<Rightarrow> ('h, unit) run" where
  "snap_workaround env =
     bnd (host_distro_new env) (\<lambda>d. bnd (is_snap env) (\<lambda>snap.
       if snap = Some True then set_var ''LD_PRELOAD'' (preload d) else ret ()))"

definition run_qemu :: "'h host \<Rightarrow> string \<Rightarrow> string \<Rightarrow> ('h, unit) run" where
  "run_qemu env kdir out_path =
     bnd (if target_linux env then snap_workaround env else ret ()) (\<lambda>_.
     bnd (status env \<lparr>program = ''qemu-system-x86_64'', args = qemu_args out_path,
         current_dir = Some kdir\<rparr>) (\<lambda>r. case r of
       Inl _ \<Rightarrow> halt (RunPanic UnwrapNone)
     | Inr st \<Rightarrow> if success st then ret () else exit_with st))"

definition create_disk_image :: "'h host \<Rightarrow> FrameBufferConfig \<Rightarrow> ('h, string \<times> string) run" where
  "create_disk_image env framebuf s =
     (let out_path = path_join (kernel_dir env) ''cryptos.img'';
          req = \<lparr>img_kernel = kernel_path env, img_out = out_path, img_frame_buffer = framebuf,
            img_log_level = (if opt_level_0 env then LevelTrace else LevelError)\<rparr>;
          (ok, w) = build_image env req (world s);
          s = s\<lparr>world := w, images := images s @ [req]\<rparr>
      in if ok then (Inr (kernel_dir env, out_path), s) else (Inl (ExitCode 1), s))"

definition default_framebuffer :: FrameBufferConfig where
  "default_framebuffer =
     \<lparr>minimum_framebuffer_width = None, minimum_framebuffer_height = None\<rparr>"

definition ask_device :: "'h host \<Rightarrow> ('h, string) run" where
  "ask_device env s = (let (l, w) = read_line env (world s); s = s\<lparr>world := w\<rparr>
     in case l of None \<Rightarrow> (Inl (ExitCode 0), s) | Some dev \<Rightarrow> (Inr dev, s))"

definition choose_device :: "'h host \<Rightarrow> string list \<Rightarrow> ('h, string) run" where
  "choose_device env as = (if 2 < length as then ret (as ! 2) else ask_device env)"

definition main_boot :: "'h host \<Rightarrow> ('h, unit) run" where
  "main_boot env =
     bnd (create_disk_image env default_framebuffer) (\<lambda>(kdir, out_path). \<lambda>s.
       if path_exists env ''OVMF-pure-efi.fd'' (world s) then run_qemu env kdir out_path s
       else bnd (download_ovmf env) (\<lambda>_. run_qemu env kdir out_path) s)"

definition main_write :: "'h host \<Rightarrow> string list \<Rightarrow> ('h, unit) run" where
  "main_write env as =
     (if target_windows env then halt (ExitCode 1)
      else bnd (create_disk_image env
            \<lparr>minimum_framebuffer_width = Some 1920, minimum_framebuffer_height = Some 1080\<rparr>)
          (\<lambda>(_, out_path).
        bnd (choose_device env as) (\<lambda>dev.
        bnd (status env (command ''sudo'' [''dd'', ''if='' @ out_path, ''of='' @ dev])) (\<lambda>r. case r of
          Inl _ \<Rightarrow> halt (ExitCode 1)
        | Inr _ \<Rightarrow> ret ()))))"

definition install_deps :: "'h host \<Rightarrow> ('h, unit) run" where
  "install_deps env = bnd (host_distro_new env) (\<lambda>d. case d of
     Ubuntu \<Rightarrow> install_ubuntu_deps env | Archlinux \<Rightarrow> install_arch_deps env)"

text \<open>The match on the first argument, and the whole program.\<close>

definition main_mode :: "'h host \<Rightarrow> string list \<Rightarrow> ('h, unit) run" where
  "main_mode env as =
     (if 1 < length as then
        (if as ! 1 = ''--boot'' then main_boot env
         else if as ! 1 = ''--write'' then main_write env as
         else halt (ExitCode 1))
      else bnd (create_disk_image env default_framebuffer) (\<lambda>_. ret ()))"

definition runner_main :: "'h host \<Rightarrow> string list \<Rightarrow> ('h, unit) run" where
  "runner_main env as =
     bnd (if target_linux env then install_deps env else ret ()) (\<lambda>_. main_mode env as)"

section \<open>What a part of the program starts\<close>

text \<open>\<open>only P m\<close>: wherever \<open>m\<close> is run, and however it ends, it builds no image and starts only
  commands with \<open>P\<close>.\<close>

named_theorems only_intros

definition only :: "(cmd \<Rightarrow> bool) \<Rightarrow> ('h, 'a) run \<Rightarrow> bool" where
  "only P m \<longleftrightarrow> (\<forall>s. images (snd (m s)) = images s
     \<and> (\<exists>cs. commands (snd (m s)) = commands s @ cs \<and> list_all P cs))"

lemma only_ret [only_intros]: "only P (ret x)"
  by (simp add: only_def ret_def)

lemma only_halt [only_intros]: "only P (halt e)"
  by (simp add: only_def halt_def)

lemma only_exit_with [only_intros]: "only P (exit_with st)"
  by (simp add: exit_with_def only_halt split: option.splits)

lemma only_set_var [only_intros]: "only P (set_var k v)"
  by (simp add: only_def set_var_def)

lemma only_status [only_intros]: "P c \<Longrightarrow> only P (status env c)"
  by (simp add: only_def status_def split: prod.splits)

lemma only_run_output [only_intros]: "P c \<Longrightarrow> only P (run_output env c)"
  by (simp add: only_def run_output_def split: prod.splits)

lemma only_bnd [only_intros]:
  assumes "only P m" and "\<And>x. only P (f x)"
  shows "only P (bnd m f)"
  unfolding only_def
proof (intro allI)
  fix s
  obtain r s' where m: "m s = (r, s')" by (cases "m s")
  have 1: "images s' = images s \<and> (\<exists>cs. commands s' = commands s @ cs \<and> list_all P cs)"
    using assms(1) [unfolded only_def, rule_format, of s] m by simp
  show "images (snd (bnd m f s)) = images s
      \<and> (\<exists>cs. commands (snd (bnd m f s)) = commands s @ cs \<and> list_all P cs)"
  proof (cases r)
    case (Inr x)
    have "images (snd (f x s')) = images s'
        \<and> (\<exists>cs. commands (snd (f x s')) = commands s' @ cs \<and> list_all P cs)"
      using assms(2) [of x] unfolding only_def by blast
    then show ?thesis using 1 m Inr by (auto simp: bnd_def)
  qed (use 1 m in \<open>simp add: bnd_def\<close>)
qed

lemma only_if [only_intros]:
  "only P m \<Longrightarrow> only P m' \<Longrightarrow> only P (if b then m else m')"
  by simp

lemma only_case_sum [only_intros]:
  "(\<And>x. only P (f x)) \<Longrightarrow> (\<And>x. only P (g x)) \<Longrightarrow> only P (case r of Inl x \<Rightarrow> f x | Inr x \<Rightarrow> g x)"
  by (simp split: sum.splits)

definition unprivileged :: "cmd \<Rightarrow> bool" where
  "unprivileged c \<longleftrightarrow> program c \<noteq> ''sudo''"

lemma unprivileged_simps [simp]:
  "unprivileged (which t)" "unprivileged (command p as) \<longleftrightarrow> p \<noteq> ''sudo''"
  "unprivileged \<lparr>program = p, args = as, current_dir = d\<rparr> \<longleftrightarrow> p \<noteq> ''sudo''"
  by (simp_all add: unprivileged_def which_def command_def)

lemma only_host_distro_new [only_intros]: "only unprivileged (host_distro_new env)"
  unfolding host_distro_new_def by (intro only_intros) simp_all

lemma only_editor_is_snap [only_intros]: "only unprivileged (editor_is_snap env e)"
  unfolding editor_is_snap_def by (intro only_intros) simp_all

lemma only_run_qemu [only_intros]: "only unprivileged (run_qemu env kdir out_path)"
  unfolding run_qemu_def snap_workaround_def is_snap_def by (intro only_intros) simp_all

lemma only_download_ovmf [only_intros]:
  "ovmf_prebuilt env \<noteq> ''sudo'' \<Longrightarrow> only unprivileged (download_ovmf env)"
  unfolding download_ovmf_def by (intro only_intros) simp_all

text \<open>Where \<^verbatim>\<open>which\<close> can be started at all, its outcome is never an error, and nothing is
  installed, whatever is missing.\<close>

definition which_starts :: "'h host \<Rightarrow> bool" where
  "which_starts env \<longleftrightarrow> (\<forall>tool w. \<exists>st w'. cmd_status env (which tool) w = (Inr st, w'))"

lemma install_missing_none:
  fixes env :: "'h host"
  assumes "which_starts env"
  shows "install_missing env a b c = bnd (status env (which ''7z'')) (\<lambda>_. ret ())"
proof
  fix s :: "'h rstate"
  obtain st w where "cmd_status env (which ''7z'') (world s) = (Inr st, w)"
    using assms unfolding which_starts_def by blast
  then show "install_missing env a b c s = bnd (status env (which ''7z'')) (\<lambda>_. ret ()) s"
    by (simp add: install_missing_def bnd_def status_def)
qed

lemma only_install_deps:
  assumes "which_starts env"
  shows "only unprivileged (install_deps env)"
  unfolding install_deps_def install_ubuntu_deps_def install_arch_deps_def
    install_missing_none [OF assms]
  by (intro only_intros) (auto split: HostDistro.splits intro!: only_intros)

lemma create_disk_image_cases:
  obtains (built) req w s' where "create_disk_image env fb s = (Inr (kernel_dir env, img_out req), s')"
      "fst (build_image env req w)" "images s' = images s @ [req]" "commands s' = commands s"
  | (failed) s' where "create_disk_image env fb s = (Inl (ExitCode 1), s')" "commands s' = commands s"
proof -
  let ?req = "\<lparr>img_kernel = kernel_path env, img_out = path_join (kernel_dir env) ''cryptos.img'',
    img_frame_buffer = fb, img_log_level = (if opt_level_0 env then LevelTrace else LevelError)\<rparr>"
  obtain ok w where "build_image env ?req (world s) = (ok, w)" by fastforce
  then show thesis
    using that(1) [of ?req "s\<lparr>world := w, images := images s @ [?req]\<rparr>" "world s"]
      that(2) [of "s\<lparr>world := w, images := images s @ [?req]\<rparr>"]
    by (cases ok) (simp_all add: create_disk_image_def Let_def)
qed

lemma choose_device_keeps:
  "images (snd (choose_device env as s)) = images s
   \<and> commands (snd (choose_device env as s)) = commands s"
  by (simp add: choose_device_def ret_def ask_device_def Let_def split: prod.splits option.splits)

text \<open>A privileged command is a copy of an image that was built.\<close>

definition copies_image :: "'h host \<Rightarrow> image_request list \<Rightarrow> cmd \<Rightarrow> bool" where
  "copies_image env reqs c \<longleftrightarrow> (\<exists>req \<in> set reqs. \<exists>w dev. fst (build_image env req w)
     \<and> c = command ''sudo'' [''dd'', ''if='' @ img_out req, ''of='' @ dev])"

lemma main_write_commands:
  assumes "main_write env as s = (r, s')" and "c \<in> set (commands s')"
  shows "c \<in> set (commands s) \<or> copies_image env (images s') c"
proof (cases "target_windows env")
  case True
  then show ?thesis using assms by (simp add: main_write_def halt_def)
next
  case False
  let ?fb = "\<lparr>minimum_framebuffer_width = Some 1920, minimum_framebuffer_height = Some 1080\<rparr>"
  show ?thesis
  proof (cases rule: create_disk_image_cases [of env ?fb s])
    case (built req w s1)
    obtain s2 where s2: "images s2 = images s1" "commands s2 = commands s1"
      and d: "snd (choose_device env as s1) = s2"
      using choose_device_keeps [of env as s1] by blast
    show ?thesis
      using assms False built s2 d
      by (auto simp: main_write_def bnd_def status_def copies_image_def halt_def ret_def
          split: prod.splits sum.splits)
  qed (use assms False in \<open>simp add: main_write_def bnd_def\<close>)
qed

lemma onlyD:
  assumes "only P m" and "m s = (r, s')" and "c \<in> set (commands s')"
  shows "c \<in> set (commands s) \<or> P c"
  using assms(1) [unfolded only_def, rule_format, of s] assms(2,3) by (auto simp: list_all_iff)

lemma main_boot_commands:
  assumes "ovmf_prebuilt env \<noteq> ''sudo''"
    and "main_boot env s = (r, s')" and "c \<in> set (commands s')"
  shows "c \<in> set (commands s) \<or> unprivileged c"
proof (cases rule: create_disk_image_cases [of env default_framebuffer s])
  case (built req w s1)
  let ?q = "run_qemu env (kernel_dir env) (img_out req)"
  have "only unprivileged (bnd (download_ovmf env) (\<lambda>_. ?q))"
    using assms(1) by (intro only_intros)
  moreover have "only unprivileged ?q" by (rule only_run_qemu)
  ultimately show ?thesis
    using assms built onlyD [of unprivileged _ s1 r s' c]
    by (auto simp: main_boot_def bnd_def [of "create_disk_image env default_framebuffer"]
        split: if_splits)
qed (use assms in \<open>simp add: main_boot_def bnd_def\<close>)

lemma main_mode_other:
  assumes "ovmf_prebuilt env \<noteq> ''sudo''" and "\<not> (1 < length as \<and> as ! 1 = ''--write'')"
    and "main_mode env as s = (r, s')" and "c \<in> set (commands s')"
  shows "c \<in> set (commands s) \<or> unprivileged c"
proof (cases "1 < length as")
  case True
  then show ?thesis
    using assms main_boot_commands [OF assms(1)]
    by (auto simp: main_mode_def halt_def split: if_splits)
next
  case False
  then have run: "bnd (create_disk_image env default_framebuffer) (\<lambda>_. ret ()) s = (r, s')"
    using assms(3) by (simp add: main_mode_def)
  show ?thesis
    by (cases rule: create_disk_image_cases [of env default_framebuffer s])
      (use run assms(4) in \<open>auto simp: bnd_def ret_def\<close>)
qed

section \<open>Properties\<close>


text \<open>A host on which every command succeeds, with the tools of one distribution and an image
  builder that works; the line typed is the one given.\<close>

definition calm_host :: "string \<Rightarrow> unit host" where
  "calm_host line = \<lparr>target_linux = True, target_windows = False, opt_level_0 = False,
     kernel_path = ''cryptos'', kernel_dir = ''/k'', ovmf_prebuilt = ''ovmf-prebuilt'',
     cmd_status = (\<lambda>c w. (Inr (Some 0), w)), cmd_output = (\<lambda>c w. (Inr [], w)),
     path_exists = (\<lambda>p w. True), build_image = (\<lambda>r w. (True, w)),
     read_line = (\<lambda>w. (Some line, w))\<rparr>"

definition fresh_run :: "unit rstate" where
  "fresh_run = \<lparr>world = (), commands = [], images = [], vars = []\<rparr>"


text \<open>Nothing is ever installed, so a missing tool shows only when it is used; and leaving the
  device blank does not cancel: the line that is read, with its line feed, is the device.\<close>

theorem blank_device_still_copies:
  "runner_main (calm_host [CHR 0x0A]) [''runner'', ''--write''] fresh_run
    = (Inr (), \<lparr>world = (),
        commands = [which ''apt-get'', which ''7z'',
          command ''sudo'' [''dd'', ''if=/k/cryptos.img'', ''of='' @ [CHR 0x0A]]],
        images = [\<lparr>img_kernel = ''cryptos'', img_out = ''/k/cryptos.img'',
          img_frame_buffer = \<lparr>minimum_framebuffer_width = Some 1920,
            minimum_framebuffer_height = Some 1080\<rparr>, img_log_level = LevelError\<rparr>],
        vars = []\<rparr>)"
  by (simp add: runner_main_def main_mode_def bnd_def install_deps_def host_distro_new_def status_def
      calm_host_def success_def ret_def install_ubuntu_deps_def install_missing_def fresh_run_def
      main_write_def create_disk_image_def path_join_def choose_device_def ask_device_def Let_def)

end
