(* ===== verification/Int_Like.thy ===== *)
theory Int_Like
  imports Prelude
begin

text \<open>
  What the macro \<^verbatim>\<open>int_like!\<close> of \<^verbatim>\<open>src/common/macros.rs\<close> generates for
  \<^verbatim>\<open>int_like!(Pid, AtomicPid, usize, AtomicUsize)\<close> in \<^verbatim>\<open>src/process/mod.rs\<close>: a number of its own type,
  and an atomic cell of it. An operation on the atomic cell is one step on the cell's value; the
  memory orders only matter for accesses to other cells. \<^verbatim>\<open>compare_exchange_weak\<close> may fail without
  a reason, which is its argument \<open>spurious\<close>.

  \<open>run_atomic\<close> is any interleaving of operations of any threads, as the sequence in which they take
  effect; \<open>last_written\<close> and \<open>exchanged\<close> say what such a history does without the cell.
\<close>

section \<open>The number\<close>

datatype Pid = Pid usize

definition pid_new :: "usize \<Rightarrow> Pid" where
  "pid_new val = Pid val"

fun pid_get :: "Pid \<Rightarrow> usize" where
  "pid_get (Pid v) = v"

definition pid_from :: "usize \<Rightarrow> Pid" where
  "pid_from val = pid_new val"

definition usize_from_pid :: "Pid \<Rightarrow> usize" where
  "usize_from_pid val = pid_get val"

section \<open>The atomic cell\<close>

record AtomicPid =
  cell :: usize

definition atomic_new :: "Pid \<Rightarrow> AtomicPid" where
  "atomic_new x = \<lparr>cell = pid_get x\<rparr>"

definition atomic_default :: AtomicPid where
  "atomic_default = atomic_new (pid_new 0)"

definition atomic_load :: "AtomicPid \<Rightarrow> Pid" where
  "atomic_load a = pid_new (cell a)"

definition atomic_store :: "Pid \<Rightarrow> AtomicPid \<Rightarrow> AtomicPid" where
  "atomic_store val a = a\<lparr>cell := pid_get val\<rparr>"

definition atomic_swap :: "Pid \<Rightarrow> AtomicPid \<Rightarrow> Pid \<times> AtomicPid" where
  "atomic_swap val a = (pid_from (cell a), a\<lparr>cell := pid_get val\<rparr>)"

definition compare_exchange :: "Pid \<Rightarrow> Pid \<Rightarrow> AtomicPid \<Rightarrow> (Pid + Pid) \<times> AtomicPid" where
  "compare_exchange current new a =
     (if cell a = pid_get current then (Inr (pid_from (cell a)), a\<lparr>cell := pid_get new\<rparr>)
      else (Inl (pid_from (cell a)), a))"

definition compare_exchange_weak ::
  "bool \<Rightarrow> Pid \<Rightarrow> Pid \<Rightarrow> AtomicPid \<Rightarrow> (Pid + Pid) \<times> AtomicPid" where
  "compare_exchange_weak spurious current new a =
     (if cell a = pid_get current \<and> \<not> spurious
      then (Inr (pid_from (cell a)), a\<lparr>cell := pid_get new\<rparr>)
      else (Inl (pid_from (cell a)), a))"

section \<open>Histories\<close>

datatype atomic_op =
    Load | Store Pid | Swap Pid | Exchange Pid Pid | ExchangeWeak bool Pid Pid

datatype answer = Stored | Value Pid | Exchanged Pid | Refused Pid

definition answer_of :: "Pid + Pid \<Rightarrow> answer" where
  "answer_of r = (case r of Inl x \<Rightarrow> Refused x | Inr x \<Rightarrow> Exchanged x)"

fun atomic_step :: "atomic_op \<Rightarrow> AtomicPid \<Rightarrow> answer \<times> AtomicPid" where
  "atomic_step Load a = (Value (atomic_load a), a)"
| "atomic_step (Store v) a = (Stored, atomic_store v a)"
| "atomic_step (Swap v) a = map_prod Value id (atomic_swap v a)"
| "atomic_step (Exchange c n) a = map_prod answer_of id (compare_exchange c n a)"
| "atomic_step (ExchangeWeak s c n) a = map_prod answer_of id (compare_exchange_weak s c n a)"

fun run_atomic :: "atomic_op list \<Rightarrow> AtomicPid \<Rightarrow> answer list \<times> AtomicPid" where
  "run_atomic [] a = ([], a)"
| "run_atomic (x # xs) a =
     (let (r, a) = atomic_step x a; (rs, a) = run_atomic xs a in (r # rs, a))"

text \<open>The value an operation leaves behind, judged by the operation and its answer alone.\<close>

fun writes :: "atomic_op \<times> answer \<Rightarrow> Pid option" where
  "writes (Store v, Stored) = Some v"
| "writes (Swap v, Value _) = Some v"
| "writes (Exchange c n, Exchanged _) = Some n"
| "writes (ExchangeWeak s c n, Exchanged _) = Some n"
| "writes _ = None"

fun seen :: "answer \<Rightarrow> Pid option" where
  "seen Stored = None"
| "seen (Value v) = Some v"
| "seen (Exchanged v) = Some v"
| "seen (Refused v) = Some v"

text \<open>A history is consistent from the value \<open>v\<close> on when every operation sees the value written last,
  an exchange succeeds only on the value it expects, and a strong exchange fails only on another.\<close>

fun outcome_ok :: "Pid \<Rightarrow> atomic_op \<times> answer \<Rightarrow> bool" where
  "outcome_ok v (Exchange c n, Exchanged _) \<longleftrightarrow> v = c"
| "outcome_ok v (ExchangeWeak s c n, Exchanged _) \<longleftrightarrow> v = c"
| "outcome_ok v (Exchange c n, Refused _) \<longleftrightarrow> v \<noteq> c"
| "outcome_ok v _ \<longleftrightarrow> True"

fun consistent :: "Pid \<Rightarrow> (atomic_op \<times> answer) list \<Rightarrow> Pid \<Rightarrow> bool" where
  "consistent v [] w \<longleftrightarrow> v = w"
| "consistent v (x # xs) w \<longleftrightarrow> seen (snd x) \<in> {None, Some v} \<and> outcome_ok v x
     \<and> consistent (case writes x of None \<Rightarrow> v | Some u \<Rightarrow> u) xs w"

lemma pid_eq: "pid_get p = v \<longleftrightarrow> p = Pid v"
  by (cases p) auto

lemmas atomic_defs = atomic_load_def atomic_store_def atomic_swap_def compare_exchange_def
  compare_exchange_weak_def pid_from_def pid_new_def answer_of_def

lemma atomic_step_ok:
  assumes "atomic_step x a = (r, b)"
  shows "seen r \<in> {None, Some (Pid (cell a))}" and "outcome_ok (Pid (cell a)) (x, r)"
    and "Pid (cell b) = (case writes (x, r) of None \<Rightarrow> Pid (cell a) | Some u \<Rightarrow> u)"
  using assms by (cases x; auto simp: atomic_defs pid_eq split: if_splits; metis pid_eq)+

text \<open>Any sequence of operations of any threads on an atomic process number is consistent: no write
  is lost, a value read is the one written last, and exchanges succeed only on what they expect.\<close>

theorem atomic_history_consistent:
  "consistent (atomic_load a) (zip xs (fst (run_atomic xs a))) (atomic_load (snd (run_atomic xs a)))
   \<and> length (fst (run_atomic xs a)) = length xs"
proof (induction xs arbitrary: a)
  case (Cons x xs)
  obtain r b where s: "atomic_step x a = (r, b)" by fastforce
  show ?case
    using atomic_step_ok [OF s] Cons.IH [of b]
    by (auto simp: s Let_def case_prod_beta atomic_load_def pid_new_def)
qed simp

text \<open>Converting to the number type and its atomic cell loses nothing.\<close>

theorem pid_roundtrip:
  "usize_from_pid (pid_from n) = n \<and> atomic_load (atomic_new p) = p
   \<and> atomic_load atomic_default = pid_new 0"
  by (cases p) (simp add: usize_from_pid_def atomic_defs atomic_new_def atomic_default_def)

end
