(* ===== verification/Phys_Box.thy ===== *)
theory Phys_Box
  imports Prelude
begin

text \<open>
  \<^verbatim>\<open>PhysBox\<close> of \<^verbatim>\<open>src/cralloc/mod.rs\<close>. The address of the argument, which the compiler chooses, and
  the global allocator are parameters. The memory is a function from addresses to bytes.

  The frame around the argument is computed to get its size, and the address of that frame is taken
  for the alignment. The result is a pointer read out of the new memory.
\<close>

type_synonym bytes = "u64 \<Rightarrow> u8"

type_synonym zalloc = "u64 \<Rightarrow> u64 \<Rightarrow> bytes \<Rightarrow> (u64 \<times> bytes) option"

text \<open>\<^verbatim>\<open>PhysAddr::new\<close> panics when one of the upper twelve bits is set.\<close>

definition phys_addr_new :: "u64 \<Rightarrow> u64 exec" where
  "phys_addr_new a = (if drop_bit 52 a = 0 then Inr a else Inl (Panic ExplicitPanic))"

text \<open>\<^verbatim>\<open>Layout::from_size_align\<close>: the alignment is a power of two, and the size rounded up to it fits
  an \<^verbatim>\<open>isize\<close>.\<close>

definition power_of_two :: "u64 \<Rightarrow> bool" where
  "power_of_two a \<longleftrightarrow> a \<noteq> 0 \<and> a AND (a - 1) = 0"

definition layout_ok :: "u64 \<Rightarrow> u64 \<Rightarrow> bool" where
  "layout_ok n align \<longleftrightarrow> power_of_two align \<and> unat n \<le> 2 ^ 63 - unat align"

definition non_null :: "u64 \<Rightarrow> u64 option" where
  "non_null p = (if p = 0 then None else Some p)"

definition read_ptr :: "bytes \<Rightarrow> u64 \<Rightarrow> u64" where
  "read_ptr m a = of_nat (le_value (map (\<lambda>i. m (a + of_nat i)) [0..<8]))"

definition phys_box_new_inner :: "zalloc \<Rightarrow> u64 \<Rightarrow> u64 \<Rightarrow> bytes \<Rightarrow> (u64 \<times> bytes) exec" where
  "phys_box_new_inner allocate_zeroed page_size inner_addr m =
     rbind (phys_addr_new inner_addr) (\<lambda>a.
       let align = a - a mod page_size
       in if layout_ok page_size align then
            (case allocate_zeroed page_size align m of
               None \<Rightarrow> Inl (Panic ExplicitPanic)
             | Some (new_inner, m) \<Rightarrow>
                 rbind (unwrap (non_null (read_ptr m new_inner))) (\<lambda>p. Inr (p, m)))
          else Inl (Panic ExplicitPanic))"

definition phys_box_new :: "zalloc \<Rightarrow> u64 \<Rightarrow> bytes \<Rightarrow> (u64 \<times> bytes) exec" where
  "phys_box_new allocate_zeroed inner_addr m = phys_box_new_inner allocate_zeroed 4096 inner_addr m"

text \<open>The allocator's promise.\<close>

definition zeroes :: "zalloc \<Rightarrow> bool" where
  "zeroes allocate_zeroed \<longleftrightarrow> (\<forall>n align m p m'. allocate_zeroed n align m = Some (p, m')
     \<longrightarrow> (\<forall>i < unat n. m' (p + of_nat i) = 0))"

lemma le_value_zeros [simp]: "le_value (replicate n 0) = 0"
  by (induction n) simp_all

lemma read_ptr_zero:
  assumes "\<And>i. i < 8 \<Longrightarrow> m (a + of_nat i) = 0"
  shows "read_ptr m a = 0"
proof -
  have "map (\<lambda>i. m (a + of_nat i)) [0..<8] = map (\<lambda>_. 0) [0..<8]"
    by (rule map_cong [OF refl]) (simp add: assms)
  then show ?thesis unfolding read_ptr_def map_replicate_const by simp
qed

text \<open>A \<^verbatim>\<open>PhysBox\<close> cannot be made: for every address of the argument and every allocator that zeroes
  what it hands out, \<^verbatim>\<open>PhysBox::new\<close> panics. The address must fit 52 bits and its page must start at
  a power of two, or no layout is made; and then the pointer that is read out of the zeroed memory is
  null, and there is nothing to unwrap.\<close>

theorem phys_box_new_panics:
  assumes "zeroes allocate_zeroed"
  shows "phys_box_new allocate_zeroed a m = Inl (Panic
    (if drop_bit 52 a = 0 \<and> layout_ok 4096 (page_down a) \<and> allocate_zeroed 4096 (page_down a) m \<noteq> None
     then UnwrapNone else ExplicitPanic))"
proof -
  have "read_ptr m' p = 0" if "allocate_zeroed 4096 (page_down a) m = Some (p, m')" for p m'
    using assms that by (intro read_ptr_zero) (auto simp: zeroes_def)
  then show ?thesis
    by (auto simp: phys_box_new_def phys_box_new_inner_def phys_addr_new_def Let_def page_down_def
        non_null_def split: option.splits)
qed

theorem phys_box_new_panics_witness:
  "phys_box_new (\<lambda>n align m. Some (0x10000, \<lambda>_. 0)) 0x2010 (\<lambda>_. 1) = Inl (Panic UnwrapNone)"
  using phys_box_new_panics [of "\<lambda>n align m. Some (0x10000, \<lambda>_. 0)" "0x2010" "\<lambda>_. 1"]
  by (simp add: zeroes_def layout_ok_def power_of_two_def page_down_def)

end
